(* ===== verification/Prelude.thy ===== *)
theory Prelude
  imports Main "HOL-Library.Word"
begin

text \<open>
  What every component of the development shares: the C++ integer and byte-buffer types,
  the faults that end the process (a failed \<open>CheckIfExpectedOrAbort\<close>, an exception that
  leaves a \<open>noexcept\<close> function, an access outside a \<open>std::vector\<close>), the collections the
  automation works from, and generic facts about bytes and lists.

  An operation that can fault returns a value of the sum \<open>fault + 'a\<close>; an operation that can
  also block (it waits on a condition variable until another thread wakes it) returns a
  \<open>call\<close>.
\<close>

unbundle bit_operations_syntax

section \<open>Types\<close>

type_synonym u8 = "8 word"
type_synonym u16 = "16 word"
type_synonym u32 = "32 word"
type_synonym bytes = "u8 list"

datatype fault =
    Span_Abort              \<comment> \<open>\<open>core_type::details::CheckIfExpectedOrAbort\<close> calls \<open>std::abort\<close>\<close>
  | Vector_Out_Of_Bounds    \<comment> \<open>\<open>std::vector::operator[]\<close> outside the vector\<close>
  | Null_Dereference        \<comment> \<open>a null pointer is dereferenced\<close>
  | Uncaught_Exception      \<comment> \<open>an exception leaves a \<open>noexcept\<close> function: \<open>std::terminate\<close>\<close>
  | Indeterminate_Value     \<comment> \<open>a variable that was never initialised is read\<close>
  | Fatal_Error             \<comment> \<open>\<open>LogFatalAndTerminate\<close> calls \<open>std::abort\<close>\<close>
  | Use_After_Free          \<comment> \<open>an object that was destroyed is used through a reference\<close>
  | Assertion_Failed        \<comment> \<open>an \<open>assert\<close> does not hold\<close>

type_synonym 'a run = "fault + 'a"

datatype 'a call =
    Returns 'a              \<comment> \<open>the call returns this\<close>
  | Blocks                  \<comment> \<open>the schedule ends while the call is still waiting\<close>
  | Crashes fault           \<comment> \<open>the process ends during the call\<close>

section \<open>Collections for the automation\<close>

named_theorems codec_simps \<open>byte packing and unpacking\<close>
named_theorems ctx_simps \<open>state contexts and timers\<close>
named_theorems frame_simps \<open>fields an operation leaves unchanged\<close>
named_theorems op_defs \<open>definitions of the operations of a component\<close>

section \<open>Sequencing of operations that can fault\<close>

definition bind_run :: "'a run \<Rightarrow> ('a \<Rightarrow> 'b run) \<Rightarrow> 'b run" where
  "bind_run r f = (case r of Inl e \<Rightarrow> Inl e | Inr x \<Rightarrow> f x)"

lemma bind_run_simps [simp]:
  "bind_run (Inl e) f = Inl e"
  "bind_run (Inr x) f = f x"
  by (simp_all add: bind_run_def)

lemma bind_run_Inr_iff: "bind_run r f = Inr y \<longleftrightarrow> (\<exists>x. r = Inr x \<and> f x = Inr y)"
  by (cases r) simp_all

lemma bind_run_assoc: "bind_run (bind_run r f) g = bind_run r (\<lambda>x. bind_run (f x) g)"
  by (cases r) simp_all

text \<open>
  \<open>deliver_all step es w\<close>: the other threads perform the actions \<open>es\<close> one after the other; a
  fault in one of them ends the process.
\<close>

fun deliver_all :: "('ev \<Rightarrow> 'w \<Rightarrow> 'w run) \<Rightarrow> 'ev list \<Rightarrow> 'w \<Rightarrow> 'w run" where
  "deliver_all step [] w = Inr w"
| "deliver_all step (e # es) w = bind_run (step e w) (deliver_all step es)"

text \<open>The same operation on each element of a list, in order.\<close>

fun map_run :: "('a \<Rightarrow> 'b run) \<Rightarrow> 'a list \<Rightarrow> 'b list run" where
  "map_run f [] = Inr []"
| "map_run f (x # xs) = bind_run (f x) (\<lambda>y. bind_run (map_run f xs) (\<lambda>ys. Inr (y # ys)))"

lemma map_run_Inr: "(\<And>x. x \<in> set xs \<Longrightarrow> f x = Inr (g x)) \<Longrightarrow> map_run f xs = Inr (map g xs)"
  by (induction xs) simp_all

lemma map_run_fault: "x \<in> set xs \<Longrightarrow> f x = Inl e \<Longrightarrow> \<exists>e'. map_run f xs = Inl e'"
  by (induction xs) (auto simp: bind_run_def split: sum.splits)

lemma length_map_run: "map_run f xs = Inr ys \<Longrightarrow> length ys = length xs"
  by (induction xs arbitrary: ys) (auto simp: bind_run_Inr_iff)

lemma map_run_Inl: "map_run f xs = Inl e \<Longrightarrow> \<exists>x \<in> set xs. f x = Inl e"
  by (induction xs) (auto simp: bind_run_def split: sum.splits)

lemma deliver_all_append:
  "deliver_all step (es @ fs) w = bind_run (deliver_all step es w) (deliver_all step fs)"
  by (induction es arbitrary: w) (auto simp: bind_run_def split: sum.splits)

lemma deliver_all_invariant_on:
  assumes "\<And>e w w'. e \<in> E \<Longrightarrow> step e w = Inr w' \<Longrightarrow> P w \<Longrightarrow> P w'"
    and "set es \<subseteq> E" and "deliver_all step es w = Inr w'" and "P w"
  shows "P w'"
  using assms(2-4)
  by (induction es arbitrary: w) (auto simp: bind_run_Inr_iff dest: assms(1))

lemma deliver_all_invariant:
  assumes "\<And>e w w'. step e w = Inr w' \<Longrightarrow> P w \<Longrightarrow> P w'"
    and "deliver_all step es w = Inr w'" and "P w"
  shows "P w'"
  using deliver_all_invariant_on [of UNIV step P es w w'] assms by simp

lemma deliver_all_total_on:
  assumes "\<And>e w. e \<in> E \<Longrightarrow> P w \<Longrightarrow> \<exists>w'. step e w = Inr w' \<and> P w'"
    and "set es \<subseteq> E" and "P w"
  shows "\<exists>w'. deliver_all step es w = Inr w' \<and> P w'"
  using assms(2,3)
proof (induction es arbitrary: w)
  case (Cons e es)
  then obtain v where "step e w = Inr v" "P v" using assms(1) [of e w] by auto
  with Cons show ?case by simp
qed simp

definition bind_call :: "'a call \<Rightarrow> ('a \<Rightarrow> 'b call) \<Rightarrow> 'b call" where
  "bind_call c f = (case c of Returns x \<Rightarrow> f x | Blocks \<Rightarrow> Blocks | Crashes e \<Rightarrow> Crashes e)"

definition call_of_run :: "'a run \<Rightarrow> 'a call" where
  "call_of_run r = (case r of Inl e \<Rightarrow> Crashes e | Inr x \<Rightarrow> Returns x)"

lemma bind_call_simps [simp]:
  "bind_call (Returns x) g = g x"
  "bind_call Blocks g = Blocks"
  "bind_call (Crashes e) g = Crashes e"
  by (simp_all add: bind_call_def)

lemma call_of_run_simps [simp]:
  "call_of_run (Inl e) = Crashes e"
  "call_of_run (Inr x) = Returns x"
  by (simp_all add: call_of_run_def)

lemma bind_call_Returns_iff:
  "bind_call c f = Returns y \<longleftrightarrow> (\<exists>x. c = Returns x \<and> f x = Returns y)"
  by (cases c) simp_all

lemma map_call_Returns_iff:
  "map_call f c = Returns y \<longleftrightarrow> (\<exists>x. c = Returns x \<and> y = f x)"
  by (cases c) auto

lemma bind_call_cong [fundef_cong]:
  "c = c' \<Longrightarrow> (\<And>x. c' = Returns x \<Longrightarrow> f x = g x) \<Longrightarrow> bind_call c f = bind_call c' g"
  by (cases c') simp_all

lemma call_of_run_Returns_iff: "call_of_run r = Returns x \<longleftrightarrow> r = Inr x"
  by (cases r) simp_all

lemma map_call_Blocks_iff [simp]: "map_call f c = Blocks \<longleftrightarrow> c = Blocks"
  by (cases c) simp_all

lemma bind_call_Blocks_iff: "bind_call c f = Blocks \<longleftrightarrow> c = Blocks \<or> (\<exists>x. c = Returns x \<and> f x = Blocks)"
  by (cases c) simp_all

lemma call_of_run_Blocks_iff [simp]: "call_of_run r \<noteq> Blocks"
  by (cases r) simp_all

section \<open>Bytes of a machine integer\<close>

text \<open>
  The casts and shifts the code uses to lay a 16-bit or 32-bit value out in network byte order
  and to read it back. The operands of \<open><<\<close>, \<open>&\<close> and \<open>|\<close> on bytes are promoted to 32 bits.
\<close>

definition u16_hi :: "u16 \<Rightarrow> u8" where "u16_hi w = ucast (drop_bit 8 (w AND 0xFF00))"
definition u16_lo :: "u16 \<Rightarrow> u8" where "u16_lo w = ucast (w AND 0x00FF)"

definition u32_b3 :: "u32 \<Rightarrow> u8" where "u32_b3 w = ucast (drop_bit 24 (w AND 0xFF000000))"
definition u32_b2 :: "u32 \<Rightarrow> u8" where "u32_b2 w = ucast (drop_bit 16 (w AND 0x00FF0000))"
definition u32_b1 :: "u32 \<Rightarrow> u8" where "u32_b1 w = ucast (drop_bit 8 (w AND 0x0000FF00))"
definition u32_b0 :: "u32 \<Rightarrow> u8" where "u32_b0 w = ucast (w AND 0x000000FF)"

definition u16_join :: "u8 \<Rightarrow> u8 \<Rightarrow> u16" where
  "u16_join h l = ucast (push_bit 8 ((ucast h :: u32) AND 0xFF) OR ((ucast l :: u32) AND 0xFF))"

definition u16_addr :: "u8 \<Rightarrow> u8 \<Rightarrow> u16" where
  "u16_addr h l = ucast ((push_bit 8 (ucast h :: u32) AND 0xFF00) OR (ucast l :: u32))"

definition u32_join :: "u8 \<Rightarrow> u8 \<Rightarrow> u8 \<Rightarrow> u8 \<Rightarrow> u32" where
  "u32_join a b c d =
     (push_bit 24 (ucast a) AND 0xFF000000) OR (push_bit 16 (ucast b) AND 0x00FF0000) OR
     (push_bit 8 (ucast c) AND 0x0000FF00) OR (ucast d AND 0x000000FF)"

lemma byte_masks:
  "(0xFF :: 'a::len word) = mask 8"
  "(0xFF00 :: 'a::len word) = push_bit 8 (mask 8)"
  "(0xFF0000 :: 'a::len word) = push_bit 16 (mask 8)"
  "(0xFF000000 :: 'a::len word) = push_bit 24 (mask 8)"
  by (simp_all add: mask_eq_exp_minus_1 push_bit_eq_mult)

lemma bit_u16_parts:
  "bit (u16_hi w) n \<longleftrightarrow> n < 8 \<and> bit w (n + 8)"
  "bit (u16_lo w) n \<longleftrightarrow> n < 8 \<and> bit w n"
  unfolding u16_hi_def u16_lo_def byte_masks by (auto simp: bit_simps add.commute)

lemma bit_u32_parts:
  "bit (u32_b3 w) n \<longleftrightarrow> n < 8 \<and> bit w (n + 24)"
  "bit (u32_b2 w) n \<longleftrightarrow> n < 8 \<and> bit w (n + 16)"
  "bit (u32_b1 w) n \<longleftrightarrow> n < 8 \<and> bit w (n + 8)"
  "bit (u32_b0 w) n \<longleftrightarrow> n < 8 \<and> bit w n"
  unfolding u32_b3_def u32_b2_def u32_b1_def u32_b0_def byte_masks
  by (auto simp: bit_simps add.commute)

lemma bit_u8_less: "bit (x::u8) n \<Longrightarrow> n < 8"
  by (drule bit_imp_le_length) simp

lemma bit_u16_join:
  "bit (u16_join h l) n \<longleftrightarrow> n < 16 \<and> (if n < 8 then bit l n else bit h (n - 8))"
  unfolding u16_join_def byte_masks by (cases "n < 8") (auto simp: bit_simps dest: bit_u8_less)

lemma u16_addr_eq_join: "u16_addr h l = u16_join h l"
  unfolding u16_addr_def u16_join_def byte_masks
  by (rule bit_word_eqI) (auto simp: bit_simps dest: bit_u8_less)

lemma bit_u32_join:
  "bit (u32_join a b c d) n \<longleftrightarrow> n < 32 \<and>
     (if n < 8 then bit d n else if n < 16 then bit c (n - 8)
      else if n < 24 then bit b (n - 16) else bit a (n - 24))"
  unfolding u32_join_def byte_masks
  by (cases "n < 8"; cases "n < 16"; cases "n < 24") (auto simp: bit_simps dest: bit_u8_less)

lemma u16_join_parts [codec_simps, simp]: "u16_join (u16_hi w) (u16_lo w) = w"
  by (rule bit_word_eqI) (auto simp: bit_u16_join bit_u16_parts)

lemma u16_parts_join [codec_simps, simp]:
  "u16_hi (u16_join h l) = h" "u16_lo (u16_join h l) = l"
  by (rule bit_word_eqI, simp add: bit_u16_join bit_u16_parts)+

lemma u32_join_parts [codec_simps, simp]: "u32_join (u32_b3 w) (u32_b2 w) (u32_b1 w) (u32_b0 w) = w"
  by (rule bit_word_eqI) (auto simp: bit_u32_join bit_u32_parts)

lemma u32_parts_join [codec_simps, simp]:
  "u32_b3 (u32_join a b c d) = a" "u32_b2 (u32_join a b c d) = b"
  "u32_b1 (u32_join a b c d) = c" "u32_b0 (u32_join a b c d) = d"
  by (rule bit_word_eqI, simp add: bit_u32_join bit_u32_parts)+

section \<open>Lists\<close>

lemma list_12_split:
  "12 \<le> length xs \<Longrightarrow> \<exists>b0 b1 b2 b3 b4 b5 b6 b7 b8 b9 b10 b11 ys.
     xs = b0 # b1 # b2 # b3 # b4 # b5 # b6 # b7 # b8 # b9 # b10 # b11 # ys"
  by (auto simp: numeral_eq_Suc Suc_le_length_iff)

lemma list_8_split:
  "8 \<le> length xs \<Longrightarrow> \<exists>b0 b1 b2 b3 b4 b5 b6 b7 ys.
     xs = b0 # b1 # b2 # b3 # b4 # b5 # b6 # b7 # ys"
  by (auto simp: numeral_eq_Suc Suc_le_length_iff)

end
