(* ===== verification/Core_Result.thy ===== *)
theory Core_Result
  imports Prelude
begin

text \<open>
  The vocabulary types of \<open>lib/platform-core\<close>: \<open>core_type::Result\<close> (a \<open>std::variant\<close> of a
  value and an error), the checked accesses of \<open>core_type::Span\<close>, and the error codes with
  the three error domains that make them. A \<open>Result<void, E>\<close> is a result whose value is the
  unit.
\<close>

section \<open>Result\<close>

datatype ('t, 'e) Result = FromValue 't | FromError 'e

definition EmplaceValue :: "'t \<Rightarrow> ('t, 'e) Result \<Rightarrow> ('t, 'e) Result" where
  "EmplaceValue v r = FromValue v"

definition EmplaceError :: "'e \<Rightarrow> ('t, 'e) Result \<Rightarrow> ('t, 'e) Result" where
  "EmplaceError e r = FromError e"

definition HasValue :: "('t, 'e) Result \<Rightarrow> bool" where
  "HasValue r = (case r of FromValue v \<Rightarrow> True | FromError e \<Rightarrow> False)"

text \<open>
  \<open>std::get\<close> throws on the wrong alternative, and both accessors are \<open>noexcept\<close>.
\<close>

definition Value :: "('t, 'e) Result \<Rightarrow> 't run" where
  "Value r = (case r of FromValue v \<Rightarrow> Inr v | FromError e \<Rightarrow> Inl Uncaught_Exception)"

definition Error :: "('t, 'e) Result \<Rightarrow> 'e run" where
  "Error r = (case r of FromValue v \<Rightarrow> Inl Uncaught_Exception | FromError e \<Rightarrow> Inr e)"

definition Ok :: "('t, 'e) Result \<Rightarrow> 't option run" where
  "Ok r = (if HasValue r then bind_run (Value r) (\<lambda>v. Inr (Some v)) else Inr None)"

definition Err :: "('t, 'e) Result \<Rightarrow> 'e option run" where
  "Err r = (if \<not> HasValue r then bind_run (Error r) (\<lambda>e. Inr (Some e)) else Inr None)"

definition AndThen :: "('t, 'e) Result \<Rightarrow> ('t \<Rightarrow> ('u, 'e) Result) \<Rightarrow> ('u, 'e) Result run" where
  "AndThen r fn = (if HasValue r then bind_run (Value r) (\<lambda>v. Inr (fn v))
                   else bind_run (Error r) (\<lambda>e. Inr (FromError e)))"

definition MapError :: "('t, 'e) Result \<Rightarrow> ('e \<Rightarrow> 'f) \<Rightarrow> ('t, 'f) Result run" where
  "MapError r fn = (if HasValue r then bind_run (Value r) (\<lambda>v. Inr (FromValue v))
                    else bind_run (Error r) (\<lambda>e. Inr (FromError (fn e))))"

definition OrElse :: "('t, 'e) Result \<Rightarrow> ('e \<Rightarrow> 'e) \<Rightarrow> ('t, 'e) Result run" where
  "OrElse r fn = (if HasValue r then Inr r else bind_run (Error r) (\<lambda>e. Inr (FromError (fn e))))"

text \<open>
  The specialisation for \<open>void\<close>: its \<open>AndThen\<close> runs the callable for its effect on the
  state \<open>s\<close> and hands its own outcome on, whatever the callable returns.
\<close>

definition AndThen_void :: "(unit, 'e) Result \<Rightarrow> ('s \<Rightarrow> 's) \<Rightarrow> 's \<Rightarrow> 's \<times> (unit, 'e) Result" where
  "AndThen_void r fn s = ((if HasValue r then fn s else s), r)"

definition MapError_void :: "(unit, 'e) Result \<Rightarrow> ('e \<Rightarrow> 'f) \<Rightarrow> (unit, 'f) Result run" where
  "MapError_void r fn = (if HasValue r then Inr (FromValue ())
                         else bind_run (Error r) (\<lambda>e. Inr (FromError (fn e))))"

definition CheckError :: "(unit, 'e) Result \<Rightarrow> ('e \<Rightarrow> 'f) \<Rightarrow> (unit, 'f) Result run" where
  "CheckError r fn = (if HasValue r then Inr (FromValue ())
                      else bind_run (Error r) (\<lambda>e. Inr (FromError (fn e))))"

definition OrElse_void :: "(unit, 'e) Result \<Rightarrow> ('e \<Rightarrow> 'e) \<Rightarrow> (unit, 'e) Result run" where
  "OrElse_void r fn = (if HasValue r then Inr r else bind_run (Error r) (\<lambda>e. Inr (FromError (fn e))))"

lemma HasValue_simps [simp]:
  "HasValue (FromValue v)" "\<not> HasValue (FromError e)"
  "HasValue (EmplaceValue v r)" "\<not> HasValue (EmplaceError e r)"
  by (simp_all add: HasValue_def EmplaceValue_def EmplaceError_def)

lemma HasValue_iff: "HasValue r \<longleftrightarrow> (\<exists>v. r = FromValue v)"
  by (cases r) simp_all

lemmas result_accessors = Value_def Error_def Ok_def Err_def EmplaceValue_def EmplaceError_def

lemma AndThen_simps [simp]:
  "AndThen (FromValue v) fn = Inr (fn v)" "AndThen (FromError e) fn = Inr (FromError e)"
  by (simp_all add: AndThen_def result_accessors)

lemma MapError_simps [simp]:
  "MapError (FromValue v) g = Inr (FromValue v)" "MapError (FromError e) g = Inr (FromError (g e))"
  by (simp_all add: MapError_def result_accessors)

lemma OrElse_simps [simp]:
  "OrElse (FromValue v) h = Inr (FromValue v)" "OrElse (FromError e) h = Inr (FromError (h e))"
  by (simp_all add: OrElse_def result_accessors)

lemma void_simps [simp]:
  "AndThen_void (FromValue ()) fs s = (fs s, FromValue ())"
  "AndThen_void (FromError e) fs s = (s, FromError e)"
  "MapError_void (FromValue ()) g = Inr (FromValue ())"
  "MapError_void (FromError e) g = Inr (FromError (g e))"
  "OrElse_void (FromValue ()) h = Inr (FromValue ())"
  "OrElse_void (FromError e) h = Inr (FromError (h e))"
  "CheckError (FromValue ()) g = Inr (FromValue ())"
  "CheckError (FromError e) g = Inr (FromError (g e))"
  by (simp_all add: AndThen_void_def MapError_void_def OrElse_void_def CheckError_def result_accessors)

text \<open>
  No combinator ever reads the wrong alternative: the \<open>std::get\<close> inside them cannot throw.
\<close>

lemma combinators_never_fault:
  "\<exists>r'. AndThen r fn = Inr r'" "\<exists>r'. MapError r g = Inr r'" "\<exists>r'. OrElse r h = Inr r'"
  "\<exists>r'. Ok r = Inr r'" "\<exists>r'. Err r = Inr r'"
  by (cases r; simp add: result_accessors)+

section \<open>Span\<close>

text \<open>
  A span of dynamic extent over a buffer is the list of the bytes it covers. Every checked
  access that is out of range aborts the process.
\<close>

definition CheckIfExpectedOrAbort :: "bool \<Rightarrow> unit run" where
  "CheckIfExpectedOrAbort cond = (if \<not> cond then Inl Span_Abort else Inr ())"

definition span_at :: "'a list \<Rightarrow> nat \<Rightarrow> 'a run" where
  "span_at xs idx = bind_run (CheckIfExpectedOrAbort (idx < length xs)) (\<lambda>_. Inr (xs ! idx))"

definition span_front :: "'a list \<Rightarrow> 'a run" where
  "span_front xs = bind_run (CheckIfExpectedOrAbort (xs \<noteq> [])) (\<lambda>_. Inr (xs ! 0))"

definition span_back :: "'a list \<Rightarrow> 'a run" where
  "span_back xs = bind_run (CheckIfExpectedOrAbort (xs \<noteq> [])) (\<lambda>_. Inr (xs ! (length xs - 1)))"

definition span_first :: "'a list \<Rightarrow> nat \<Rightarrow> 'a list run" where
  "span_first xs n = bind_run (CheckIfExpectedOrAbort (n \<le> length xs)) (\<lambda>_. Inr (take n xs))"

definition span_last :: "'a list \<Rightarrow> nat \<Rightarrow> 'a list run" where
  "span_last xs n = bind_run (CheckIfExpectedOrAbort (n \<le> length xs)) (\<lambda>_. Inr (drop (length xs - n) xs))"

text \<open>The default count is \<open>dynamic_extent\<close>, here \<open>None\<close>: the rest of the span.\<close>

definition span_subspan :: "'a list \<Rightarrow> nat \<Rightarrow> nat option \<Rightarrow> 'a list run" where
  "span_subspan xs off cnt =
     bind_run (CheckIfExpectedOrAbort
                 (off \<le> length xs \<and> (case cnt of None \<Rightarrow> True | Some c \<Rightarrow> c \<le> length xs - off)))
       (\<lambda>_. Inr (case cnt of None \<Rightarrow> drop off xs | Some c \<Rightarrow> take c (drop off xs)))"

lemma CheckIfExpectedOrAbort_simps [simp]:
  "CheckIfExpectedOrAbort True = Inr ()" "CheckIfExpectedOrAbort False = Inl Span_Abort"
  by (simp_all add: CheckIfExpectedOrAbort_def)

lemma span_at_Inr_iff: "span_at xs i = Inr x \<longleftrightarrow> i < length xs \<and> xs ! i = x"
  by (cases "i < length xs") (auto simp: span_at_def)

lemma span_at_nth [simp]: "i < length xs \<Longrightarrow> span_at xs i = Inr (xs ! i)"
  by (simp add: span_at_def)

lemma span_at_abort [simp]: "length xs \<le> i \<Longrightarrow> span_at xs i = Inl Span_Abort"
  by (simp add: span_at_def not_less)

lemma span_first_last:
  assumes "n \<le> length xs"
  shows "\<exists>a b. span_first xs n = Inr a \<and> span_last xs (length xs - n) = Inr b \<and> xs = a @ b"
  using assms by (auto simp: span_first_def span_last_def)

lemma span_subspan_first_drop:
  assumes "off \<le> length xs" and "c \<le> length xs - off"
  shows "span_subspan xs off (Some c) = bind_run (span_subspan xs off None) (\<lambda>ys. span_first ys c)"
  using assms by (simp add: span_subspan_def span_first_def)

section \<open>Vectors\<close>

text \<open>\<open>std::vector::operator[]\<close> is unchecked: outside the vector the behaviour is undefined.\<close>

definition vector_at :: "'a list \<Rightarrow> nat \<Rightarrow> 'a run" where
  "vector_at xs i = (if i < length xs then Inr (xs ! i) else Inl Vector_Out_Of_Bounds)"

text \<open>A loop over the indices \<open>a\<close> to \<open>b\<close> of a vector: every element, or undefined behaviour.\<close>

lemma map_run_vector_at:
  assumes "b \<le> length xs"
  shows "map_run (\<lambda>i. bind_run (vector_at xs i) (\<lambda>x. Inr (f x))) [a..<b] = Inr (map f (take (b - a) (drop a xs)))"
proof -
  have "map_run (\<lambda>i. bind_run (vector_at xs i) (\<lambda>x. Inr (f x))) [a..<b] = Inr (map (\<lambda>i. f (xs ! i)) [a..<b])"
    using assms by (intro map_run_Inr) (simp add: vector_at_def)
  also have "map (\<lambda>i. f (xs ! i)) [a..<b] = map f (take (b - a) (drop a xs))"
    using assms by (intro nth_equalityI) auto
  finally show ?thesis .
qed

lemma map_run_vector_at_fault:
  "a < b \<Longrightarrow> length xs < b \<Longrightarrow>
   map_run (\<lambda>i. bind_run (vector_at xs i) (\<lambda>x. Inr (f x))) [a..<b] = Inl Vector_Out_Of_Bounds"
proof (induction "b - a" arbitrary: a)
  case (Suc n)
  then have u: "[a..<b] = a # [Suc a..<b]" by (simp add: upt_rec)
  show ?case
  proof (cases "Suc a < b")
    case True
    with Suc have "map_run (\<lambda>i. bind_run (vector_at xs i) (\<lambda>x. Inr (f x))) [Suc a..<b] = Inl Vector_Out_Of_Bounds"
      by simp
    then show ?thesis by (simp add: u vector_at_def)
  next
    case False
    with Suc.prems have "b = Suc a" by simp
    with Suc.prems show ?thesis by (simp add: vector_at_def)
  qed
qed simp

text \<open>\<open>std::vector::resize\<close> keeps a prefix, or appends zero-initialised bytes.\<close>

definition vector_resize :: "nat \<Rightarrow> bytes \<Rightarrow> bytes" where
  "vector_resize n xs = take n xs @ replicate (n - length xs) 0"

lemma length_vector_resize [simp]: "length (vector_resize n xs) = n"
  by (simp add: vector_resize_def)

text \<open>\<open>std::copy(src.begin(), src.end(), dst.begin())\<close> overwrites the head of \<open>dst\<close>.\<close>

definition copy_to :: "bytes \<Rightarrow> bytes \<Rightarrow> bytes run" where
  "copy_to src dst =
     (if length src \<le> length dst then Inr (src @ drop (length src) dst) else Inl Vector_Out_Of_Bounds)"

lemma copy_to_same_length [simp]: "length src = length dst \<Longrightarrow> copy_to src dst = Inr src"
  by (simp add: copy_to_def)

section \<open>Error codes and error domains\<close>

datatype ErrorDomain = DmErrorDomain | DoipErrorDomain | BoostSupportErrorDomain

record ErrorCode =
  code_value :: int
  domain :: ErrorDomain
  support_data :: u8

datatype DmErrorErrc = dm_kInitializationFailed | dm_kDeInitializationFailed

datatype DoipErrorErrc =
  doip_kInitializationFailed | doip_kDeInitializationFailed | doip_kSocketError | doip_kGenericError

datatype BoostSupportErrorErrc =
  bs_kInitializationFailed | bs_kDeInitializationFailed | bs_kSocketError | bs_kGenericError

definition DmErrorErrc_code :: "DmErrorErrc \<Rightarrow> int" where
  "DmErrorErrc_code c = (case c of dm_kInitializationFailed \<Rightarrow> 0 | dm_kDeInitializationFailed \<Rightarrow> 1)"

definition DoipErrorErrc_code :: "DoipErrorErrc \<Rightarrow> int" where
  "DoipErrorErrc_code c = (case c of doip_kInitializationFailed \<Rightarrow> 0 | doip_kDeInitializationFailed \<Rightarrow> 1
     | doip_kSocketError \<Rightarrow> 2 | doip_kGenericError \<Rightarrow> 3)"

definition BoostSupportErrorErrc_code :: "BoostSupportErrorErrc \<Rightarrow> int" where
  "BoostSupportErrorErrc_code c = (case c of bs_kInitializationFailed \<Rightarrow> 0 | bs_kDeInitializationFailed \<Rightarrow> 1
     | bs_kSocketError \<Rightarrow> 2 | bs_kGenericError \<Rightarrow> 3)"

text \<open>
  The diagnostic manager's and the DoIP client's factories name the enum parameter but do not
  use it: the code value is built from the support data.
\<close>

definition dm_MakeErrorCode :: "DmErrorErrc \<Rightarrow> u8 \<Rightarrow> ErrorCode" where
  "dm_MakeErrorCode c data = \<lparr>code_value = uint data, domain = DmErrorDomain, support_data = 0\<rparr>"

definition doip_MakeErrorCode :: "DoipErrorErrc \<Rightarrow> u8 \<Rightarrow> ErrorCode" where
  "doip_MakeErrorCode c data = \<lparr>code_value = uint data, domain = DoipErrorDomain, support_data = 0\<rparr>"

definition bs_MakeErrorCode :: "BoostSupportErrorErrc \<Rightarrow> u8 \<Rightarrow> ErrorCode" where
  "bs_MakeErrorCode c data =
     \<lparr>code_value = BoostSupportErrorErrc_code c, domain = BoostSupportErrorDomain, support_data = data\<rparr>"

definition dm_ConvertErrorCodeToString :: "int \<Rightarrow> string" where
  "dm_ConvertErrorCodeToString e =
     (if e = 0 then ''InitializationFailed'' else if e = 1 then ''DeInitializationFailed'' else '''')"

definition doip_ConvertErrorCodeToString :: "int \<Rightarrow> string" where
  "doip_ConvertErrorCodeToString e =
     (if e = 0 then ''InitializationFailed'' else if e = 1 then ''DeInitializationFailed''
      else if e = 2 then ''SocketError'' else if e = 3 then ''GenericError'' else '''')"

definition bs_ConvertErrorCodeToString :: "int \<Rightarrow> string" where
  "bs_ConvertErrorCodeToString e =
     (if e = 0 then ''InitializationFailed'' else if e = 1 then ''DeInitializationFailed''
      else if e = 2 then ''SocketError'' else if e = 3 then ''GenericError'' else '''')"

definition ErrorCode_Message :: "ErrorCode \<Rightarrow> string" where
  "ErrorCode_Message c =
     (case domain c of DmErrorDomain \<Rightarrow> dm_ConvertErrorCodeToString (code_value c)
      | DoipErrorDomain \<Rightarrow> doip_ConvertErrorCodeToString (code_value c)
      | BoostSupportErrorDomain \<Rightarrow> bs_ConvertErrorCodeToString (code_value c))"

lemma bs_MakeErrorCode_inj:
  "bs_MakeErrorCode c data = bs_MakeErrorCode c' data' \<longleftrightarrow> c = c' \<and> data = data'"
  by (cases c; cases c') (simp_all add: bs_MakeErrorCode_def BoostSupportErrorErrc_code_def)

end
