(* ===== verification/Span_Views.thy ===== *)
theory Span_Views
  imports Core_Result
begin

text \<open>
  \<open>core_type::Span\<close> (\<open>platform-core/core/include/span.h\<close>) as the code has it: a pointer and a size over an
  array that somebody else owns. The operations refine those on lists in \<open>Core_Result\<close>, which the rest of the
  development uses.
\<close>

section \<open>Pointers\<close>

text \<open>\<open>std::size_t\<close> has 64 bits. A pointer is null or points at an index of one array.\<close>

type_synonym size_t = "64 word"
type_synonym pointer = "nat option"

definition pointer_plus :: "pointer \<Rightarrow> size_t \<Rightarrow> pointer" where
  "pointer_plus p n = map_option (\<lambda>i. i + unat n) p"

definition deref :: "'a list \<Rightarrow> pointer \<Rightarrow> 'a run" where
  "deref arr p =
     (case p of None \<Rightarrow> Inl Null_Dereference
      | Some i \<Rightarrow> if i < length arr then Inr (arr ! i) else Inl Vector_Out_Of_Bounds)"

definition assign_through :: "pointer \<Rightarrow> 'a \<Rightarrow> 'a list \<Rightarrow> 'a list run" where
  "assign_through p x arr =
     (case p of None \<Rightarrow> Inl Null_Dereference
      | Some i \<Rightarrow> if i < length arr then Inr (arr[i := x]) else Inl Vector_Out_Of_Bounds)"

section \<open>Construction\<close>

definition dynamic_extent :: size_t where
  "dynamic_extent = - 1"

record span_view =
  span_extent :: size_t
  span_ptr :: pointer
  span_size :: size_t

text \<open>A storage of static extent ignores the size it is given.\<close>

definition span_storage :: "size_t \<Rightarrow> pointer \<Rightarrow> size_t \<Rightarrow> span_view" where
  "span_storage ext p n =
     \<lparr>span_extent = ext, span_ptr = p, span_size = (if ext = dynamic_extent then n else ext)\<rparr>"

text \<open>The default constructor exists for the dynamic and the empty extent only.\<close>

definition empty_span :: "size_t \<Rightarrow> span_view" where
  "empty_span ext = \<lparr>span_extent = ext, span_ptr = None, span_size = (if ext = dynamic_extent then 0 else ext)\<rparr>"

definition new_Span :: "size_t \<Rightarrow> pointer \<Rightarrow> size_t \<Rightarrow> span_view run" where
  "new_Span ext p count =
     bind_run (CheckIfExpectedOrAbort (ext = dynamic_extent \<or> count = ext)) (\<lambda>_. Inr (span_storage ext p count))"

text \<open>A built-in or standard array has its length as the extent, or the extent is dynamic.\<close>

definition span_of_array :: "size_t \<Rightarrow> 'a list \<Rightarrow> span_view" where
  "span_of_array ext arr = span_storage ext (Some 0) (word_of_nat (length arr))"

definition span_of_container :: "'a list \<Rightarrow> span_view" where
  "span_of_container cont = span_storage dynamic_extent (Some 0) (word_of_nat (length cont))"

section \<open>Observers\<close>

definition view_size :: "span_view \<Rightarrow> size_t" where
  "view_size v = span_size v"

definition view_size_bytes :: "size_t \<Rightarrow> span_view \<Rightarrow> size_t" where
  "view_size_bytes sizeof v = view_size v * sizeof"

definition view_empty :: "span_view \<Rightarrow> bool" where
  "view_empty v \<longleftrightarrow> view_size v = 0"

definition view_data :: "span_view \<Rightarrow> pointer" where
  "view_data v = span_ptr v"

section \<open>References to elements\<close>

text \<open>The operations return a reference, here the pointer.\<close>

definition view_at :: "span_view \<Rightarrow> size_t \<Rightarrow> pointer run" where
  "view_at v idx =
     bind_run (CheckIfExpectedOrAbort (idx < view_size v)) (\<lambda>_. Inr (pointer_plus (view_data v) idx))"

definition view_front :: "span_view \<Rightarrow> pointer run" where
  "view_front v = bind_run (CheckIfExpectedOrAbort (\<not> view_empty v)) (\<lambda>_. Inr (view_data v))"

definition view_back :: "span_view \<Rightarrow> pointer run" where
  "view_back v =
     bind_run (CheckIfExpectedOrAbort (\<not> view_empty v)) (\<lambda>_. Inr (pointer_plus (view_data v) (view_size v - 1)))"

section \<open>Parts of a span\<close>

text \<open>
  \<open>Span\<close> is the class itself inside the class, so \<open>first\<close> and \<open>last\<close> construct a span of the extent they are
  called on. Only for the dynamic extent is this also the type they return; for others they do not compile.
\<close>

definition view_first :: "span_view \<Rightarrow> size_t \<Rightarrow> span_view run" where
  "view_first v count =
     bind_run (CheckIfExpectedOrAbort (count \<le> view_size v)) (\<lambda>_. new_Span (span_extent v) (view_data v) count)"

definition view_last :: "span_view \<Rightarrow> size_t \<Rightarrow> span_view run" where
  "view_last v count =
     bind_run (CheckIfExpectedOrAbort (count \<le> view_size v)) (\<lambda>_.
       new_Span (span_extent v) (pointer_plus (view_data v) (view_size v - count)) count)"

definition view_subspan :: "span_view \<Rightarrow> size_t \<Rightarrow> size_t \<Rightarrow> span_view run" where
  "view_subspan v offset count =
     bind_run (CheckIfExpectedOrAbort
         (offset \<le> view_size v \<and> (count = dynamic_extent \<or> count \<le> view_size v - offset))) (\<lambda>_.
       new_Span dynamic_extent (pointer_plus (view_data v) offset)
         (if count = dynamic_extent then view_size v - offset else count))"

section \<open>Iterators\<close>

definition view_begin :: "span_view \<Rightarrow> pointer" where
  "view_begin v = view_data v"

definition view_end :: "span_view \<Rightarrow> pointer" where
  "view_end v = pointer_plus (view_data v) (view_size v)"

text \<open>A reverse iterator holds the position after the one it reads.\<close>

datatype reverse_iterator = Reverse pointer

definition view_rbegin :: "span_view \<Rightarrow> reverse_iterator" where
  "view_rbegin v = Reverse (view_end v)"

definition view_rend :: "span_view \<Rightarrow> reverse_iterator" where
  "view_rend v = Reverse (view_begin v)"

text \<open>What a loop from one iterator to another reads.\<close>

definition walk :: "'a list \<Rightarrow> pointer \<Rightarrow> pointer \<Rightarrow> 'a list" where
  "walk arr b e =
     (case (b, e) of (Some i, Some j) \<Rightarrow> map (\<lambda>k. arr ! k) [i..<j] | _ \<Rightarrow> [])"

fun walk_back :: "'a list \<Rightarrow> reverse_iterator \<Rightarrow> reverse_iterator \<Rightarrow> 'a list" where
  "walk_back arr (Reverse (Some j)) (Reverse (Some i)) = map (\<lambda>k. arr ! (j - Suc k)) [0..<j - i]"
| "walk_back arr r r' = []"

text \<open>A range-based loop over the span, each element read through its pointer.\<close>

definition view_elements :: "'a list \<Rightarrow> span_view \<Rightarrow> 'a list run" where
  "view_elements arr v =
     map_run (\<lambda>k. deref arr (map_option (\<lambda>i. i + k) (view_begin v))) [0..<unat (view_size v)]"

section \<open>Refinement\<close>

text \<open>A span is valid for an array it lies within; it then stands for a list.\<close>

definition view_ok :: "'a list \<Rightarrow> span_view \<Rightarrow> bool" where
  "view_ok arr v \<longleftrightarrow>
     (case span_ptr v of None \<Rightarrow> span_size v = 0 | Some i \<Rightarrow> i + unat (span_size v) \<le> length arr) \<and>
     (span_extent v = dynamic_extent \<or> span_size v = span_extent v)"

definition view_list :: "'a list \<Rightarrow> span_view \<Rightarrow> 'a list" where
  "view_list arr v = (case span_ptr v of None \<Rightarrow> [] | Some i \<Rightarrow> take (unat (span_size v)) (drop i arr))"

lemma view_ok_cases:
  assumes "view_ok arr v"
  obtains "span_ptr v = None" "span_size v = 0" "view_list arr v = []"
  | i where "span_ptr v = Some i" "i + unat (span_size v) \<le> length arr"
      "view_list arr v = take (unat (span_size v)) (drop i arr)"
  using assms by (auto simp: view_ok_def view_list_def split: option.splits)

lemma length_view_list: "view_ok arr v \<Longrightarrow> length (view_list arr v) = unat (view_size v)"
  by (auto simp: view_size_def elim!: view_ok_cases)

lemma view_empty_iff: "view_ok arr v \<Longrightarrow> view_empty v \<longleftrightarrow> view_list arr v = []"
  using length_view_list [of arr v] unat_gt_0 [of "view_size v"] by (auto simp: view_empty_def)

lemma view_of_container:
  "length cont < 2 ^ 64 \<Longrightarrow> view_ok cont (span_of_container cont) \<and> view_list cont (span_of_container cont) = cont"
  by (simp add: view_ok_def view_list_def span_of_container_def span_storage_def unat_of_nat)

text \<open>Constructing a span of dynamic extent from a valid part of the array.\<close>

lemma new_Span_part:
  assumes "view_ok arr v" and "unat off + unat n \<le> unat (view_size v)"
  shows "\<exists>v'. new_Span dynamic_extent (pointer_plus (view_data v) off) n = Inr v' \<and> view_ok arr v' \<and>
    span_extent v' = dynamic_extent \<and> view_list arr v' = take (unat n) (drop (unat off) (view_list arr v))"
  using assms(1)
proof (cases rule: view_ok_cases)
  case 1
  with assms(2) show ?thesis
    by (simp add: new_Span_def span_storage_def pointer_plus_def view_data_def view_size_def view_ok_def
        unat_eq_zero) (simp add: view_list_def)
next
  case (2 i)
  with assms(2) show ?thesis
    by (auto simp: new_Span_def span_storage_def pointer_plus_def view_data_def view_size_def view_ok_def view_list_def
        drop_take add.commute min_def)
qed

lemma pointer_plus_0 [simp]: "pointer_plus p 0 = p"
  by (cases p) (simp_all add: pointer_plus_def)

lemma deref_part:
  assumes "view_ok arr v" and "i < view_size v"
  shows "deref arr (pointer_plus (view_data v) i) = Inr (view_list arr v ! unat i)"
  using assms by (auto simp: deref_def pointer_plus_def view_data_def view_size_def word_less_nat_alt elim!: view_ok_cases)

lemma view_at_refines:
  "view_ok arr v \<Longrightarrow> bind_run (view_at v i) (deref arr) = span_at (view_list arr v) (unat i)"
  by (cases "i < view_size v") (simp_all add: view_at_def deref_part length_view_list word_less_nat_alt)

lemma view_front_refines:
  assumes "view_ok arr v"
  shows "bind_run (view_front v) (deref arr) = span_front (view_list arr v)"
proof (cases "view_empty v")
  case False
  then have "0 < view_size v" by (simp add: view_empty_def word_greater_zero_iff)
  with deref_part [OF assms, of 0] view_empty_iff [OF assms] False show ?thesis
    by (simp add: view_front_def span_front_def)
qed (use view_empty_iff [OF assms] in \<open>simp add: view_front_def span_front_def\<close>)

lemma view_back_refines:
  assumes "view_ok arr v"
  shows "bind_run (view_back v) (deref arr) = span_back (view_list arr v)"
proof (cases "view_empty v")
  case False
  then have n: "0 < view_size v" by (simp add: view_empty_def word_greater_zero_iff)
  then have "view_size v - 1 < view_size v" "unat (view_size v - 1) = unat (view_size v) - 1"
    by (simp_all add: word_less_nat_alt unat_minus_one word_greater_zero_iff unat_gt_0)
  with deref_part [OF assms, of "view_size v - 1"] view_empty_iff [OF assms] False show ?thesis
    by (simp add: view_back_def span_back_def length_view_list [OF assms])
qed (use view_empty_iff [OF assms] in \<open>simp add: view_back_def span_back_def\<close>)

text \<open>\<open>part_refines\<close>: a part of the span stands for the part of the list, and is valid again.\<close>

definition part_refines :: "'a list \<Rightarrow> span_view run \<Rightarrow> 'a list run \<Rightarrow> bool" where
  "part_refines arr r s \<longleftrightarrow>
     bind_run r (\<lambda>v. Inr (view_list arr v)) = s \<and>
     (case r of Inr v \<Rightarrow> view_ok arr v \<and> span_extent v = dynamic_extent | Inl e \<Rightarrow> True)"

lemma view_first_refines:
  assumes "view_ok arr v" and "span_extent v = dynamic_extent"
  shows "part_refines arr (view_first v n) (span_first (view_list arr v) (unat n))"
proof (cases "n \<le> view_size v")
  case True
  with new_Span_part [OF assms(1), of 0 n] show ?thesis
    by (auto simp: part_refines_def view_first_def span_first_def assms(2) length_view_list [OF assms(1)] word_le_nat_alt)
qed (simp add: part_refines_def view_first_def span_first_def length_view_list [OF assms(1)] word_le_nat_alt)

lemma view_last_refines:
  assumes "view_ok arr v" and "span_extent v = dynamic_extent"
  shows "part_refines arr (view_last v n) (span_last (view_list arr v) (unat n))"
proof (cases "n \<le> view_size v")
  case True
  then have "unat (view_size v - n) = unat (view_size v) - unat n" "unat n \<le> unat (view_size v)"
    by (simp_all add: unat_sub word_le_nat_alt)
  with True new_Span_part [OF assms(1), of "view_size v - n" n] length_view_list [OF assms(1)] show ?thesis
    by (auto simp: part_refines_def view_last_def span_last_def assms(2))
qed (simp add: part_refines_def view_last_def span_last_def length_view_list [OF assms(1)] word_le_nat_alt)

lemma view_subspan_refines:
  assumes "view_ok arr v"
  shows "part_refines arr (view_subspan v off count)
    (span_subspan (view_list arr v) (unat off) (if count = dynamic_extent then None else Some (unat count)))"
proof (cases "off \<le> view_size v")
  case True
  then have sub: "unat (view_size v - off) = unat (view_size v) - unat off" "unat off \<le> unat (view_size v)"
    by (simp_all add: unat_sub word_le_nat_alt)
  show ?thesis
  proof (cases "count = dynamic_extent")
    case c: True
    show ?thesis
      using new_Span_part [OF assms, of off "view_size v - off"] sub True length_view_list [OF assms]
      by (auto simp: part_refines_def view_subspan_def span_subspan_def c)
  next
    case c: False
    show ?thesis
    proof (cases "count \<le> view_size v - off")
      case n: True
      with sub have "unat off + unat count \<le> unat (view_size v)" by (simp add: word_le_nat_alt)
      with new_Span_part [OF assms, of off count] n sub True c length_view_list [OF assms] show ?thesis
        by (auto simp: part_refines_def view_subspan_def span_subspan_def word_le_nat_alt)
    next
      case n: False
      with sub True c length_view_list [OF assms] show ?thesis
        by (simp add: part_refines_def view_subspan_def span_subspan_def word_le_nat_alt)
    qed
  qed
qed (simp add: part_refines_def view_subspan_def span_subspan_def length_view_list [OF assms] word_le_nat_alt)

lemma walk_refines:
  assumes "view_ok arr v"
  shows "walk arr (view_begin v) (view_end v) = view_list arr v \<and>
    walk_back arr (view_rbegin v) (view_rend v) = rev (view_list arr v)"
  using assms
proof (cases rule: view_ok_cases)
  case (2 i)
  note d = view_begin_def view_end_def view_rbegin_def view_rend_def view_data_def pointer_plus_def view_size_def
  have "walk arr (view_begin v) (view_end v) = view_list arr v"
    by (rule nth_equalityI) (use 2 in \<open>auto simp: d walk_def\<close>)
  moreover have "walk_back arr (view_rbegin v) (view_rend v) = rev (view_list arr v)"
    by (rule nth_equalityI) (use 2 in \<open>auto simp: d rev_nth\<close>)
  ultimately show ?thesis ..
qed (simp add: walk_def view_begin_def view_end_def view_rbegin_def view_rend_def view_data_def pointer_plus_def)

lemma view_elements_refines:
  assumes "view_ok arr v"
  shows "view_elements arr v = Inr (view_list arr v)"
proof -
  have "map_run (\<lambda>k. deref arr (map_option (\<lambda>i. i + k) (view_begin v))) [0..<unat (view_size v)] =
    Inr (map (\<lambda>k. view_list arr v ! k) [0..<unat (view_size v)])"
    by (rule map_run_Inr) (use assms in \<open>auto simp: deref_def view_begin_def view_data_def view_size_def elim!: view_ok_cases\<close>)
  also have "map (\<lambda>k. view_list arr v ! k) [0..<unat (view_size v)] = view_list arr v"
    using map_nth [of "view_list arr v"] by (simp add: length_view_list [OF assms])
  finally show ?thesis by (simp add: view_elements_def)
qed

text \<open>Writing through a reference updates the list, and no element outside the span.\<close>

lemma write_refines:
  assumes "view_ok arr v" and "i < view_size v"
  shows "\<exists>arr'. bind_run (view_at v i) (\<lambda>p. assign_through p x arr) = Inr arr' \<and> length arr' = length arr \<and>
    view_list arr' v = (view_list arr v)[unat i := x]"
  using assms
  by (auto simp: view_at_def assign_through_def pointer_plus_def view_data_def view_size_def word_less_nat_alt view_list_def
      drop_update_swap take_update_swap elim!: view_ok_cases)

text \<open>C40: A span implements the list of the elements it covers. For a valid span of dynamic extent, indexing,
  the first and the last element, the first and the last elements, and a subspan with an offset and a count,
  which is the rest of the span if it is the largest number, are the operations on that list; they abort in
  the same cases, all arithmetic being on 64 bits. The parts are valid spans again, and the iterators
  run over the list, forwards and backwards.\<close>

theorem span_refines_list:
  assumes "view_ok arr v" and "span_extent v = dynamic_extent"
  shows "bind_run (view_at v i) (deref arr) = span_at (view_list arr v) (unat i) \<and>
    bind_run (view_front v) (deref arr) = span_front (view_list arr v) \<and>
    bind_run (view_back v) (deref arr) = span_back (view_list arr v) \<and>
    part_refines arr (view_first v n) (span_first (view_list arr v) (unat n)) \<and>
    part_refines arr (view_last v n) (span_last (view_list arr v) (unat n)) \<and>
    part_refines arr (view_subspan v off count)
      (span_subspan (view_list arr v) (unat off) (if count = dynamic_extent then None else Some (unat count))) \<and>
    walk arr (view_begin v) (view_end v) = view_list arr v \<and>
    walk_back arr (view_rbegin v) (view_rend v) = rev (view_list arr v)"
  using view_at_refines [OF assms(1)] view_front_refines [OF assms(1)] view_back_refines [OF assms(1)]
    view_first_refines [OF assms] view_last_refines [OF assms] view_subspan_refines [OF assms(1)]
    walk_refines [OF assms(1)]
  by blast

theorem span_refines_list_witness:
  "bind_run (view_subspan (span_of_container [0x7F, 0x22, 0x78 :: u8]) 1 dynamic_extent)
     (\<lambda>v. Inr (view_list [0x7F, 0x22, 0x78 :: u8] v)) = Inr [0x22, 0x78] \<and>
   bind_run (view_at (span_of_container [0x7F, 0x22, 0x78 :: u8]) 3) (deref [0x7F, 0x22, 0x78 :: u8]) = Inl Span_Abort"
proof -
  let ?arr = "[0x7F, 0x22, 0x78 :: u8]"
  have v: "view_ok ?arr (span_of_container ?arr)" "view_list ?arr (span_of_container ?arr) = ?arr"
    using view_of_container [of ?arr] by simp_all
  have "span_extent (span_of_container ?arr) = dynamic_extent" by (simp add: span_of_container_def span_storage_def)
  from span_refines_list [OF v(1) this, of 3 0 1 dynamic_extent] v(2) show ?thesis
    by (simp add: part_refines_def span_subspan_def)
qed

end
