(* ===== verification/Doip_Message.thy ===== *)
theory Doip_Message
  imports Core_Result
begin

text \<open>
  The DoIP message layer: the constants of \<open>common/common_doip_types.h\<close>, the generic header
  every request starts with, and \<open>DoipMessage\<close> (\<open>common/doip_message.cpp\<close>), the parser every
  received frame goes through before anything else looks at it.
\<close>

named_theorems doip_consts \<open>the protocol constants\<close>

section \<open>Constants\<close>

definition kDoipPort :: u16 where [doip_consts]: "kDoipPort = 13400"
definition kUdpChannelLength :: u32 where [doip_consts]: "kUdpChannelLength = 41"
definition kTcpChannelLength :: u32 where [doip_consts]: "kTcpChannelLength = 4096"
definition kDoipheadrSize :: nat where [doip_consts]: "kDoipheadrSize = 8"
definition kDoip_ProtocolVersion :: u8 where [doip_consts]: "kDoip_ProtocolVersion = 0x3"
definition kDoip_ProtocolVersion_Def :: u8 where [doip_consts]: "kDoip_ProtocolVersion_Def = 0xFF"
definition kDoip_Protocol_MaxPayload :: u32 where [doip_consts]: "kDoip_Protocol_MaxPayload = 0xFFFFFFFF"

definition kDoip_VehicleIdentification_ReqType :: u16 where
  [doip_consts]: "kDoip_VehicleIdentification_ReqType = 0x0001"
definition kDoip_VehicleIdentificationEID_ReqType :: u16 where
  [doip_consts]: "kDoip_VehicleIdentificationEID_ReqType = 0x0002"
definition kDoip_VehicleIdentificationVIN_ReqType :: u16 where
  [doip_consts]: "kDoip_VehicleIdentificationVIN_ReqType = 0x0003"
definition kDoip_VehicleAnnouncement_ResType :: u16 where
  [doip_consts]: "kDoip_VehicleAnnouncement_ResType = 0x0004"
definition kDoip_VehicleIdentification_ReqLen :: u32 where
  [doip_consts]: "kDoip_VehicleIdentification_ReqLen = 0"
definition kDoip_VehicleIdentificationEID_ReqLen :: u32 where
  [doip_consts]: "kDoip_VehicleIdentificationEID_ReqLen = 6"
definition kDoip_VehicleIdentificationVIN_ReqLen :: u32 where
  [doip_consts]: "kDoip_VehicleIdentificationVIN_ReqLen = 17"
definition kDoip_VehicleAnnouncement_ResMaxLen :: u32 where
  [doip_consts]: "kDoip_VehicleAnnouncement_ResMaxLen = 33"
definition kDoIPCtrl :: nat where [doip_consts]: "kDoIPCtrl = 2000"

section \<open>Generic header\<close>

text \<open>
  The bytes \<open>CreateDoipGenericHeader\<close> appends, in order. The complement of the version is an
  \<open>int\<close> that \<open>emplace_back\<close> narrows to a byte.
\<close>

definition CreateDoipGenericHeader :: "u16 \<Rightarrow> u32 \<Rightarrow> bytes" where
  "CreateDoipGenericHeader payload_type payload_len =
     [kDoip_ProtocolVersion,
      NOT kDoip_ProtocolVersion,
      u16_hi payload_type, u16_lo payload_type,
      u32_b3 payload_len, u32_b2 payload_len, u32_b1 payload_len, u32_b0 payload_len]"

lemma length_header [simp]: "length (CreateDoipGenericHeader ty len) = kDoipheadrSize"
  by (simp add: CreateDoipGenericHeader_def doip_consts)

section \<open>The received message\<close>

datatype MessageType = kUdp | kTcp

record DoipMessage =
  host_ip_address :: string
  host_port_number :: u16
  protocol_version :: u8
  protocol_version_inv :: u8
  server_address :: u16
  client_address :: u16
  payload_type :: u16
  payload_length :: u32
  payload :: bytes

definition GetDoIPPayloadType :: "bytes \<Rightarrow> u16 run" where
  "GetDoIPPayloadType p =
     bind_run (span_at p 2) (\<lambda>b2. bind_run (span_at p 3) (\<lambda>b3. Inr (u16_join b2 b3)))"

definition GetDoIPPayloadLength :: "bytes \<Rightarrow> u32 run" where
  "GetDoIPPayloadLength p =
     bind_run (span_at p 4) (\<lambda>b4. bind_run (span_at p 5) (\<lambda>b5.
     bind_run (span_at p 6) (\<lambda>b6. bind_run (span_at p 7) (\<lambda>b7. Inr (u32_join b4 b5 b6 b7)))))"

definition ConvertToAddr :: "bytes \<Rightarrow> u16 run" where
  "ConvertToAddr p =
     bind_run (span_at p 0) (\<lambda>b0. bind_run (span_at p 1) (\<lambda>b1. Inr (u16_addr b0 b1)))"

text \<open>
  \<open>Span{&p[i], n}\<close>: the address of the element goes through the checked \<open>operator[]\<close>, so
  building a sub-span at the end of the buffer aborts, even an empty one. The span that is built
  covers at most what is left of the buffer.
\<close>

definition span_from :: "bytes \<Rightarrow> nat \<Rightarrow> nat \<Rightarrow> bytes run" where
  "span_from p i n = bind_run (span_at p i) (\<lambda>_. Inr (take n (drop i p)))"

definition new_DoipMessage :: "MessageType \<Rightarrow> string \<Rightarrow> u16 \<Rightarrow> bytes \<Rightarrow> DoipMessage run" where
  "new_DoipMessage message_type ip port p =
     bind_run (span_at p 0) (\<lambda>version.
     bind_run (span_at p 1) (\<lambda>version_inv.
     bind_run (GetDoIPPayloadType p) (\<lambda>ty.
     bind_run (GetDoIPPayloadLength p) (\<lambda>len.
     bind_run
       (if message_type = kTcp then span_from p (8 + 4) (length p - (8 + 4))
        else span_from p 8 (length p - 8)) (\<lambda>rest.
     bind_run
       (if message_type = kTcp then
          bind_run (bind_run (span_from p 8 2) ConvertToAddr) (\<lambda>client.
          bind_run (bind_run (span_from p (8 + 2) 2) ConvertToAddr) (\<lambda>server.
          Inr (client, server)))
        else Inr (0, 0)) (\<lambda>(client, server).
     Inr \<lparr>host_ip_address = ip, host_port_number = port,
          protocol_version = version, protocol_version_inv = version_inv,
          server_address = server, client_address = client,
          payload_type = ty, payload_length = len, payload = rest\<rparr>))))))"

subsection \<open>What the constructor yields\<close>

lemma new_DoipMessage_tcp [codec_simps]:
  "new_DoipMessage kTcp ip port (b0 # b1 # b2 # b3 # b4 # b5 # b6 # b7 # b8 # b9 # b10 # b11 # x # xs) =
     Inr \<lparr>host_ip_address = ip, host_port_number = port, protocol_version = b0, protocol_version_inv = b1,
          server_address = u16_join b10 b11, client_address = u16_join b8 b9,
          payload_type = u16_join b2 b3, payload_length = u32_join b4 b5 b6 b7, payload = x # xs\<rparr>"
  by (simp add: new_DoipMessage_def GetDoIPPayloadType_def GetDoIPPayloadLength_def ConvertToAddr_def
      span_from_def u16_addr_eq_join numeral_eq_Suc)

lemma new_DoipMessage_udp [codec_simps]:
  "new_DoipMessage kUdp ip port (b0 # b1 # b2 # b3 # b4 # b5 # b6 # b7 # x # xs) =
     Inr \<lparr>host_ip_address = ip, host_port_number = port, protocol_version = b0, protocol_version_inv = b1,
          server_address = 0, client_address = 0,
          payload_type = u16_join b2 b3, payload_length = u32_join b4 b5 b6 b7, payload = x # xs\<rparr>"
  by (simp add: new_DoipMessage_def GetDoIPPayloadType_def GetDoIPPayloadLength_def
      span_from_def numeral_eq_Suc)

text \<open>The sub-span at offset 12 (8 for UDP) is the last check, and it needs one byte more.\<close>

lemma new_DoipMessage_tcp_fault: "length p < 13 \<Longrightarrow> new_DoipMessage kTcp ip port p = Inl Span_Abort"
  by (auto simp: new_DoipMessage_def GetDoIPPayloadType_def GetDoIPPayloadLength_def span_from_def
      bind_run_def span_at_def CheckIfExpectedOrAbort_def split: sum.splits)

lemma new_DoipMessage_udp_fault: "length p < 9 \<Longrightarrow> new_DoipMessage kUdp ip port p = Inl Span_Abort"
  by (auto simp: new_DoipMessage_def GetDoIPPayloadType_def GetDoIPPayloadLength_def span_from_def
      bind_run_def span_at_def CheckIfExpectedOrAbort_def split: sum.splits)

lemma tcp_frame_split:
  "13 \<le> length p \<Longrightarrow> \<exists>b0 b1 b2 b3 b4 b5 b6 b7 b8 b9 b10 b11 x xs.
     p = b0 # b1 # b2 # b3 # b4 # b5 # b6 # b7 # b8 # b9 # b10 # b11 # x # xs"
  by (auto simp: numeral_eq_Suc Suc_le_length_iff)

lemma udp_frame_split:
  "9 \<le> length p \<Longrightarrow> \<exists>b0 b1 b2 b3 b4 b5 b6 b7 x xs.
     p = b0 # b1 # b2 # b3 # b4 # b5 # b6 # b7 # x # xs"
  by (auto simp: numeral_eq_Suc Suc_le_length_iff)

lemma new_DoipMessage_tcp_total: "13 \<le> length p \<Longrightarrow> \<exists>m. new_DoipMessage kTcp ip port p = Inr m"
  by (drule tcp_frame_split) (auto simp: codec_simps)

lemma new_DoipMessage_udp_total: "9 \<le> length p \<Longrightarrow> \<exists>m. new_DoipMessage kUdp ip port p = Inr m"
  by (drule udp_frame_split) (auto simp: codec_simps)

lemma new_DoipMessage_tcp_payload:
  assumes "new_DoipMessage kTcp ip port p = Inr m"
  shows "payload m = drop 12 p \<and> payload m \<noteq> [] \<and> 13 \<le> length p"
proof -
  have "13 \<le> length p" using assms new_DoipMessage_tcp_fault [of p ip port] by (cases "length p < 13") auto
  with assms show ?thesis by (auto dest!: tcp_frame_split simp: codec_simps)
qed

lemma new_DoipMessage_udp_payload:
  assumes "new_DoipMessage kUdp ip port p = Inr m"
  shows "payload m = drop 8 p \<and> payload m \<noteq> [] \<and> 9 \<le> length p"
proof -
  have "9 \<le> length p" using assms new_DoipMessage_udp_fault [of p ip port] by (cases "length p < 9") auto
  with assms show ?thesis by (auto dest!: udp_frame_split simp: codec_simps)
qed

text \<open>A frame is what the peer sends: generic header, the two addresses, the data.\<close>

definition tcp_frame :: "u16 \<Rightarrow> u32 \<Rightarrow> u16 \<Rightarrow> u16 \<Rightarrow> bytes \<Rightarrow> bytes" where
  "tcp_frame ty len a b data =
     CreateDoipGenericHeader ty len @ [u16_hi a, u16_lo a, u16_hi b, u16_lo b] @ data"

lemma length_tcp_frame [simp]: "length (tcp_frame ty len a b data) = 12 + length data"
  by (simp add: tcp_frame_def doip_consts)

lemma parse_tcp_frame [codec_simps]:
  "data \<noteq> [] \<Longrightarrow> new_DoipMessage kTcp ip port (tcp_frame ty len a b data) =
     Inr \<lparr>host_ip_address = ip, host_port_number = port,
          protocol_version = kDoip_ProtocolVersion, protocol_version_inv = NOT kDoip_ProtocolVersion,
          server_address = b, client_address = a, payload_type = ty, payload_length = len, payload = data\<rparr>"
  by (cases data) (simp_all add: tcp_frame_def CreateDoipGenericHeader_def codec_simps)

lemma parse_udp_frame [codec_simps]:
  "data \<noteq> [] \<Longrightarrow> new_DoipMessage kUdp ip port (CreateDoipGenericHeader ty len @ data) =
     Inr \<lparr>host_ip_address = ip, host_port_number = port,
          protocol_version = kDoip_ProtocolVersion, protocol_version_inv = NOT kDoip_ProtocolVersion,
          server_address = 0, client_address = 0, payload_type = ty, payload_length = len, payload = data\<rparr>"
  by (cases data) (simp_all add: CreateDoipGenericHeader_def codec_simps)

end
