(* ===== verification/Tcp_Transport.thy ===== *)
theory Tcp_Transport
  imports Doip_Message
begin

text \<open>
  The TCP stack of \<open>lib/boost-support\<close> under the DoIP channel: the socket
  (\<open>socket/tcp/tcp_socket.cpp\<close>), the connection with its reader thread
  (\<open>connection/tcp/tcp_connection.h\<close>, the client specialisation) and the client
  (\<open>client/tcp/tcp_client.cpp\<close>).

  Boost.Asio is not part of the repository. What its calls do is a parameter: \<open>asio_io\<close> says
  which synchronous calls on the socket succeed, and the blocking read is a function \<open>rd\<close> from
  the number of bytes wanted to the error code, the bytes transferred and the socket after it.
  Where a property needs the documented behaviour of \<open>boost::asio::read\<close> it assumes \<open>asio_reads\<close>.
\<close>

section \<open>Boost.Asio, as far as the code relies on it\<close>

datatype asio_ec = ec_success | ec_eof | ec_other

record asio_io =
  asio_open :: bool
  asio_options :: bool
  asio_bind :: bool
  asio_local_endpoint :: bool
  asio_address :: "string \<Rightarrow> bool"
  asio_connect :: "string \<Rightarrow> u16 \<Rightarrow> bool"
  asio_endpoint_connected :: bool
  asio_shutdown :: bool
  asio_write :: "bytes \<Rightarrow> bool"
  asio_endpoint_written :: "bytes \<Rightarrow> bool"
  asio_close :: bool

text \<open>
  The overloads without an error code (setting an option, asking for an endpoint, the shutdown in
  \<open>Close\<close>, turning a text into an address) throw when they fail. Their callers are \<open>noexcept\<close>, so
  that ends the process. Some of these calls stand in the callback that builds a log message, and the
  functions of the logger are \<open>noexcept\<close> as well: \<open>asio_endpoint_connected\<close> and
  \<open>asio_endpoint_written\<close> say whether the socket still knows its peer when the message about a
  connection made, or about the bytes written, is built (or that the log level leaves it unbuilt).
\<close>

definition no_throw :: "bool \<Rightarrow> unit run" where
  "no_throw ok = (if ok then Inr () else Inl Uncaught_Exception)"

lemma no_throw_simps [simp]:
  "no_throw True = Inr ()" "no_throw False = Inl Uncaught_Exception"
  "no_throw b = Inr u \<longleftrightarrow> b" "no_throw b = Inl e \<longleftrightarrow> \<not> b \<and> e = Uncaught_Exception"
  by (auto simp: no_throw_def)

type_synonym 's asio_read = "nat \<Rightarrow> 's \<Rightarrow> asio_ec \<times> bytes \<times> 's"

text \<open>
  \<open>boost::asio::read\<close> on a connected stream: it transfers the bytes asked for if the peer sends
  that many before it closes; otherwise it transfers what there is and reports an error.
  \<open>unread s\<close> is everything the peer still sends on \<open>s\<close>.
\<close>

definition asio_reads :: "'s asio_read \<Rightarrow> ('s \<Rightarrow> bytes) \<Rightarrow> bool" where
  "asio_reads rd unread \<longleftrightarrow>
     (\<forall>n s. (case rd n s of (ec, bs, s') \<Rightarrow>
        bs = take n (unread s) \<and> unread s' = drop n (unread s) \<and>
        (ec = ec_success \<longleftrightarrow> n \<le> length (unread s))))"

text \<open>A socket that is the list of the bytes to come satisfies it.\<close>

definition list_read :: "bytes asio_read" where
  "list_read n s = (if n \<le> length s then ec_success else ec_eof, take n s, drop n s)"

lemma asio_reads_list_read: "asio_reads list_read (\<lambda>s. s)"
  by (simp add: asio_reads_def list_read_def)

lemma asio_readsD:
  assumes "asio_reads rd unread" and "n \<le> length (unread s)"
  shows "\<exists>s'. rd n s = (ec_success, take n (unread s), s') \<and> unread s' = drop n (unread s)"
proof -
  obtain ec bs s' where r: "rd n s = (ec, bs, s')" by (cases "rd n s")
  with assms show ?thesis unfolding asio_reads_def by (auto dest!: spec [of _ n] spec [of _ s])
qed

lemma asio_reads_short:
  assumes "asio_reads rd unread" and "length (unread s) < n"
  shows "\<exists>ec s'. rd n s = (ec, unread s, s') \<and> ec \<noteq> ec_success \<and> unread s' = []"
proof -
  obtain ec bs s' where r: "rd n s = (ec, bs, s')" by (cases "rd n s")
  with assms show ?thesis unfolding asio_reads_def by (auto dest!: spec [of _ n] spec [of _ s])
qed

section \<open>Socket\<close>

datatype SocketError = kOpenFailed | kBindingFailed | kRemoteDisconnected | kSocketGenericError

definition TcpSocket_Open :: "asio_io \<Rightarrow> (unit, SocketError) Result run" where
  "TcpSocket_Open io =
     (let result = FromError kSocketGenericError in
      if asio_open io then
        bind_run (no_throw (asio_options io)) (\<lambda>_.
          if asio_bind io then
            bind_run (no_throw (asio_local_endpoint io)) (\<lambda>_. Inr (EmplaceValue () result))
          else Inr (EmplaceError kBindingFailed result))
      else Inr (EmplaceError kOpenFailed result))"

definition TcpSocket_Connect :: "asio_io \<Rightarrow> string \<Rightarrow> u16 \<Rightarrow> (unit, SocketError) Result run" where
  "TcpSocket_Connect io host_ip port =
     (let result = FromError kSocketGenericError in
      bind_run (no_throw (asio_address io host_ip)) (\<lambda>_.
        if asio_connect io host_ip port then
          bind_run (no_throw (asio_endpoint_connected io)) (\<lambda>_. Inr (EmplaceValue () result))
        else Inr result))"

definition TcpSocket_Disconnect :: "asio_io \<Rightarrow> (unit, SocketError) Result" where
  "TcpSocket_Disconnect io =
     (let result = FromError kSocketGenericError in
      if asio_shutdown io then EmplaceValue () result else result)"

definition TcpSocket_Transmit :: "asio_io \<Rightarrow> bytes \<Rightarrow> (unit, SocketError) Result run" where
  "TcpSocket_Transmit io frame =
     (let result = FromError kSocketGenericError in
      if asio_write io frame then
        bind_run (no_throw (asio_endpoint_written io frame)) (\<lambda>_. Inr (EmplaceValue () result))
      else Inr result)"

definition TcpSocket_Close :: "asio_io \<Rightarrow> (unit, SocketError) Result run" where
  "TcpSocket_Close io =
     bind_run (no_throw (asio_close io)) (\<lambda>_. Inr (EmplaceValue () (FromError kSocketGenericError)))"

text \<open>
  The read: eight header bytes, then as many as the length field says. The buffer is enlarged
  with zero bytes before the second read, whose error code nobody looks at, so the message that
  is handed on always has the announced length. A length of zero leaves the initial error. The
  message carries the remote endpoint, which \<open>peer\<close> gives as long as the socket has one.
\<close>

type_synonym tcp_message = "string \<times> u16 \<times> bytes"

type_synonym 's asio_peer = "'s \<Rightarrow> (string \<times> u16) option"

definition read_next_bytes :: "bytes \<Rightarrow> u32" where
  "read_next_bytes rx_buffer = u32_join (rx_buffer ! 4) (rx_buffer ! 5) (rx_buffer ! 6) (rx_buffer ! 7)"

definition read_into :: "nat \<Rightarrow> bytes \<Rightarrow> bytes \<Rightarrow> bytes" where
  "read_into off bs buf = take off buf @ bs @ drop (off + length bs) buf"

definition TcpSocket_Read ::
    "'s asio_read \<Rightarrow> 's asio_peer \<Rightarrow> 's \<Rightarrow> ((tcp_message, SocketError) Result \<times> 's) run" where
  "TcpSocket_Read rd peer s =
     (let result = FromError kRemoteDisconnected;
          rx_buffer = vector_resize kDoipheadrSize [];
          (ec, hdr, s1) = rd kDoipheadrSize s;
          rx_buffer = read_into 0 hdr rx_buffer
      in if ec = ec_success then
           (let n = read_next_bytes rx_buffer in
            if n \<noteq> 0 then
              (let rx_buffer = vector_resize (kDoipheadrSize + unat n) rx_buffer;
                   (ec2, body, s2) = rd (unat n) s1;
                   rx_buffer = read_into kDoipheadrSize body rx_buffer
               in (case peer s2 of
                     None \<Rightarrow> Inl Uncaught_Exception
                   | Some (ip, port) \<Rightarrow> Inr (EmplaceValue (ip, port, rx_buffer) result, s2)))
            else Inr (result, s1))
         else Inr (result, s1))"

section \<open>Connection\<close>

datatype ConnState = kConnected | kDisconnected

record tcp_client =
  connection_state :: ConnState
  running :: bool
  exit_reader :: bool
  reader_started :: bool
  sent :: "bytes list"

definition new_tcp_client :: tcp_client where
  "new_tcp_client = \<lparr>connection_state = kDisconnected, running = False, exit_reader = False,
     reader_started = False, sent = []\<rparr>"

text \<open>The outcome of opening the socket is dropped; the reader thread starts in any case.\<close>

definition TcpConnection_Initialize :: "asio_io \<Rightarrow> 'a tcp_client_scheme \<Rightarrow> 'a tcp_client_scheme run" where
  "TcpConnection_Initialize io w =
     bind_run (TcpSocket_Open io) (\<lambda>_. Inr (w\<lparr>reader_started := True\<rparr>))"

definition TcpConnection_DeInitialize :: "asio_io \<Rightarrow> 'a tcp_client_scheme \<Rightarrow> 'a tcp_client_scheme run" where
  "TcpConnection_DeInitialize io w =
     bind_run (TcpSocket_Close io) (\<lambda>_.
       Inr (w\<lparr>exit_reader := True, running := False, reader_started := False\<rparr>))"

definition TcpConnection_ConnectToHost ::
    "asio_io \<Rightarrow> string \<Rightarrow> u16 \<Rightarrow> 'a tcp_client_scheme \<Rightarrow> (bool \<times> 'a tcp_client_scheme) run" where
  "TcpConnection_ConnectToHost io host_ip port w =
     bind_run (TcpSocket_Connect io host_ip port) (\<lambda>c.
       case AndThen_void c (\<lambda>w. w\<lparr>running := True\<rparr>) w of (w', r) \<Rightarrow> Inr (HasValue r, w'))"

definition TcpConnection_DisconnectFromHost :: "asio_io \<Rightarrow> 'a tcp_client_scheme \<Rightarrow> 'a tcp_client_scheme" where
  "TcpConnection_DisconnectFromHost io w = (let w' = w\<lparr>running := False\<rparr>; _ = TcpSocket_Disconnect io in w')"

text \<open>\<open>sent\<close> is the trace of the frames that reached the network.\<close>

definition TcpConnection_Transmit ::
    "asio_io \<Rightarrow> bytes \<Rightarrow> 'a tcp_client_scheme \<Rightarrow> ((unit, ErrorCode) Result \<times> 'a tcp_client_scheme) run" where
  "TcpConnection_Transmit io frame w =
     bind_run (TcpSocket_Transmit io frame) (\<lambda>r.
     bind_run (MapError_void r (\<lambda>_. bs_MakeErrorCode bs_kSocketError 0)) (\<lambda>r'.
       Inr (r', if HasValue r then w\<lparr>sent := sent w @ [frame]\<rparr> else w)))"

definition ReadMessage :: "'s asio_read \<Rightarrow> 's asio_peer \<Rightarrow> (tcp_message \<Rightarrow> 'w \<Rightarrow> 'w run) \<Rightarrow> 's \<Rightarrow> 'w \<Rightarrow>
    (bool \<times> 's \<times> 'w) run" where
  "ReadMessage rd peer handler_read s w =
     bind_run (TcpSocket_Read rd peer s) (\<lambda>(r, s').
       case r of
         FromValue tcp_message \<Rightarrow> bind_run (handler_read tcp_message w) (\<lambda>w'. Inr (True, s', w'))
       | FromError e \<Rightarrow> Inr (False, s', w))"

text \<open>
  The reader thread: as long as no exit is requested and \<open>running_\<close> is set, read one message
  and store in \<open>running_\<close> whether that worked; with \<open>running_\<close> clear it sleeps. The first
  argument bounds the number of messages looked at.
\<close>

fun reader_thread :: "nat \<Rightarrow> 's asio_read \<Rightarrow> 's asio_peer \<Rightarrow>
    (tcp_message \<Rightarrow> 'a tcp_client_scheme \<Rightarrow> 'a tcp_client_scheme run) \<Rightarrow>
    's \<Rightarrow> 'a tcp_client_scheme \<Rightarrow> ('s \<times> 'a tcp_client_scheme) run" where
  "reader_thread 0 rd peer handler s w = Inr (s, w)"
| "reader_thread (Suc n) rd peer handler s w =
     (if \<not> exit_reader w \<and> running w then
        bind_run (ReadMessage rd peer handler s w) (\<lambda>(ok, s', w').
          reader_thread n rd peer handler s' (w'\<lparr>running := ok\<rparr>))
      else Inr (s, w))"

section \<open>Client\<close>

definition TcpClient_Initialize :: "asio_io \<Rightarrow> 'a tcp_client_scheme \<Rightarrow> 'a tcp_client_scheme run" where
  "TcpClient_Initialize io w = TcpConnection_Initialize io w"

definition TcpClient_DeInitialize :: "asio_io \<Rightarrow> 'a tcp_client_scheme \<Rightarrow> 'a tcp_client_scheme run" where
  "TcpClient_DeInitialize io w = TcpConnection_DeInitialize io w"

definition TcpClient_ConnectToHost ::
    "asio_io \<Rightarrow> string \<Rightarrow> u16 \<Rightarrow> 'a tcp_client_scheme \<Rightarrow> ((unit, ErrorCode) Result \<times> 'a tcp_client_scheme) run" where
  "TcpClient_ConnectToHost io host_ip port w =
     (let result = FromError (bs_MakeErrorCode bs_kSocketError 0) in
      if connection_state w \<noteq> kConnected then
        bind_run (TcpConnection_ConnectToHost io host_ip port w) (\<lambda>(ok, w').
          Inr (if ok then (EmplaceValue () result, w'\<lparr>connection_state := kConnected\<rparr>) else (result, w')))
      else Inr (EmplaceValue () result, w))"

definition TcpClient_DisconnectFromHost ::
    "asio_io \<Rightarrow> 'a tcp_client_scheme \<Rightarrow> (unit, ErrorCode) Result \<times> 'a tcp_client_scheme" where
  "TcpClient_DisconnectFromHost io w =
     (let result = FromError (bs_MakeErrorCode bs_kSocketError 0) in
      if connection_state w = kConnected then
        (EmplaceValue () result, (TcpConnection_DisconnectFromHost io w)\<lparr>connection_state := kDisconnected\<rparr>)
      else (result, w))"

definition TcpClient_IsConnectedToHost :: "'a tcp_client_scheme \<Rightarrow> bool" where
  "TcpClient_IsConnectedToHost w \<longleftrightarrow> connection_state w = kConnected"

definition TcpClient_Transmit ::
    "asio_io \<Rightarrow> bytes \<Rightarrow> 'a tcp_client_scheme \<Rightarrow> ((unit, ErrorCode) Result \<times> 'a tcp_client_scheme) run" where
  "TcpClient_Transmit io frame w =
     (let result = FromError (bs_MakeErrorCode bs_kGenericError 0) in
      if connection_state w = kConnected then
        bind_run (TcpConnection_Transmit io frame w) (\<lambda>(r, w').
          Inr (if HasValue r then (EmplaceValue () result, w') else (result, w')))
      else Inr (result, w))"

section \<open>Socket handler\<close>

text \<open>
  What the channel holds is a socket handler (\<open>lib/doip-client/sockets/socket_handler.h\<close>), which hands each
  call on to its client.
\<close>

definition TcpSocketHandler_Initialize :: "asio_io \<Rightarrow> 'a tcp_client_scheme \<Rightarrow> 'a tcp_client_scheme run" where
  [simp]: "TcpSocketHandler_Initialize io w = TcpClient_Initialize io w"

definition TcpSocketHandler_DeInitialize :: "asio_io \<Rightarrow> 'a tcp_client_scheme \<Rightarrow> 'a tcp_client_scheme run" where
  [simp]: "TcpSocketHandler_DeInitialize io w = TcpClient_DeInitialize io w"

definition TcpSocketHandler_ConnectToHost ::
    "asio_io \<Rightarrow> string \<Rightarrow> u16 \<Rightarrow> 'a tcp_client_scheme \<Rightarrow> ((unit, ErrorCode) Result \<times> 'a tcp_client_scheme) run" where
  [simp]: "TcpSocketHandler_ConnectToHost io host_ip port w = TcpClient_ConnectToHost io host_ip port w"

definition TcpSocketHandler_DisconnectFromHost ::
    "asio_io \<Rightarrow> 'a tcp_client_scheme \<Rightarrow> (unit, ErrorCode) Result \<times> 'a tcp_client_scheme" where
  [simp]: "TcpSocketHandler_DisconnectFromHost io w = TcpClient_DisconnectFromHost io w"

definition TcpSocketHandler_IsConnectedToHost :: "'a tcp_client_scheme \<Rightarrow> bool" where
  [simp]: "TcpSocketHandler_IsConnectedToHost w = TcpClient_IsConnectedToHost w"

definition TcpSocketHandler_Transmit ::
    "asio_io \<Rightarrow> bytes \<Rightarrow> 'a tcp_client_scheme \<Rightarrow> ((unit, ErrorCode) Result \<times> 'a tcp_client_scheme) run" where
  [simp]: "TcpSocketHandler_Transmit io frame w = TcpClient_Transmit io frame w"

section \<open>Facts\<close>

lemmas socket_defs = TcpSocket_Open_def TcpSocket_Connect_def TcpSocket_Disconnect_def
  TcpSocket_Transmit_def TcpSocket_Close_def
lemmas connection_defs = TcpConnection_Initialize_def TcpConnection_DeInitialize_def
  TcpConnection_ConnectToHost_def TcpConnection_DisconnectFromHost_def TcpConnection_Transmit_def

lemma TcpClient_Transmit_eq [op_defs]:
  "TcpClient_Transmit io frame w =
     (if connection_state w \<noteq> kConnected \<or> \<not> asio_write io frame
      then Inr (FromError (bs_MakeErrorCode bs_kGenericError 0), w)
      else if asio_endpoint_written io frame then Inr (FromValue (), w\<lparr>sent := sent w @ [frame]\<rparr>)
      else Inl Uncaught_Exception)"
  by (simp add: TcpClient_Transmit_def connection_defs socket_defs EmplaceValue_def Let_def)

lemma TcpClient_ConnectToHost_eq [op_defs]:
  "TcpClient_ConnectToHost io ip port w =
     (if connection_state w = kConnected then Inr (FromValue (), w)
      else if \<not> asio_address io ip then Inl Uncaught_Exception
      else if \<not> asio_connect io ip port then Inr (FromError (bs_MakeErrorCode bs_kSocketError 0), w)
      else if asio_endpoint_connected io then Inr (FromValue (), w\<lparr>running := True, connection_state := kConnected\<rparr>)
      else Inl Uncaught_Exception)"
  by (simp add: TcpClient_ConnectToHost_def connection_defs socket_defs EmplaceValue_def)

lemma TcpClient_DisconnectFromHost_eq [op_defs]:
  "TcpClient_DisconnectFromHost io w =
     (if connection_state w = kConnected then (FromValue (), w\<lparr>running := False, connection_state := kDisconnected\<rparr>)
      else (FromError (bs_MakeErrorCode bs_kSocketError 0), w))"
  by (simp add: TcpClient_DisconnectFromHost_def connection_defs EmplaceValue_def)

text \<open>Opening ends the process when an option is refused, closing when the shutdown is.\<close>

definition opens :: "asio_io \<Rightarrow> bool" where
  "opens io \<longleftrightarrow> (asio_open io \<longrightarrow> asio_options io \<and> (asio_bind io \<longrightarrow> asio_local_endpoint io))"

lemma TcpSocket_Open_Inr: "(\<exists>r. TcpSocket_Open io = Inr r) \<longleftrightarrow> opens io"
  by (cases "asio_open io"; cases "asio_options io"; cases "asio_bind io"; cases "asio_local_endpoint io")
     (auto simp: TcpSocket_Open_def opens_def)

lemma TcpClient_Initialize_eq [op_defs]:
  "TcpClient_Initialize io w = (if opens io then Inr (w\<lparr>reader_started := True\<rparr>) else Inl Uncaught_Exception)"
  "TcpClient_DeInitialize io w =
     (if asio_close io then Inr (w\<lparr>exit_reader := True, running := False, reader_started := False\<rparr>)
      else Inl Uncaught_Exception)"
  by (cases "asio_open io"; cases "asio_options io"; cases "asio_bind io"; cases "asio_local_endpoint io";
      simp add: TcpClient_Initialize_def connection_defs TcpSocket_Open_def opens_def)
     (simp add: TcpClient_DeInitialize_def connection_defs TcpSocket_Close_def)

text \<open>Whether the peer is still there plays no part in \<open>IsConnectedToHost\<close>.\<close>

lemma IsConnected_after:
  "TcpClient_ConnectToHost io ip port w = Inr (FromValue (), w') \<Longrightarrow> TcpClient_IsConnectedToHost w'"
  "\<not> TcpClient_IsConnectedToHost (snd (TcpClient_DisconnectFromHost io w))"
  by (auto simp: op_defs TcpClient_IsConnectedToHost_def split: if_splits)

lemma take_8_header: "8 \<le> length f \<Longrightarrow> read_next_bytes (take 8 f) = read_next_bytes f"
  by (simp add: read_next_bytes_def)

lemma TcpSocket_Read_full:
  assumes "asio_reads rd unread" and "unread s = f @ rest"
    and "length f = 8 + unat (read_next_bytes f)" and "read_next_bytes f \<noteq> 0"
  shows "\<exists>s'. TcpSocket_Read rd peer s =
      (case peer s' of None \<Rightarrow> Inl Uncaught_Exception | Some (ip, port) \<Rightarrow> Inr (FromValue (ip, port, f), s')) \<and>
    unread s' = rest"
proof -
  have len: "8 \<le> length f" using assms(3) by simp
  have u: "8 \<le> length (unread s)" using assms(2) len by simp
  obtain s1 where r1: "rd 8 s = (ec_success, take 8 f, s1)" and u1: "unread s1 = drop 8 f @ rest"
    using asio_readsD [OF assms(1) u] assms(2) len by auto
  have n: "unat (read_next_bytes f) \<le> length (unread s1)" using u1 assms(3) by simp
  have dr: "length (drop 8 f) = unat (read_next_bytes f)" using assms(3) by simp
  obtain s2 where r2: "rd (unat (read_next_bytes f)) s1 = (ec_success, drop 8 f, s2)" and u2: "unread s2 = rest"
    using asio_readsD [OF assms(1) n] u1 dr by auto
  have hdr: "read_into 0 (take 8 f) (vector_resize 8 []) = take 8 f"
    using len by (simp add: read_into_def vector_resize_def)
  have "read_into 8 (drop 8 f) (vector_resize (8 + unat (read_next_bytes f)) (take 8 f)) = take 8 f @ drop 8 f"
    using len dr by (simp add: read_into_def vector_resize_def)
  then show ?thesis
    using r1 r2 u2 hdr assms(4) len by (intro exI [of _ s2])
      (simp add: TcpSocket_Read_def doip_consts Let_def take_8_header EmplaceValue_def split: option.splits)
qed

lemma TcpSocket_Read_eof:
  assumes "asio_reads rd unread" and "length (unread s) < 8"
  shows "\<exists>s'. TcpSocket_Read rd peer s = Inr (FromError kRemoteDisconnected, s')"
  using asio_reads_short [OF assms] by (auto simp: TcpSocket_Read_def doip_consts Let_def)

lemma TcpSocket_Read_zero_length:
  assumes "asio_reads rd unread" and "unread s = f @ rest" and "length f = 8" and "read_next_bytes f = 0"
  shows "\<exists>s'. TcpSocket_Read rd peer s = Inr (FromError kRemoteDisconnected, s') \<and> unread s' = rest"
proof -
  have u: "8 \<le> length (unread s)" using assms by simp
  obtain s1 where r1: "rd 8 s = (ec_success, f, s1)" and u1: "unread s1 = rest"
    using asio_readsD [OF assms(1) u] assms by auto
  have "read_into 0 f (vector_resize 8 []) = f"
    using assms(3) by (simp add: read_into_def vector_resize_def)
  with r1 u1 assms(4) show ?thesis by (simp add: TcpSocket_Read_def doip_consts Let_def)
qed

text \<open>A frame cut short by the end of the stream is padded with zeros and handed on all the same.\<close>

lemma TcpSocket_Read_truncated:
  assumes "asio_reads rd unread" and "unread s = hdr @ part" and "length hdr = 8"
    and "length part < unat (read_next_bytes hdr)"
  shows "\<exists>s'. TcpSocket_Read rd peer s =
    (case peer s' of None \<Rightarrow> Inl Uncaught_Exception
     | Some (ip, port) \<Rightarrow>
         Inr (FromValue (ip, port, hdr @ part @ replicate (unat (read_next_bytes hdr) - length part) 0), s'))"
proof -
  let ?n = "unat (read_next_bytes hdr)"
  have u: "8 \<le> length (unread s)" using assms by simp
  obtain s1 where r1: "rd 8 s = (ec_success, hdr, s1)" and u1: "unread s1 = part"
    using asio_readsD [OF assms(1) u] assms by auto
  obtain ec s2 where r2: "rd ?n s1 = (ec, part, s2)"
    using asio_reads_short [OF assms(1), of s1 ?n] u1 assms(4) by auto
  have "read_into 0 hdr (vector_resize 8 []) = hdr"
    using assms(3) by (simp add: read_into_def vector_resize_def)
  moreover have "read_into 8 part (vector_resize (8 + ?n) hdr) = hdr @ part @ replicate (?n - length part) 0"
    using assms(3,4) by (simp add: read_into_def vector_resize_def)
  moreover have "read_next_bytes hdr \<noteq> 0" using assms(4) by auto
  ultimately show ?thesis
    using r1 r2 by (intro exI [of _ s2])
      (simp add: TcpSocket_Read_def doip_consts Let_def EmplaceValue_def split: option.splits)
qed

text \<open>A frame as the peer should send it: the length field is right, and not zero.\<close>

definition well_framed :: "bytes \<Rightarrow> bool" where
  "well_framed f \<longleftrightarrow> length f = 8 + unat (read_next_bytes f) \<and> read_next_bytes f \<noteq> 0"

lemma well_framed_header:
  "len \<noteq> 0 \<Longrightarrow> length rest = unat len \<Longrightarrow> well_framed (CreateDoipGenericHeader ty len @ rest)"
  by (simp add: well_framed_def read_next_bytes_def CreateDoipGenericHeader_def doip_consts)

end
