(* ===== verification/Utility_Logger.thy ===== *)
theory Utility_Logger
  imports Prelude
begin

text \<open>
  Logging (\<open>lib/utility-support/utility/logger.h\<close>, \<open>logger.cpp\<close>, \<open>file_path.h\<close>): the text of a message, where
  it goes, and what happens when the callback that builds it throws.
\<close>

section \<open>Decimal numbers\<close>

text \<open>\<open>std::to_string\<close> of an unsigned integer.\<close>

definition digit :: "nat \<Rightarrow> char" where
  "digit n = char_of (48 + n)"

fun to_string :: "nat \<Rightarrow> string" where
  "to_string n = (if n < 10 then [digit n] else to_string (n div 10) @ [digit (n mod 10)])"

declare to_string.simps [simp del]

text \<open>Reading a number back.\<close>

definition parse_decimal :: "string \<Rightarrow> nat" where
  "parse_decimal s = foldl (\<lambda>n c. 10 * n + (of_char c - 48)) 0 s"

lemma of_char_digit: "n < 10 \<Longrightarrow> (of_char (digit n) :: nat) = 48 + n"
  by (simp add: digit_def)

lemma parse_to_string: "parse_decimal (to_string n) = n"
proof (induction n rule: to_string.induct)
  case (1 n)
  then show ?case
    by (cases "n < 10") (simp_all add: to_string.simps [of n] parse_decimal_def of_char_digit)
qed

lemma to_string_inj: "to_string m = to_string n \<longleftrightarrow> m = n"
  using parse_to_string by metis

section \<open>The name of a source file\<close>

text \<open>\<open>find_last_of\<close> of a string view: the last position with one of the characters, or \<open>npos\<close>.\<close>

definition find_last_of :: "string \<Rightarrow> string \<Rightarrow> nat option" where
  "find_last_of cs s =
     (let ps = filter (\<lambda>i. s ! i \<in> set cs) [0..<length s] in if ps = [] then None else Some (last ps))"

definition StripFilePath :: "string \<Rightarrow> string" where
  "StripFilePath path =
     (case find_last_of [CHR ''/'', CHR 0x5C] path of None \<Rightarrow> path | Some pos \<Rightarrow> drop (pos + 1) path)"

lemma find_last_of_append:
  assumes "c \<in> set cs" and "set name \<inter> set cs = {}"
  shows "find_last_of cs (dir @ c # name) = Some (length dir)"
proof -
  let ?s = "dir @ c # name"
  have "[0..<length ?s] = [0..<length dir] @ [length dir..<length ?s]"
    using upt_add_eq_append [of 0 "length dir" "Suc (length name)"] by (simp del: upt_Suc)
  also have "[length dir..<length ?s] = length dir # [Suc (length dir)..<length ?s]"
    by (rule upt_conv_Cons) simp
  finally have "[0..<length ?s] = [0..<length dir] @ length dir # [Suc (length dir)..<length ?s]" .
  moreover have "filter (\<lambda>i. ?s ! i \<in> set cs) [Suc (length dir)..<length ?s] = []"
  proof (rule filter_False, clarify)
    fix i
    assume i: "i \<in> set [Suc (length dir)..<length ?s]" "?s ! i \<in> set cs"
    then have "?s ! i \<in> set name" by (auto simp: nth_append nth_Cons' intro!: nth_mem)
    with i(2) assms(2) show False by blast
  qed
  ultimately show ?thesis using assms(1) by (simp add: find_last_of_def)
qed

lemma StripFilePath_file:
  "c \<in> {CHR ''/'', CHR 0x5C} \<Longrightarrow> set name \<inter> {CHR ''/'', CHR 0x5C} = {} \<Longrightarrow> StripFilePath (dir @ c # name) = name"
  using find_last_of_append [of c "[CHR ''/'', CHR 0x5C]" name dir] by (auto simp: StripFilePath_def)

lemma StripFilePath_bare: "set name \<inter> {CHR ''/'', CHR 0x5C} = {} \<Longrightarrow> StripFilePath name = name"
  by (auto simp: StripFilePath_def find_last_of_def filter_empty_conv Let_def) (metis nth_mem)+

section \<open>Logger\<close>

text \<open>
  A build writes to standard output, or to the DLT daemon (the macro \<open>ENABLE_DLT_LOGGER\<close>). The daemon is not
  part of the repository: the model records the calls of its interface, and \<open>enabled\<close> says for which levels
  the context logs. The macro \<open>DLT_LOG\<close> evaluates its arguments for these levels only.
\<close>

datatype DltLogLevel =
  DLT_LOG_FATAL | DLT_LOG_ERROR | DLT_LOG_WARN | DLT_LOG_INFO | DLT_LOG_DEBUG | DLT_LOG_VERBOSE

datatype dlt_call =
    DLT_REGISTER_APP string string
  | DLT_REGISTER_CONTEXT string string
  | DLT_UNREGISTER_CONTEXT
  | DLT_UNREGISTER_APP
  | DLT_LOG DltLogLevel string

datatype log_build = Standard_Output | Dlt "DltLogLevel \<Rightarrow> bool"

record log_output =
  cout :: "string list"
  dlt_calls :: "dlt_call list"

record Logger =
  app_id :: string
  context_id :: string
  registration_with_app_id :: bool

definition dlt_trace :: "log_build \<Rightarrow> dlt_call list \<Rightarrow> log_output \<Rightarrow> log_output" where
  "dlt_trace build calls out = (case build of Standard_Output \<Rightarrow> out | Dlt enabled \<Rightarrow> out\<lparr>dlt_calls := dlt_calls out @ calls\<rparr>)"

definition new_Logger :: "log_build \<Rightarrow> string \<Rightarrow> log_output \<Rightarrow> Logger \<times> log_output" where
  "new_Logger build ctx out =
     (\<lparr>app_id = '''', context_id = ctx, registration_with_app_id = False\<rparr>,
      dlt_trace build [DLT_REGISTER_CONTEXT ctx ''Application Context''] out)"

definition new_Logger_with_app :: "log_build \<Rightarrow> string \<Rightarrow> string \<Rightarrow> log_output \<Rightarrow> Logger \<times> log_output" where
  "new_Logger_with_app build app ctx out =
     (\<lparr>app_id = app, context_id = ctx, registration_with_app_id = True\<rparr>,
      dlt_trace build [DLT_REGISTER_APP app ''Application Id'', DLT_REGISTER_CONTEXT ctx ''Application Context''] out)"

definition delete_Logger :: "log_build \<Rightarrow> Logger \<Rightarrow> log_output \<Rightarrow> log_output" where
  "delete_Logger build l out =
     dlt_trace build
       (DLT_UNREGISTER_CONTEXT # (if registration_with_app_id l then [DLT_UNREGISTER_APP] else [])) out"

text \<open>
  A message is built by a callback, which writes to a stream; it may throw. The functions of the logger are
  \<open>noexcept\<close>, so \<open>Uncaught_Exception\<close> in the callback ends the process. Line numbers are positive.
\<close>

type_synonym log_func = "string \<Rightarrow> string run"

definition CreateLoggingMessage :: "string \<Rightarrow> string \<Rightarrow> nat \<Rightarrow> log_func \<Rightarrow> string run" where
  "CreateLoggingMessage file_name func_name line_no func =
     bind_run (func '''') (\<lambda>msg. Inr (msg @ '' ['' @ file_name @ '':'' @ to_string line_no @ '']''))"

definition LogDltMessage ::
    "(DltLogLevel \<Rightarrow> bool) \<Rightarrow> DltLogLevel \<Rightarrow> string \<Rightarrow> string \<Rightarrow> nat \<Rightarrow> log_func \<Rightarrow> log_output \<Rightarrow> log_output run" where
  "LogDltMessage enabled log_level file_name func_name line_no func out =
     (if enabled log_level then
        bind_run (CreateLoggingMessage file_name func_name line_no func) (\<lambda>m.
          Inr (out\<lparr>dlt_calls := dlt_calls out @ [DLT_LOG log_level m]\<rparr>))
      else Inr out)"

definition LogMessageToStdOutput :: "string \<Rightarrow> string \<Rightarrow> nat \<Rightarrow> log_func \<Rightarrow> log_output \<Rightarrow> log_output run" where
  "LogMessageToStdOutput file_name func_name line_no func out =
     bind_run (CreateLoggingMessage file_name func_name line_no func) (\<lambda>m. Inr (out\<lparr>cout := cout out @ [m]\<rparr>))"

definition LogFatal :: "log_build \<Rightarrow> string \<Rightarrow> nat \<Rightarrow> string \<Rightarrow> log_func \<Rightarrow> log_output \<Rightarrow> log_output run" where
  "LogFatal build file_name line_no func_name func out =
     (case build of Dlt enabled \<Rightarrow> LogDltMessage enabled DLT_LOG_FATAL file_name func_name line_no func out
      | Standard_Output \<Rightarrow> LogMessageToStdOutput file_name func_name line_no func out)"

definition LogFatalAndTerminate :: "log_build \<Rightarrow> string \<Rightarrow> nat \<Rightarrow> string \<Rightarrow> log_func \<Rightarrow> log_output \<Rightarrow> unit run" where
  "LogFatalAndTerminate build file_name line_no func_name func out =
     bind_run
       (case build of Dlt enabled \<Rightarrow> LogDltMessage enabled DLT_LOG_FATAL file_name func_name line_no func out
        | Standard_Output \<Rightarrow> LogMessageToStdOutput file_name func_name line_no func out)
       (\<lambda>out'. Inl Fatal_Error)"

definition LogError :: "log_build \<Rightarrow> string \<Rightarrow> nat \<Rightarrow> string \<Rightarrow> log_func \<Rightarrow> log_output \<Rightarrow> log_output run" where
  "LogError build file_name line_no func_name func out =
     (case build of Dlt enabled \<Rightarrow> LogDltMessage enabled DLT_LOG_ERROR file_name func_name line_no func out
      | Standard_Output \<Rightarrow> LogMessageToStdOutput file_name func_name line_no func out)"

definition LogWarn :: "log_build \<Rightarrow> string \<Rightarrow> nat \<Rightarrow> string \<Rightarrow> log_func \<Rightarrow> log_output \<Rightarrow> log_output run" where
  "LogWarn build file_name line_no func_name func out =
     (case build of Dlt enabled \<Rightarrow> LogDltMessage enabled DLT_LOG_WARN file_name func_name line_no func out
      | Standard_Output \<Rightarrow> LogMessageToStdOutput file_name func_name line_no func out)"

definition LogInfo :: "log_build \<Rightarrow> string \<Rightarrow> nat \<Rightarrow> string \<Rightarrow> log_func \<Rightarrow> log_output \<Rightarrow> log_output run" where
  "LogInfo build file_name line_no func_name func out =
     (case build of Dlt enabled \<Rightarrow> LogDltMessage enabled DLT_LOG_INFO file_name func_name line_no func out
      | Standard_Output \<Rightarrow> LogMessageToStdOutput file_name func_name line_no func out)"

definition LogDebug :: "log_build \<Rightarrow> string \<Rightarrow> nat \<Rightarrow> string \<Rightarrow> log_func \<Rightarrow> log_output \<Rightarrow> log_output run" where
  "LogDebug build file_name line_no func_name func out =
     (case build of Dlt enabled \<Rightarrow> LogDltMessage enabled DLT_LOG_DEBUG file_name func_name line_no func out
      | Standard_Output \<Rightarrow> LogMessageToStdOutput file_name func_name line_no func out)"

definition LogVerbose :: "log_build \<Rightarrow> string \<Rightarrow> nat \<Rightarrow> string \<Rightarrow> log_func \<Rightarrow> log_output \<Rightarrow> log_output run" where
  "LogVerbose build file_name line_no func_name func out =
     (case build of Dlt enabled \<Rightarrow> LogDltMessage enabled DLT_LOG_VERBOSE file_name func_name line_no func out
      | Standard_Output \<Rightarrow> LogMessageToStdOutput file_name func_name line_no func out)"

section \<open>Facts\<close>

text \<open>Whether the callback of a message of this level is run at all.\<close>

definition builds :: "log_build \<Rightarrow> DltLogLevel \<Rightarrow> bool" where
  "builds build level = (case build of Standard_Output \<Rightarrow> True | Dlt enabled \<Rightarrow> enabled level)"

lemmas log_functions = LogFatal_def LogError_def LogWarn_def LogInfo_def LogDebug_def LogVerbose_def

lemma LogDebug_fault_iff:
  "LogDebug build file_name line_no func_name func out = Inl e \<longleftrightarrow> builds build DLT_LOG_DEBUG \<and> func '''' = Inl e"
  by (cases "func ''''")
     (auto simp: LogDebug_def LogDltMessage_def LogMessageToStdOutput_def CreateLoggingMessage_def builds_def
        split: log_build.splits)

lemma LogFatalAndTerminate_never_returns:
  "func '''' = Inr m \<Longrightarrow> LogFatalAndTerminate build file_name line_no func_name func out = Inl Fatal_Error"
  by (auto simp: LogFatalAndTerminate_def LogDltMessage_def LogMessageToStdOutput_def CreateLoggingMessage_def
      split: log_build.splits)

text \<open>A logger that is created and destroyed takes its registrations back, the context before the application.\<close>

lemma Logger_registrations:
  "dlt_calls (delete_Logger (Dlt enabled) (fst (new_Logger (Dlt enabled) ctx out)) (snd (new_Logger (Dlt enabled) ctx out))) =
     dlt_calls out @ [DLT_REGISTER_CONTEXT ctx ''Application Context'', DLT_UNREGISTER_CONTEXT]"
  "dlt_calls (delete_Logger (Dlt enabled) (fst (new_Logger_with_app (Dlt enabled) app ctx out))
       (snd (new_Logger_with_app (Dlt enabled) app ctx out))) =
     dlt_calls out @ [DLT_REGISTER_APP app ''Application Id'', DLT_REGISTER_CONTEXT ctx ''Application Context'',
       DLT_UNREGISTER_CONTEXT, DLT_UNREGISTER_APP]"
  by (simp_all add: delete_Logger_def new_Logger_def new_Logger_with_app_def dlt_trace_def)

end
