(* ===== verification/Tls_Transport.thy ===== *)
theory Tls_Transport
  imports Tcp_Transport Utility_Logger
begin

text \<open>
  The rest of \<open>lib/boost-support\<close> around the sockets: the TLS socket (\<open>socket/tls/tls_socket.cpp\<close>) with
  the client on it (\<open>client/tls/tls_client.cpp\<close>), the TLS settings (\<open>socket/tls/tls_context.cpp\<close>), and the
  server side of both transports (\<open>connection/tcp/tcp_connection.h\<close>, the server specialisation,
  \<open>server/tcp\<close> and \<open>server/tls\<close>).
\<close>

section \<open>TLS socket\<close>

datatype TlsSocketError =
  tls_kOpenFailed | tls_kBindingFailed | tls_kRemoteDisconnected | tls_kTlsHandshakeFailed | tls_kGenericError

text \<open>
  Below the stream is a TCP socket, whose calls are those of \<open>asio_io\<close>; what the stream adds is a
  parameter as well: whether the handshake, the shutdown of the stream and a write to it succeed.
\<close>

record asio_tls =
  lowest_layer :: asio_io
  ssl_handshake :: bool
  ssl_shutdown :: bool
  ssl_write :: "bytes \<Rightarrow> bool"

text \<open>The constructor of the client's socket reads the local address.\<close>

definition new_TlsSocket :: "asio_tls \<Rightarrow> string \<Rightarrow> u16 \<Rightarrow> (string \<times> u16) run" where
  "new_TlsSocket tls local_ip_address local_port_num =
     bind_run (no_throw (asio_address (lowest_layer tls) local_ip_address)) (\<lambda>_. Inr (local_ip_address, local_port_num))"

definition TlsSocket_Open :: "asio_tls \<Rightarrow> (unit, TlsSocketError) Result run" where
  "TlsSocket_Open tls =
     (let io = lowest_layer tls; result = FromError tls_kGenericError in
      if asio_open io then
        bind_run (no_throw (asio_options io)) (\<lambda>_.
          if asio_bind io then
            bind_run (no_throw (asio_local_endpoint io)) (\<lambda>_. Inr (EmplaceValue () result))
          else Inr (EmplaceError tls_kBindingFailed result))
      else Inr (EmplaceError tls_kOpenFailed result))"

definition TlsSocket_Connect :: "asio_tls \<Rightarrow> string \<Rightarrow> u16 \<Rightarrow> (unit, TlsSocketError) Result run" where
  "TlsSocket_Connect tls host_ip port =
     (let io = lowest_layer tls; result = FromError tls_kGenericError in
      bind_run (no_throw (asio_address io host_ip)) (\<lambda>_.
        if asio_connect io host_ip port then
          bind_run (no_throw (asio_endpoint_connected io)) (\<lambda>_.
            Inr (if ssl_handshake tls then EmplaceValue () result else EmplaceError tls_kTlsHandshakeFailed result))
        else Inr result))"

definition TlsSocket_Disconnect :: "asio_tls \<Rightarrow> (unit, TlsSocketError) Result" where
  "TlsSocket_Disconnect tls =
     (let result = FromError tls_kGenericError in if ssl_shutdown tls then EmplaceValue () result else result)"

definition TlsSocket_Transmit :: "asio_tls \<Rightarrow> bytes \<Rightarrow> (unit, TlsSocketError) Result run" where
  "TlsSocket_Transmit tls tcp_message =
     (let result = FromError tls_kGenericError in
      if ssl_write tls tcp_message then
        bind_run (no_throw (asio_endpoint_written (lowest_layer tls) tcp_message)) (\<lambda>_. Inr (EmplaceValue () result))
      else Inr result)"

definition TlsSocket_Close :: "asio_tls \<Rightarrow> (unit, TlsSocketError) Result run" where
  "TlsSocket_Close tls =
     bind_run (no_throw (asio_close (lowest_layer tls))) (\<lambda>_. Inr (EmplaceValue () (FromError tls_kGenericError)))"

text \<open>
  The read clears the number of bytes to come before it enlarges the buffer and reads them. The
  buffer then ends where the body should start, and the standard leaves \<open>operator[]\<close> undefined there:
  an implementation that checks it ends the process, one that does not (\<open>past_end_ok\<close>) yields the address
  past the end, to which the second read transfers no bytes.
\<close>

definition TlsSocket_Read ::
    "bool \<Rightarrow> 's asio_read \<Rightarrow> 's asio_peer \<Rightarrow> 's \<Rightarrow> ((tcp_message, TlsSocketError) Result \<times> 's) run" where
  "TlsSocket_Read past_end_ok rd peer s =
     (let result = FromError tls_kRemoteDisconnected;
          rx_buffer = vector_resize kDoipheadrSize [];
          (ec, hdr, s1) = rd kDoipheadrSize s;
          rx_buffer = read_into 0 hdr rx_buffer
      in if ec = ec_success then
           (let n = read_next_bytes rx_buffer in
            if n \<noteq> 0 then
              (case peer s1 of
                 None \<Rightarrow> Inl Uncaught_Exception
               | Some (ip, port) \<Rightarrow>
                   let n = 0; rx_buffer = vector_resize (kDoipheadrSize + n) rx_buffer in
                   if past_end_ok \<or> kDoipheadrSize < length rx_buffer then
                     (let (ec2, body, s2) = rd n s1;
                          rx_buffer = read_into kDoipheadrSize body rx_buffer
                      in Inr (EmplaceValue (ip, port, rx_buffer) result, s2))
                   else Inl Vector_Out_Of_Bounds)
            else Inr (result, s1))
         else Inr (result, s1))"

section \<open>TLS client\<close>

text \<open>The connection is the template of the TCP client, with the TLS socket in place of the TCP socket.\<close>

definition TlsConnection_Initialize :: "asio_tls \<Rightarrow> 'a tcp_client_scheme \<Rightarrow> 'a tcp_client_scheme run" where
  "TlsConnection_Initialize tls w =
     bind_run (TlsSocket_Open tls) (\<lambda>_. Inr (w\<lparr>reader_started := True\<rparr>))"

definition TlsConnection_DeInitialize :: "asio_tls \<Rightarrow> 'a tcp_client_scheme \<Rightarrow> 'a tcp_client_scheme run" where
  "TlsConnection_DeInitialize tls w =
     bind_run (TlsSocket_Close tls) (\<lambda>_.
       Inr (w\<lparr>exit_reader := True, running := False, reader_started := False\<rparr>))"

definition TlsConnection_ConnectToHost ::
    "asio_tls \<Rightarrow> string \<Rightarrow> u16 \<Rightarrow> 'a tcp_client_scheme \<Rightarrow> (bool \<times> 'a tcp_client_scheme) run" where
  "TlsConnection_ConnectToHost tls host_ip port w =
     bind_run (TlsSocket_Connect tls host_ip port) (\<lambda>c.
       case AndThen_void c (\<lambda>w. w\<lparr>running := True\<rparr>) w of (w', r) \<Rightarrow> Inr (HasValue r, w'))"

definition TlsConnection_DisconnectFromHost :: "asio_tls \<Rightarrow> 'a tcp_client_scheme \<Rightarrow> 'a tcp_client_scheme" where
  "TlsConnection_DisconnectFromHost tls w = (let w' = w\<lparr>running := False\<rparr>; _ = TlsSocket_Disconnect tls in w')"

definition TlsConnection_Transmit ::
    "asio_tls \<Rightarrow> bytes \<Rightarrow> 'a tcp_client_scheme \<Rightarrow> ((unit, ErrorCode) Result \<times> 'a tcp_client_scheme) run" where
  "TlsConnection_Transmit tls frame w =
     bind_run (TlsSocket_Transmit tls frame) (\<lambda>r.
     bind_run (MapError_void r (\<lambda>_. bs_MakeErrorCode bs_kSocketError 0)) (\<lambda>r'.
       Inr (r', if HasValue r then w\<lparr>sent := sent w @ [frame]\<rparr> else w)))"

definition TlsClient_Initialize :: "asio_tls \<Rightarrow> 'a tcp_client_scheme \<Rightarrow> 'a tcp_client_scheme run" where
  "TlsClient_Initialize tls w = TlsConnection_Initialize tls w"

definition TlsClient_DeInitialize :: "asio_tls \<Rightarrow> 'a tcp_client_scheme \<Rightarrow> 'a tcp_client_scheme run" where
  "TlsClient_DeInitialize tls w = TlsConnection_DeInitialize tls w"

definition TlsClient_ConnectToHost ::
    "asio_tls \<Rightarrow> string \<Rightarrow> u16 \<Rightarrow> 'a tcp_client_scheme \<Rightarrow> ((unit, ErrorCode) Result \<times> 'a tcp_client_scheme) run" where
  "TlsClient_ConnectToHost tls host_ip port w =
     (let result = FromError (bs_MakeErrorCode bs_kSocketError 0) in
      if connection_state w \<noteq> kConnected then
        bind_run (TlsConnection_ConnectToHost tls host_ip port w) (\<lambda>(ok, w').
          Inr (if ok then (EmplaceValue () result, w'\<lparr>connection_state := kConnected\<rparr>) else (result, w')))
      else Inr (EmplaceValue () result, w))"

definition TlsClient_DisconnectFromHost ::
    "asio_tls \<Rightarrow> 'a tcp_client_scheme \<Rightarrow> (unit, ErrorCode) Result \<times> 'a tcp_client_scheme" where
  "TlsClient_DisconnectFromHost tls w =
     (let result = FromError (bs_MakeErrorCode bs_kSocketError 0) in
      if connection_state w = kConnected then
        (EmplaceValue () result, (TlsConnection_DisconnectFromHost tls w)\<lparr>connection_state := kDisconnected\<rparr>)
      else (result, w))"

definition TlsClient_IsConnectedToHost :: "'a tcp_client_scheme \<Rightarrow> bool" where
  "TlsClient_IsConnectedToHost w \<longleftrightarrow> connection_state w = kConnected"

definition TlsClient_Transmit ::
    "asio_tls \<Rightarrow> bytes \<Rightarrow> 'a tcp_client_scheme \<Rightarrow> ((unit, ErrorCode) Result \<times> 'a tcp_client_scheme) run" where
  "TlsClient_Transmit tls frame w =
     (let result = FromError (bs_MakeErrorCode bs_kGenericError 0) in
      if connection_state w = kConnected then
        bind_run (TlsConnection_Transmit tls frame w) (\<lambda>(r, w').
          Inr (if HasValue r then (EmplaceValue () result, w') else (result, w')))
      else Inr (result, w))"

text \<open>The name of a client is not given to its connection, which keeps the bare name.\<close>

definition AppendIpAddressAndPort :: "string \<Rightarrow> string \<Rightarrow> u16 \<Rightarrow> string" where
  "AppendIpAddressAndPort client_name ip_address port_num =
     client_name @ ''_'' @ ip_address @ ''_'' @ to_string (unat port_num)"


section \<open>Servers\<close>

text \<open>
  The server specialisation of the connection starts reading as soon as it is initialised. \<open>read\<close> is
  the read of the socket, a TCP or a TLS socket.
\<close>

record tcp_server =
  server_name :: string
  srv_running :: bool
  srv_exit_request :: bool
  srv_thread_started :: bool
  srv_sent :: "bytes list"

definition new_TcpServer :: "string \<Rightarrow> tcp_server" where
  "new_TcpServer name = \<lparr>server_name = name, srv_running = False, srv_exit_request = False,
     srv_thread_started = False, srv_sent = []\<rparr>"

definition TcpServer_Initialize :: "tcp_server \<Rightarrow> tcp_server" where
  "TcpServer_Initialize w = w\<lparr>srv_thread_started := True, srv_running := True\<rparr>"

definition TcpServer_DeInitialize :: "('e, 'f) Result run \<Rightarrow> tcp_server \<Rightarrow> tcp_server run" where
  "TcpServer_DeInitialize socket_close w =
     bind_run socket_close (\<lambda>_.
       Inr (w\<lparr>srv_exit_request := True, srv_running := False, srv_thread_started := False\<rparr>))"

definition TcpServer_Transmit ::
    "(bytes \<Rightarrow> (unit, 'e) Result run) \<Rightarrow> bytes \<Rightarrow> tcp_server \<Rightarrow> ((unit, ErrorCode) Result \<times> tcp_server) run" where
  "TcpServer_Transmit socket_transmit message w =
     bind_run (socket_transmit message) (\<lambda>r.
     bind_run (MapError_void r (\<lambda>_. bs_MakeErrorCode bs_kSocketError 0)) (\<lambda>r'.
       Inr (r', if HasValue r then w\<lparr>srv_sent := srv_sent w @ [message]\<rparr> else w)))"

definition server_ReadMessage ::
    "('s \<Rightarrow> ((tcp_message, 'e) Result \<times> 's) run) \<Rightarrow> (tcp_message \<Rightarrow> 'w \<Rightarrow> 'w run) option \<Rightarrow> 's \<Rightarrow> 'w \<Rightarrow>
     (bool \<times> 's \<times> 'w) run" where
  "server_ReadMessage read handler_read s w =
     bind_run (read s) (\<lambda>(r, s').
       case r of
         FromValue tcp_message \<Rightarrow>
           (case handler_read of
              Some h \<Rightarrow> bind_run (h tcp_message w) (\<lambda>w'. Inr (True, s', w'))
            | None \<Rightarrow> Inr (True, s', w))
       | FromError e \<Rightarrow> Inr (False, s', w))"

fun server_thread ::
    "nat \<Rightarrow> ('s \<Rightarrow> ((tcp_message, 'e) Result \<times> 's) run) \<Rightarrow> (tcp_message \<Rightarrow> tcp_server \<Rightarrow> tcp_server run) option \<Rightarrow>
     's \<Rightarrow> tcp_server \<Rightarrow> ('s \<times> tcp_server) run" where
  "server_thread 0 read handler s w = Inr (s, w)"
| "server_thread (Suc n) read handler s w =
     (if \<not> srv_exit_request w \<and> srv_running w then
        bind_run (server_ReadMessage read handler s w) (\<lambda>(ok, s', w').
          server_thread n read handler s' (w'\<lparr>srv_running := ok\<rparr>))
      else Inr (s, w))"

section \<open>Acceptors\<close>

definition CreateServerName :: "string \<Rightarrow> u16 \<Rightarrow> string" where
  "CreateServerName name server_count = name @ to_string (unat server_count)"

record acceptor =
  server_count :: u16
  acceptor_name :: string

text \<open>
  Reading the local address and binding to it (\<open>bind_ok\<close>) and listening throw when they fail, in a constructor
  that is \<open>noexcept\<close>.
\<close>

definition new_acceptor :: "bool \<Rightarrow> bool \<Rightarrow> string \<Rightarrow> acceptor run" where
  "new_acceptor bind_ok listen_ok name =
     bind_run (no_throw bind_ok) (\<lambda>_. bind_run (no_throw listen_ok) (\<lambda>_.
       Inr \<lparr>server_count = 0, acceptor_name = name\<rparr>))"

text \<open>
  \<open>accepted\<close> is whether the blocking accept succeeded. The socket of a TCP server asks for its local
  endpoint in its constructor, which is \<open>noexcept\<close>.
\<close>

definition GetTcpServer :: "bool \<Rightarrow> bool \<Rightarrow> acceptor \<Rightarrow> (tcp_server option \<times> acceptor) run" where
  "GetTcpServer local_endpoint_ok accepted a =
     (if accepted then
        bind_run (no_throw local_endpoint_ok) (\<lambda>_.
          Inr (Some (new_TcpServer (CreateServerName (acceptor_name a) (server_count a))),
               a\<lparr>server_count := server_count a + 1\<rparr>))
      else Inr (None, a))"

text \<open>
  A TLS acceptor also does the handshake, in the constructor of the socket. A handshake that fails is
  logged and the server handed out all the same.
\<close>

definition GetTlsServer :: "bool \<Rightarrow> bool \<Rightarrow> acceptor \<Rightarrow> tcp_server option \<times> acceptor" where
  "GetTlsServer accepted handshake_ok a =
     (if accepted then
        let _ = handshake_ok in
        (Some (new_TcpServer (CreateServerName (acceptor_name a) (server_count a))), a\<lparr>server_count := server_count a + 1\<rparr>)
      else (None, a))"

section \<open>TLS settings\<close>

text \<open>Clients and servers have the same cipher suites.\<close>

datatype Tls12CipherSuites =
    TLS_ECDHE_ECDSA_WITH_AES_128_GCM_SHA256 | TLS_ECDHE_ECDSA_WITH_AES_256_GCM_SHA384
  | TLS_ECDHE_ECDSA_WITH_CHACHA20_POLY1305_SHA256 | TLS_ECDHE_ECDSA_WITH_AES_128_CBC_SHA256
  | TLS_ECDHE_ECDSA_WITH_AES_256_CBC_SHA384

datatype Tls13CipherSuites =
    TLS_AES_128_GCM_SHA256 | TLS_AES_256_GCM_SHA384 | TLS_CHACHA20_POLY1305_SHA256
  | TLS_AES_128_CCM_SHA256 | TLS_AES_128_CCM_8_SHA256

fun ToOpenSslString12 :: "Tls12CipherSuites \<Rightarrow> string" where
  "ToOpenSslString12 TLS_ECDHE_ECDSA_WITH_AES_128_GCM_SHA256 = ''ECDHE-ECDSA-AES128-GCM-SHA256''"
| "ToOpenSslString12 TLS_ECDHE_ECDSA_WITH_AES_256_GCM_SHA384 = ''ECDHE-ECDSA-AES256-GCM-SHA384''"
| "ToOpenSslString12 TLS_ECDHE_ECDSA_WITH_CHACHA20_POLY1305_SHA256 = ''ECDHE-ECDSA-CHACHA20-POLY1305''"
| "ToOpenSslString12 TLS_ECDHE_ECDSA_WITH_AES_128_CBC_SHA256 = ''ECDHE-ECDSA-AES128-SHA256''"
| "ToOpenSslString12 TLS_ECDHE_ECDSA_WITH_AES_256_CBC_SHA384 = ''ECDHE-ECDSA-AES256-SHA384''"

fun ToOpenSslString13 :: "Tls13CipherSuites \<Rightarrow> string" where
  "ToOpenSslString13 TLS_AES_128_GCM_SHA256 = ''TLS_AES_128_GCM_SHA256''"
| "ToOpenSslString13 TLS_AES_256_GCM_SHA384 = ''TLS_AES_256_GCM_SHA384''"
| "ToOpenSslString13 TLS_CHACHA20_POLY1305_SHA256 = ''TLS_CHACHA20_POLY1305_SHA256''"
| "ToOpenSslString13 TLS_AES_128_CCM_SHA256 = ''TLS_AES_128_CCM_SHA256''"
| "ToOpenSslString13 TLS_AES_128_CCM_8_SHA256 = ''TLS_AES_128_CCM_8_SHA256''"

definition ConvertCipherListToString :: "('c \<Rightarrow> string) \<Rightarrow> 'c list \<Rightarrow> string" where
  "ConvertCipherListToString ToOpenSslString ciphers =
     foldl (\<lambda>result cipher.
       if result = [] then ToOpenSslString cipher else result @ '':'' @ ToOpenSslString cipher) [] ciphers"

text \<open>
  OpenSSL is a parameter: which files it can load, and which lists its two setters accept. The first
  sets the suites up to TLS 1.2, the second those of TLS 1.3; the result of either is ignored. A context
  holds the list each setter last accepted.
\<close>

record openssl =
  load_verify_file :: "string \<Rightarrow> bool"
  use_certificate_chain_file :: "string \<Rightarrow> bool"
  use_private_key_file :: "string \<Rightarrow> bool"
  SSL_CTX_set_cipher_list :: "string \<Rightarrow> bool"
  SSL_CTX_set_ciphersuites :: "string \<Rightarrow> bool"

record tls_context =
  ctx_cipher_list :: "string option"
  ctx_ciphersuites :: "string option"

definition set_cipher_list :: "openssl \<Rightarrow> string \<Rightarrow> tls_context \<Rightarrow> tls_context" where
  "set_cipher_list ssl s c = (if SSL_CTX_set_cipher_list ssl s then c\<lparr>ctx_cipher_list := Some s\<rparr> else c)"

definition set_ciphersuites :: "openssl \<Rightarrow> string \<Rightarrow> tls_context \<Rightarrow> tls_context" where
  "set_ciphersuites ssl s c = (if SSL_CTX_set_ciphersuites ssl s then c\<lparr>ctx_ciphersuites := Some s\<rparr> else c)"

definition fresh_context :: tls_context where
  "fresh_context = \<lparr>ctx_cipher_list = None, ctx_ciphersuites = None\<rparr>"

definition TlsContext_Tls12Client :: "openssl \<Rightarrow> Tls12CipherSuites list \<Rightarrow> string \<Rightarrow> tls_context run" where
  "TlsContext_Tls12Client ssl cipher_suites ca_certification_path =
     bind_run (no_throw (load_verify_file ssl ca_certification_path)) (\<lambda>_.
       Inr (set_cipher_list ssl (ConvertCipherListToString ToOpenSslString12 cipher_suites) fresh_context))"

definition TlsContext_Tls13Client :: "openssl \<Rightarrow> Tls13CipherSuites list \<Rightarrow> string \<Rightarrow> tls_context run" where
  "TlsContext_Tls13Client ssl cipher_suites ca_certification_path =
     bind_run (no_throw (load_verify_file ssl ca_certification_path)) (\<lambda>_.
       Inr (set_ciphersuites ssl (ConvertCipherListToString ToOpenSslString13 cipher_suites) fresh_context))"

definition TlsContext_Tls12Server :: "openssl \<Rightarrow> Tls12CipherSuites list \<Rightarrow> string \<Rightarrow> string \<Rightarrow> tls_context run" where
  "TlsContext_Tls12Server ssl cipher_suites certificate_path private_key_path =
     bind_run (no_throw (use_certificate_chain_file ssl certificate_path)) (\<lambda>_.
     bind_run (no_throw (use_private_key_file ssl private_key_path)) (\<lambda>_.
       Inr (set_ciphersuites ssl (ConvertCipherListToString ToOpenSslString12 cipher_suites) fresh_context)))"

definition TlsContext_Tls13Server :: "openssl \<Rightarrow> Tls13CipherSuites list \<Rightarrow> string \<Rightarrow> string \<Rightarrow> tls_context run" where
  "TlsContext_Tls13Server ssl cipher_suites certificate_path private_key_path =
     bind_run (no_throw (use_certificate_chain_file ssl certificate_path)) (\<lambda>_.
     bind_run (no_throw (use_private_key_file ssl private_key_path)) (\<lambda>_.
       Inr (set_ciphersuites ssl (ConvertCipherListToString ToOpenSslString13 cipher_suites) fresh_context)))"

end
