(* ===== verification/Utility_State.thy ===== *)
theory Utility_State
  imports Core_Result
begin

text \<open>
  \<open>lib/utility-support\<close>: the state context every handler keeps its protocol state in
  (\<open>utility/state.h\<close>) and the synchronous timer a caller blocks on until a response arrives or
  the time is up (\<open>utility/sync_timer.h\<close>), with the contracts the handlers rely on stated as
  locales.
\<close>

section \<open>State context\<close>

text \<open>
  The map from a state to its object is the list of the registered states; the pointer to the
  active object is the state it points to, or nothing before the first transition.
\<close>

record 'e StateContext =
  current_state :: "'e option"
  state_map :: "'e list"

definition new_StateContext :: "'e StateContext" where
  "new_StateContext = \<lparr>current_state = None, state_map = []\<rparr>"

text \<open>\<open>std::map::insert\<close> keeps the object that is already there.\<close>

definition AddState :: "'e \<Rightarrow> 'e StateContext \<Rightarrow> 'e StateContext" where
  "AddState s c = (if s \<in> set (state_map c) then c else c\<lparr>state_map := state_map c @ [s]\<rparr>)"

definition GetActiveState :: "'e StateContext \<Rightarrow> 'e run" where
  "GetActiveState c = (case current_state c of None \<Rightarrow> Inl Null_Dereference | Some s \<Rightarrow> Inr s)"

text \<open>
  The hooks of every state class of the program have an empty body, so entering and leaving a
  state changes nothing but the pointer.
\<close>

definition state_hook :: "'e \<Rightarrow> 'e StateContext \<Rightarrow> 'e StateContext" where
  "state_hook s c = c"

definition Context_Start :: "'e StateContext \<Rightarrow> 'e StateContext" where
  "Context_Start c = (case current_state c of None \<Rightarrow> c | Some s \<Rightarrow> state_hook s c)"

definition Context_Stop :: "'e StateContext \<Rightarrow> 'e StateContext" where
  "Context_Stop c = (case current_state c of None \<Rightarrow> c | Some s \<Rightarrow> state_hook s c)"

definition Context_Update :: "'e \<Rightarrow> 'e StateContext \<Rightarrow> 'e StateContext" where
  "Context_Update s c = (if s \<in> set (state_map c) then c\<lparr>current_state := Some s\<rparr> else c)"

definition TransitionTo :: "'e \<Rightarrow> 'e StateContext \<Rightarrow> 'e StateContext" where
  "TransitionTo s c = Context_Start (Context_Update s (Context_Stop c))"

text \<open>The comparison every handler guards itself with.\<close>

definition in_state :: "'e StateContext \<Rightarrow> 'e \<Rightarrow> bool" where
  "in_state c s \<longleftrightarrow> GetActiveState c = Inr s"

definition registered :: "'e StateContext \<Rightarrow> 'e \<Rightarrow> bool" where
  "registered c s \<longleftrightarrow> s \<in> set (state_map c)"

text \<open>
  A context is well formed when it points to one of its own states: reading the active state
  cannot dereference a null pointer.
\<close>

definition wf_context :: "'e StateContext \<Rightarrow> bool" where
  "wf_context c \<longleftrightarrow> (\<exists>s. current_state c = Some s \<and> registered c s)"

lemma Context_Start_id [ctx_simps, simp]: "Context_Start c = c"
  by (simp add: Context_Start_def state_hook_def split: option.splits)

lemma Context_Stop_id [ctx_simps, simp]: "Context_Stop c = c"
  by (simp add: Context_Stop_def state_hook_def split: option.splits)

lemma state_map_TransitionTo [ctx_simps, simp]: "state_map (TransitionTo s c) = state_map c"
  by (simp add: TransitionTo_def Context_Update_def)

lemma registered_TransitionTo [ctx_simps, simp]: "registered (TransitionTo s c) t = registered c t"
  by (simp add: registered_def)

lemma in_state_TransitionTo [ctx_simps]:
  "registered c s \<Longrightarrow> in_state (TransitionTo s c) t \<longleftrightarrow> s = t"
  by (simp add: TransitionTo_def Context_Update_def in_state_def GetActiveState_def registered_def)

lemma TransitionTo_unregistered [ctx_simps]: "\<not> registered c s \<Longrightarrow> TransitionTo s c = c"
  by (simp add: TransitionTo_def Context_Update_def registered_def)

lemma current_TransitionTo [ctx_simps]:
  "registered c s \<Longrightarrow> current_state (TransitionTo s c) = Some s"
  by (simp add: TransitionTo_def Context_Update_def registered_def)

lemma TransitionTo_TransitionTo [ctx_simps]:
  "registered c s \<Longrightarrow> registered c t \<Longrightarrow> TransitionTo t (TransitionTo s c) = TransitionTo t c"
  by (simp add: TransitionTo_def Context_Update_def registered_def)

lemma wf_context_TransitionTo [intro]: "wf_context c \<Longrightarrow> wf_context (TransitionTo s c)"
  by (cases "registered c s") (auto simp: wf_context_def ctx_simps)

lemma wf_context_TransitionTo_registered: "registered c s \<Longrightarrow> wf_context (TransitionTo s c)"
  by (auto simp: wf_context_def ctx_simps)

lemma wf_context_GetActiveState: "wf_context c \<Longrightarrow> \<exists>s. GetActiveState c = Inr s \<and> registered c s"
  by (auto simp: wf_context_def GetActiveState_def)

lemma in_state_current: "in_state c s \<longleftrightarrow> current_state c = Some s"
  by (simp add: in_state_def GetActiveState_def split: option.splits)

lemma in_state_unique: "in_state c s \<Longrightarrow> in_state c t \<Longrightarrow> s = t"
  by (simp add: in_state_current)

lemma registered_AddState [ctx_simps, simp]: "registered (AddState s c) t \<longleftrightarrow> s = t \<or> registered c t"
  by (auto simp: AddState_def registered_def)

lemma registered_new [ctx_simps, simp]: "\<not> registered new_StateContext s"
  by (simp add: registered_def new_StateContext_def)

text \<open>
  What a handler needs of the object that keeps its protocol state: a transition to a state the
  object knows is what the next query sees, one to a state it does not know changes nothing, and
  transitions never change which states are known.
\<close>

locale protocol_context =
  fixes active :: "'c \<Rightarrow> 'e \<Rightarrow> bool"
    and goto :: "'e \<Rightarrow> 'c \<Rightarrow> 'c"
    and known :: "'c \<Rightarrow> 'e \<Rightarrow> bool"
  assumes active_goto: "known c s \<Longrightarrow> active (goto s c) t \<longleftrightarrow> s = t"
    and goto_unknown: "\<not> known c s \<Longrightarrow> goto s c = c"
    and known_goto: "known (goto s c) t = known c t"
    and active_unique: "active c s \<Longrightarrow> active c t \<Longrightarrow> s = t"
begin

lemma known_fold_goto: "known (fold goto ss c) t = known c t"
  by (induction ss arbitrary: c) (simp_all add: known_goto)

lemma last_goto_wins:
  "known c s \<Longrightarrow> active (fold goto (ss @ [s]) c) t \<longleftrightarrow> s = t"
  by (simp add: active_goto known_fold_goto)

lemma gotos_stay_known:
  assumes "active c s" and "known c s" and "active (fold goto ss c) t"
  shows "known c t"
  using assms
proof (induction ss arbitrary: c s)
  case Nil
  then show ?case using active_unique by auto
next
  case (Cons u ss)
  show ?case
  proof (cases "known c u")
    case True
    then have "active (goto u c) u" by (simp add: active_goto)
    with Cons True show ?thesis by (fastforce simp: known_goto)
  next
    case False
    with Cons show ?thesis by (simp add: goto_unknown)
  qed
qed

end

interpretation context_laws: protocol_context in_state TransitionTo registered
  by unfold_locales (auto simp: ctx_simps dest: in_state_unique)

section \<open>Synchronous timer\<close>

datatype TimerState = kTimerIdle | kCancelRequested | kTimeout

record SyncTimer =
  exit_request :: bool
  start_running :: bool

definition new_SyncTimer :: SyncTimer where
  "new_SyncTimer = \<lparr>exit_request = False, start_running = False\<rparr>"

definition IsTimerActive :: "SyncTimer \<Rightarrow> bool" where
  "IsTimerActive tm = start_running tm"

definition SyncTimer_Stop :: "SyncTimer \<Rightarrow> SyncTimer" where
  "SyncTimer_Stop tm = tm\<lparr>start_running := False\<rparr>"

definition CancelWait :: "SyncTimer \<Rightarrow> SyncTimer" where
  "CancelWait tm = SyncTimer_Stop tm"

definition SyncTimer_arm :: "SyncTimer \<Rightarrow> SyncTimer" where
  "SyncTimer_arm tm = tm\<lparr>start_running := True\<rparr>"

text \<open>
  The predicate of the wait, evaluated at the clock reading \<open>now\<close>: whether the wait is over,
  and the timer state it leaves. Expiry is looked at before cancellation.
\<close>

definition wait_predicate :: "SyncTimer \<Rightarrow> nat \<Rightarrow> nat \<Rightarrow> bool \<times> TimerState" where
  "wait_predicate tm now expiry_time_point =
     (if \<not> exit_request tm then
        (if expiry_time_point \<le> now then (True, kTimeout)
         else if \<not> start_running tm then (True, kCancelRequested)
         else (False, kTimerIdle))
      else (True, kTimerIdle))"

text \<open>
  The wait itself. What the other threads do while the caller is blocked is a schedule: a list of
  batches, each a clock reading and the actions performed up to it. The caller evaluates the
  predicate when it starts and after each batch (a notification, a spurious wake-up or the
  expiry of the wait; a batch can hold any number of actions, as the caller need not be woken
  after each). \<open>timer_of\<close> reads the timer in the shared state \<open>w\<close>, \<open>step\<close> performs an
  action on it. The result is the timer state, the time, the shared state and the rest of the
  schedule; if the schedule ends first, the call is still blocked.
\<close>

fun wait_until :: "('w \<Rightarrow> SyncTimer) \<Rightarrow> ('ev \<Rightarrow> 'w \<Rightarrow> 'w run) \<Rightarrow> nat \<Rightarrow> nat \<Rightarrow> 'w \<Rightarrow>
    (nat \<times> 'ev list) list \<Rightarrow> (TimerState \<times> nat \<times> 'w \<times> (nat \<times> 'ev list) list) call" where
  "wait_until timer_of step expiry now w [] =
     (if fst (wait_predicate (timer_of w) now expiry)
      then Returns (snd (wait_predicate (timer_of w) now expiry), now, w, []) else Blocks)"
| "wait_until timer_of step expiry now w ((t, es) # evs) =
     (if fst (wait_predicate (timer_of w) now expiry)
      then Returns (snd (wait_predicate (timer_of w) now expiry), now, w, (t, es) # evs)
      else bind_call (call_of_run (deliver_all step es w))
             (\<lambda>w'. wait_until timer_of step expiry t w' evs))"

text \<open>
  \<open>WaitForTimeout\<close>: arm the timer, wait, and run one of the two callbacks. A callback changes
  the shared state and decides the result \<open>'r\<close> of the call it is part of.
\<close>

definition WaitForTimeout :: "('w \<Rightarrow> SyncTimer) \<Rightarrow> ((SyncTimer \<Rightarrow> SyncTimer) \<Rightarrow> 'w \<Rightarrow> 'w) \<Rightarrow>
    ('ev \<Rightarrow> 'w \<Rightarrow> 'w run) \<Rightarrow> ('w \<Rightarrow> 'r \<times> 'w) \<Rightarrow> ('w \<Rightarrow> 'r \<times> 'w) \<Rightarrow> nat \<Rightarrow> nat \<Rightarrow> 'w \<Rightarrow>
    (nat \<times> 'ev list) list \<Rightarrow> ('r \<times> nat \<times> 'w \<times> (nat \<times> 'ev list) list) call" where
  "WaitForTimeout timer_of timer_update step timeout_func cancellation_func timeout now w evs =
     map_call
       (\<lambda>(ts, t, w', rest).
          (let rw = (if ts = kTimeout then timeout_func w' else cancellation_func w')
           in (fst rw, t, snd rw, rest)))
       (wait_until timer_of step (now + timeout) now (timer_update SyncTimer_arm w) evs)"

lemma timer_simps [ctx_simps, simp]:
  "start_running (SyncTimer_arm tm)" "exit_request (SyncTimer_arm tm) = exit_request tm"
  "\<not> start_running (CancelWait tm)" "exit_request (CancelWait tm) = exit_request tm"
  "IsTimerActive (SyncTimer_arm tm)" "\<not> IsTimerActive (CancelWait tm)"
  "\<not> exit_request new_SyncTimer" "\<not> start_running new_SyncTimer"
  by (simp_all add: SyncTimer_arm_def CancelWait_def SyncTimer_Stop_def IsTimerActive_def new_SyncTimer_def)

lemma wait_predicate_running:
  "\<not> exit_request tm \<Longrightarrow> start_running tm \<Longrightarrow> now < expiry \<Longrightarrow> \<not> fst (wait_predicate tm now expiry)"
  by (simp add: wait_predicate_def)

lemma wait_predicate_expired:
  "\<not> exit_request tm \<Longrightarrow> expiry \<le> now \<Longrightarrow> wait_predicate tm now expiry = (True, kTimeout)"
  by (simp add: wait_predicate_def)

lemma wait_predicate_cancelled:
  "\<not> exit_request tm \<Longrightarrow> now < expiry \<Longrightarrow> \<not> start_running tm \<Longrightarrow>
   wait_predicate tm now expiry = (True, kCancelRequested)"
  by (simp add: wait_predicate_def)

lemma wait_predicate_timeout_iff:
  "wait_predicate tm now expiry = (True, kTimeout) \<longleftrightarrow> \<not> exit_request tm \<and> expiry \<le> now"
  by (simp add: wait_predicate_def)

definition events_of :: "(nat \<times> 'ev list) list \<Rightarrow> 'ev set" where
  "events_of evs = (\<Union>b \<in> set evs. set (snd b))"

lemma events_of_simps [simp]:
  "events_of [] = {}"
  "events_of ((t, es) # evs) = set es \<union> events_of evs"
  by (simp_all add: events_of_def)

text \<open>
  Whatever the actions of the other threads keep invariant still holds when the wait is over,
  and the timer state is the one the predicate left at the time returned.
\<close>

lemma wait_until_Returns:
  assumes step: "\<And>e w w'. e \<in> E \<Longrightarrow> step e w = Inr w' \<Longrightarrow> P w \<Longrightarrow> P w'"
  shows "wait_until timer_of step expiry now w evs = Returns (ts, t, w', rest) \<Longrightarrow>
    events_of evs \<subseteq> E \<Longrightarrow> P w \<Longrightarrow>
    P w' \<and> wait_predicate (timer_of w') t expiry = (True, ts)"
proof (induction evs arbitrary: now w)
  case Nil
  then show ?case
    by (cases "wait_predicate (timer_of w) now expiry") (auto split: if_splits)
next
  case (Cons b evs)
  obtain t0 es where b: "b = (t0, es)" by (cases b)
  show ?case
  proof (cases "fst (wait_predicate (timer_of w) now expiry)")
    case True
    with Cons.prems b show ?thesis by (cases "wait_predicate (timer_of w) now expiry") auto
  next
    case False
    with Cons.prems(1) b obtain v where v: "deliver_all step es w = Inr v"
      and rec: "wait_until timer_of step expiry t0 v evs = Returns (ts, t, w', rest)"
      by (auto simp: bind_call_Returns_iff call_of_run_Returns_iff)
    have sub: "set es \<subseteq> E" "events_of evs \<subseteq> E" using Cons.prems(2) b by auto
    from step sub(1) v Cons.prems(3) have "P v" by (rule deliver_all_invariant_on)
    with rec sub(2) show ?thesis by (intro Cons.IH)
  qed
qed

lemma wait_until_rest_length:
  "wait_until timer_of step expiry now w evs = Returns (ts, t, w', rest) \<Longrightarrow> length rest \<le> length evs"
proof (induction evs arbitrary: now w)
  case Nil
  then show ?case by (auto split: if_splits)
next
  case (Cons b evs)
  then show ?case
    by (cases b) (fastforce simp: bind_call_Returns_iff split: if_splits)
qed

lemma wait_until_rest_events:
  "wait_until timer_of step expiry now w evs = Returns (ts, t, w', rest) \<Longrightarrow> events_of rest \<subseteq> events_of evs"
proof (induction evs arbitrary: now w)
  case Nil
  then show ?case by (auto split: if_splits)
next
  case (Cons b evs)
  then show ?case
    by (cases b) (fastforce simp: bind_call_Returns_iff split: if_splits)
qed

text \<open>
  A wait that the caller enters with the timer armed and time left, and that does not end by
  expiry, has consumed a batch: only another thread can have cancelled it.
\<close>

lemma wait_until_consumes:
  assumes "wait_until timer_of step expiry now w evs = Returns (ts, t, w', rest)"
    and "\<not> exit_request (timer_of w)" and "start_running (timer_of w)" and "ts \<noteq> kTimeout"
  shows "length rest < length evs"
proof -
  have no: "\<not> fst (wait_predicate (timer_of w) now expiry)"
    using assms by (cases evs) (auto simp: wait_predicate_def split: if_splits)
  with assms(1) obtain t0 es evs' v where "evs = (t0, es) # evs'"
    and "wait_until timer_of step expiry t0 v evs' = Returns (ts, t, w', rest)"
    by (cases evs) (auto simp: bind_call_Returns_iff)
  then show ?thesis using wait_until_rest_length by fastforce
qed

lemma WaitForTimeout_Returns_iff:
  "WaitForTimeout timer_of timer_update step tf cf timeout now w evs = Returns (r, t, w', rest) \<longleftrightarrow>
   (\<exists>ts v. wait_until timer_of step (now + timeout) now (timer_update SyncTimer_arm w) evs
              = Returns (ts, t, v, rest) \<and> (if ts = kTimeout then tf v else cf v) = (r, w'))"
  by (auto simp: WaitForTimeout_def map_call_Returns_iff Let_def split: prod.splits if_splits)
     (metis prod.collapse)+

text \<open>
  The contract between a waiting caller and the threads that run meanwhile: arming acts on the
  timer alone, and no thread ever sets the exit flag (nothing in the program does).
\<close>

locale timed_wait =
  fixes timer_of :: "'w \<Rightarrow> SyncTimer"
    and timer_update :: "(SyncTimer \<Rightarrow> SyncTimer) \<Rightarrow> 'w \<Rightarrow> 'w"
    and step :: "'ev \<Rightarrow> 'w \<Rightarrow> 'w run"
  assumes timer_of_update: "timer_of (timer_update f w) = f (timer_of w)"
    and step_no_exit: "step e w = Inr w' \<Longrightarrow> \<not> exit_request (timer_of w) \<Longrightarrow> \<not> exit_request (timer_of w')"
begin

lemma wait_until_outcome:
  assumes "wait_until timer_of step expiry now w evs = Returns (ts, t, w', rest)"
    and "\<not> exit_request (timer_of w)"
  shows "ts = kTimeout \<longleftrightarrow> expiry \<le> t"
    and "ts \<noteq> kTimeout \<Longrightarrow> ts = kCancelRequested \<and> \<not> start_running (timer_of w')"
proof -
  have "\<not> exit_request (timer_of w') \<and> wait_predicate (timer_of w') t expiry = (True, ts)"
    using wait_until_Returns [of UNIV step "\<lambda>w. \<not> exit_request (timer_of w)", OF _ assms(1)] step_no_exit assms(2)
    by blast
  then show "ts = kTimeout \<longleftrightarrow> expiry \<le> t"
    and "ts \<noteq> kTimeout \<Longrightarrow> ts = kCancelRequested \<and> \<not> start_running (timer_of w')"
    by (auto simp: wait_predicate_def split: if_splits)
qed

text \<open>The wait is bounded: a schedule that reaches the expiry never leaves the caller blocked.\<close>

lemma wait_until_bounded:
  "\<not> exit_request (timer_of w) \<Longrightarrow> (\<exists>b \<in> set evs. expiry \<le> fst b) \<or> expiry \<le> now \<Longrightarrow>
   wait_until timer_of step expiry now w evs \<noteq> Blocks"
proof (induction evs arbitrary: now w)
  case Nil
  then show ?case by (simp add: wait_predicate_expired)
next
  case (Cons b evs)
  obtain t0 es where b: "b = (t0, es)" by (cases b)
  show ?case
  proof (cases "deliver_all step es w")
    case (Inl e)
    then show ?thesis by (simp add: b)
  next
    case (Inr v)
    then have "\<not> exit_request (timer_of v)"
      using deliver_all_invariant [of step "\<lambda>w. \<not> exit_request (timer_of w)"] step_no_exit Cons.prems(1)
      by blast
    with Cons Inr b show ?thesis by (cases "expiry \<le> now") (auto simp: wait_predicate_expired)
  qed
qed

lemma WaitForTimeout_bounded:
  assumes "\<not> exit_request (timer_of w)" and "\<exists>b \<in> set evs. now + timeout \<le> fst b"
  shows "WaitForTimeout timer_of timer_update step tf cf timeout now w evs \<noteq> Blocks"
proof -
  have "wait_until timer_of step (now + timeout) now (timer_update SyncTimer_arm w) evs \<noteq> Blocks"
    using assms by (intro wait_until_bounded) (auto simp: timer_of_update)
  then show ?thesis
    by (cases "wait_until timer_of step (now + timeout) now (timer_update SyncTimer_arm w) evs")
       (auto simp: WaitForTimeout_def)
qed

text \<open>
  The call ends in one of two ways, at a state the other threads can reach from the armed one:
  by expiry, through the timeout callback, or by cancellation before expiry, through the other.
\<close>

lemma WaitForTimeout_cases:
  assumes "WaitForTimeout timer_of timer_update step tf cf timeout now w evs = Returns (r, t, w', rest)"
    and "\<not> exit_request (timer_of w)"
    and "\<And>e w w'. e \<in> E \<Longrightarrow> step e w = Inr w' \<Longrightarrow> P w \<Longrightarrow> P w'" and "events_of evs \<subseteq> E"
    and "P (timer_update SyncTimer_arm w)"
  obtains (Timeout) v where "P v" "now + timeout \<le> t" "tf v = (r, w')"
  | (Cancelled) v where "P v" "t < now + timeout" "\<not> start_running (timer_of v)" "cf v = (r, w')"
proof -
  let ?w = "timer_update SyncTimer_arm w"
  from assms(1) obtain ts v where wt:
      "wait_until timer_of step (now + timeout) now ?w evs = Returns (ts, t, v, rest)"
    and cb: "(if ts = kTimeout then tf v else cf v) = (r, w')"
    by (auto simp: WaitForTimeout_Returns_iff)
  have ex: "\<not> exit_request (timer_of ?w)" using assms(2) by (simp add: timer_of_update)
  have v: "P v"
    by (rule wait_until_Returns [of E step P, THEN conjunct1])
       (rule assms(3), assumption+, rule wt, rule assms(4), rule assms(5))
  show thesis
  proof (cases "ts = kTimeout")
    case True
    with wait_until_outcome(1) [OF wt ex] cb v Timeout show ?thesis by simp
  next
    case False
    with wait_until_outcome [OF wt ex] cb v Cancelled show ?thesis by simp
  qed
qed

text \<open>A wait that one action cancels in time, and one that nothing ends before its expiry.\<close>

lemma WaitForTimeout_cancelled_by:
  assumes "step e (timer_update SyncTimer_arm w) = Inr w'" and "\<not> exit_request (timer_of w)"
    and "\<not> start_running (timer_of w')" and "t < now + timeout" and "0 < timeout"
  shows "WaitForTimeout timer_of timer_update step tf cf timeout now w ((t, [e]) # rest) =
    Returns (fst (cf w'), t, snd (cf w'), rest)"
proof -
  have ex: "\<not> exit_request (timer_of w')"
    using step_no_exit [OF assms(1)] assms(2) by (simp add: timer_of_update)
  then have "wait_until timer_of step (now + timeout) t w' rest = Returns (kCancelRequested, t, w', rest)"
    using assms(3,4) by (cases rest) (auto simp: wait_predicate_def)
  with assms show ?thesis
    by (simp add: WaitForTimeout_def timer_of_update wait_predicate_def Let_def)
qed

text \<open>
  A notification that comes before the timer is armed is lost: if nothing cancels after the
  arming, the wait can only end by expiry, and no other way.
\<close>

lemma no_cancel_means_timeout:
  assumes "WaitForTimeout timer_of timer_update step tf cf timeout now w evs = Returns (r, t, w', rest)"
    and "\<not> exit_request (timer_of w)"
    and "\<And>e w w'. e \<in> E \<Longrightarrow> step e w = Inr w' \<Longrightarrow> start_running (timer_of w) \<Longrightarrow> start_running (timer_of w')"
    and "events_of evs \<subseteq> E"
  shows "now + timeout \<le> t"
  using assms
  by (cases rule: WaitForTimeout_cases [of tf cf timeout now w evs r t w' rest E
        "\<lambda>w. start_running (timer_of w)"]) (auto simp: timer_of_update)

end

end
