(* ===== verification/Uds_Transport.thy ===== *)
theory Uds_Transport
  imports Utility_State Tcp_Transport
begin

text \<open>
  The interfaces of \<open>lib/uds-transport-layer-api\<close> between the DoIP client and the conversations:
  the result enumerations, the UDS message a conversation hands down, and the conversion handler
  a channel calls when a response arrives. The handler is a record of the functions behind the
  virtual calls; the laws a channel relies on are the locale \<open>conversion_handler\<close>.
\<close>

section \<open>Result enumerations\<close>

datatype IndicationResult =
    kIndicationOk | kIndicationOccupied | kIndicationOverflow
  | kIndicationUnknownTargetAddress | kIndicationPending | kIndicationNOk

datatype TransmissionResult =
  kTransmitOk | kTransmitFailed | kNoTransmitAckReceived | kNegTransmitAckReceived | kBusyProcessing

datatype ConnectionResult = kConnectionOk | kConnectionFailed | kConnectionTimeout

datatype DisconnectionResult = kDisconnectionOk | kDisconnectionFailed

section \<open>UDS message\<close>

record UdsMessage =
  uds_sa :: u16
  uds_ta :: u16
  uds_host_ip :: string
  uds_host_port :: u16
  uds_payload :: bytes

section \<open>Conversion handler\<close>

text \<open>
  \<open>IndicateMessage\<close> announces a message (source, target, size, payload) and yields a result and,
  unless the pointer is null, a message to be filled; \<open>message_copy\<close> is the \<open>std::copy\<close> into
  that message's payload, which may be a buffer of its own or one the conversation keeps;
  \<open>HandleMessage\<close> hands the filled message over.
\<close>

record ('m, 'w) ConversionHandler =
  IndicateMessage :: "u16 \<Rightarrow> u16 \<Rightarrow> nat \<Rightarrow> bytes \<Rightarrow> 'w \<Rightarrow> (IndicationResult \<times> 'm option \<times> 'w) run"
  message_copy :: "bytes \<Rightarrow> 'm \<Rightarrow> 'w \<Rightarrow> ('m \<times> 'w) run"
  HandleMessage :: "'m \<Rightarrow> 'w \<Rightarrow> 'w run"

text \<open>
  What a channel relies on: the calls leave the channel's own part \<open>chan\<close> of the state alone, a
  message that was accepted has room for the payload announced, and handing it over cannot end
  the process.
\<close>

locale conversion_handler =
  fixes h :: "('m, 'w) ConversionHandler"
    and chan :: "'w \<Rightarrow> 'c"
    and valid :: "'m \<Rightarrow> nat \<Rightarrow> 'w \<Rightarrow> bool"
  assumes indicate_chan: "IndicateMessage h sa ta n p w = Inr (r, mo, w') \<Longrightarrow> chan w' = chan w"
    and copy_chan: "message_copy h p m w = Inr (m', w') \<Longrightarrow> chan w' = chan w"
    and handle_chan: "HandleMessage h m w = Inr w' \<Longrightarrow> chan w' = chan w"
    and indicate_valid: "IndicateMessage h sa ta n p w = Inr (r, Some m, w') \<Longrightarrow> valid m n w'"
    and copy_room: "valid m (length p) w \<Longrightarrow>
      \<exists>m' w'. message_copy h p m w = Inr (m', w') \<and> valid m' (length p) w'"
begin

text \<open>The hand-over of an accepted message, up to the conversation's own handling of it.\<close>

lemma accepted_message_fills:
  assumes "IndicateMessage h sa ta (length p) p w = Inr (r, Some m, w')"
  shows "\<exists>m' w''. message_copy h p m w' = Inr (m', w'') \<and> valid m' (length p) w'' \<and> chan w'' = chan w"
proof -
  from assms have "valid m (length p) w'" by (rule indicate_valid)
  then obtain m' w'' where c: "message_copy h p m w' = Inr (m', w'')" "valid m' (length p) w''"
    using copy_room by blast
  moreover have "chan w'' = chan w" using copy_chan [OF c(1)] indicate_chan [OF assms] by simp
  ultimately show ?thesis by blast
qed

end

section \<open>Text of a number\<close>

text \<open>\<open>std::hex\<close> output of a non-negative \<open>int\<close>: lower-case digits, no leading zeros.\<close>

definition hex_digit :: "nat \<Rightarrow> char" where
  "hex_digit n = (''0123456789abcdef'' ! n)"

fun to_hex :: "nat \<Rightarrow> string" where
  "to_hex n = (if n < 16 then [hex_digit n] else to_hex (n div 16) @ [hex_digit (n mod 16)])"

declare to_hex.simps [simp del]

end
