(* ===== verification/Udp_Transport.thy ===== *)
theory Udp_Transport
  imports Tcp_Transport
begin

text \<open>
  The UDP stack of \<open>lib/boost-support\<close> under the DoIP channel: the socket
  (\<open>socket/udp/udp_socket.cpp\<close>), the connection (\<open>connection/udp/udp_connection.h\<close>) and the client
  (\<open>client/udp/udp_client.cpp\<close>). Reception is asynchronous: \<open>async_receive_from\<close> leaves a pending
  receive with the io context, which later performs it (the datagram goes to the buffer, the sender
  to the endpoint) and, later again, runs its handler. All receives of a socket share the one buffer
  and the one endpoint.

  What the synchronous calls of Boost.Asio do is the parameter \<open>asio_udp\<close>.
\<close>

section \<open>Boost.Asio, as far as the code relies on it\<close>

record asio_udp =
  udp_open :: bool
  udp_options :: bool
  udp_bind :: bool
  udp_local_endpoint :: bool
  udp_address :: "string \<Rightarrow> bool"
  udp_send :: "string \<Rightarrow> u16 \<Rightarrow> bytes \<Rightarrow> bool \<times> nat"
  udp_close :: bool

section \<open>Socket\<close>

datatype UdpSocketError = udp_kOpenFailed | udp_kBindingFailed | udp_kGenericError

definition kMaxUdpResSize :: u8 where [doip_consts]: "kMaxUdpResSize = 40"

type_synonym udp_message = "string \<times> u16 \<times> bytes"

text \<open>
  \<open>outstanding\<close> counts the receives that wait for a datagram, \<open>completions\<close> holds the byte counts
  of those that have been performed and whose handler has not run.
\<close>

record udp_socket =
  local_address :: string
  rx_buffer :: bytes
  remote_endpoint :: "string \<times> u16"
  outstanding :: nat
  completions :: "nat list"

definition new_UdpSocket :: "string \<Rightarrow> udp_socket" where
  "new_UdpSocket local_ip_address =
     \<lparr>local_address = local_ip_address, rx_buffer = vector_resize (unat kMaxUdpResSize) [],
      remote_endpoint = ('''', 0), outstanding = 0, completions = []\<rparr>"

definition StartReceivingMessage :: "udp_socket \<Rightarrow> udp_socket" where
  "StartReceivingMessage s = s\<lparr>outstanding := outstanding s + 1\<rparr>"

text \<open>
  The error code of the bind replaces that of the open, and both failures end in the second branch,
  so \<open>kOpenFailed\<close> is never the result.
\<close>

definition UdpSocket_Open :: "asio_udp \<Rightarrow> udp_socket \<Rightarrow> ((unit, UdpSocketError) Result \<times> udp_socket) run" where
  "UdpSocket_Open io s =
     (let result = FromError udp_kOpenFailed in
      bind_run (if udp_open io then bind_run (no_throw (udp_options io)) (\<lambda>_. Inr (udp_bind io)) else Inr False)
        (\<lambda>ec_ok.
          if ec_ok then
            bind_run (no_throw (udp_local_endpoint io)) (\<lambda>_.
              Inr (EmplaceValue () result, StartReceivingMessage s))
          else Inr (EmplaceError udp_kBindingFailed result, s)))"

definition UdpSocket_Transmit ::
    "asio_udp \<Rightarrow> udp_message \<Rightarrow> udp_socket \<Rightarrow> ((unit, UdpSocketError) Result \<times> udp_socket) run" where
  "UdpSocket_Transmit io m s =
     (let result = FromError udp_kGenericError in
      case m of (ip, port, frame) \<Rightarrow>
        bind_run (no_throw (udp_address io ip)) (\<lambda>_.
          case udp_send io ip port frame of (ec_ok, send_size) \<Rightarrow>
            if ec_ok \<and> send_size = length frame then Inr (EmplaceValue () result, StartReceivingMessage s)
            else Inr (result, s)))"

definition UdpSocket_Close :: "asio_udp \<Rightarrow> udp_socket \<Rightarrow> ((unit, UdpSocketError) Result \<times> udp_socket) run" where
  "UdpSocket_Close io s =
     bind_run (no_throw (udp_close io)) (\<lambda>_. Inr (EmplaceValue () (FromError udp_kGenericError), s))"

text \<open>The size is narrowed to a byte before it is added to the start of the buffer.\<close>

definition UdpSocket_Read :: "nat \<Rightarrow> udp_socket \<Rightarrow> ((udp_message, ErrorCode) Result \<times> udp_socket) run" where
  "UdpSocket_Read total_bytes_received s =
     (let result = FromError (bs_MakeErrorCode bs_kGenericError 0) in
      bind_run
        (if local_address s \<noteq> fst (remote_endpoint s) then
           (if total_bytes_received \<le> unat kMaxUdpResSize then
              Inr (EmplaceValue
                     (fst (remote_endpoint s), snd (remote_endpoint s),
                      take (unat (word_of_nat total_bytes_received :: u8)) (rx_buffer s)) result)
            else Inl Assertion_Failed)
         else Inr result)
        (\<lambda>r. Inr (r, StartReceivingMessage s)))"

section \<open>Asynchronous reception\<close>

text \<open>
  A datagram arrives: a pending receive takes as much of it as the buffer holds. Without a pending
  receive it stays with the operating system. Then a handler runs: on success it reads the buffer
  and hands the message to the read handler; after an error nothing is started again.
\<close>

definition datagram_arrives :: "string \<Rightarrow> u16 \<Rightarrow> bytes \<Rightarrow> udp_socket \<Rightarrow> udp_socket" where
  "datagram_arrives ip port dg s =
     (if outstanding s = 0 then s
      else
        let bs = take (length (rx_buffer s)) dg in
        s\<lparr>rx_buffer := bs @ drop (length bs) (rx_buffer s), remote_endpoint := (ip, port),
          outstanding := outstanding s - 1, completions := completions s @ [length bs]\<rparr>)"

definition receive_fails :: "udp_socket \<Rightarrow> udp_socket" where
  "receive_fails s = s\<lparr>outstanding := outstanding s - 1\<rparr>"

text \<open>The handler of the oldest completed receive: the message it hands on, if any.\<close>

definition receive_completes :: "udp_socket \<Rightarrow> (udp_message option \<times> udp_socket) run" where
  "receive_completes s =
     (case completions s of
        [] \<Rightarrow> Inr (None, s)
      | bytes_received # later \<Rightarrow>
          bind_run (UdpSocket_Read bytes_received (s\<lparr>completions := later\<rparr>)) (\<lambda>(r, s').
            Inr (case r of FromValue m \<Rightarrow> Some m | FromError e \<Rightarrow> None, s')))"

section \<open>Connection and client\<close>

text \<open>Both drop the outcome of opening and closing the socket.\<close>

definition UdpConnection_Initialize :: "asio_udp \<Rightarrow> udp_socket \<Rightarrow> udp_socket run" where
  "UdpConnection_Initialize io s = bind_run (UdpSocket_Open io s) (\<lambda>(r, s'). Inr s')"

definition UdpConnection_DeInitialize :: "asio_udp \<Rightarrow> udp_socket \<Rightarrow> udp_socket run" where
  "UdpConnection_DeInitialize io s = bind_run (UdpSocket_Close io s) (\<lambda>(r, s'). Inr s')"

definition UdpConnection_Transmit ::
    "asio_udp \<Rightarrow> udp_message \<Rightarrow> udp_socket \<Rightarrow> ((unit, ErrorCode) Result \<times> udp_socket) run" where
  "UdpConnection_Transmit io m s =
     bind_run (UdpSocket_Transmit io m s) (\<lambda>(r, s').
       bind_run (MapError_void r (\<lambda>_. bs_MakeErrorCode bs_kSocketError 0)) (\<lambda>r'. Inr (r', s')))"

definition UdpClient_Initialize :: "asio_udp \<Rightarrow> udp_socket \<Rightarrow> udp_socket run" where
  "UdpClient_Initialize io s = UdpConnection_Initialize io s"

definition UdpClient_DeInitialize :: "asio_udp \<Rightarrow> udp_socket \<Rightarrow> udp_socket run" where
  "UdpClient_DeInitialize io s = UdpConnection_DeInitialize io s"

definition UdpClient_Transmit ::
    "asio_udp \<Rightarrow> udp_message \<Rightarrow> udp_socket \<Rightarrow> ((unit, ErrorCode) Result \<times> udp_socket) run" where
  "UdpClient_Transmit io m s = UdpConnection_Transmit io m s"

section \<open>Socket handler\<close>

text \<open>The same template as over TCP, with the UDP client in it.\<close>

definition UdpSocketHandler_Initialize :: "asio_udp \<Rightarrow> udp_socket \<Rightarrow> udp_socket run" where
  [simp]: "UdpSocketHandler_Initialize io s = UdpClient_Initialize io s"

definition UdpSocketHandler_DeInitialize :: "asio_udp \<Rightarrow> udp_socket \<Rightarrow> udp_socket run" where
  [simp]: "UdpSocketHandler_DeInitialize io s = UdpClient_DeInitialize io s"

definition UdpSocketHandler_Transmit ::
    "asio_udp \<Rightarrow> udp_message \<Rightarrow> udp_socket \<Rightarrow> ((unit, ErrorCode) Result \<times> udp_socket) run" where
  [simp]: "UdpSocketHandler_Transmit io m s = UdpClient_Transmit io m s"

section \<open>Facts\<close>

text \<open>The invariant of the socket: the buffer keeps its size, and no completion exceeds it.\<close>

definition udp_ok :: "udp_socket \<Rightarrow> bool" where
  "udp_ok s \<longleftrightarrow> length (rx_buffer s) = 40 \<and> (\<forall>n \<in> set (completions s). n \<le> 40)"

lemma udp_ok_new [simp]: "udp_ok (new_UdpSocket ip)"
  by (simp add: udp_ok_def new_UdpSocket_def kMaxUdpResSize_def)

lemma udp_ok_Start [simp]: "udp_ok (StartReceivingMessage s) = udp_ok s"
  by (simp add: udp_ok_def StartReceivingMessage_def)

lemma StartReceiving_fields [simp]:
  "local_address (StartReceivingMessage s) = local_address s" "rx_buffer (StartReceivingMessage s) = rx_buffer s"
  "remote_endpoint (StartReceivingMessage s) = remote_endpoint s" "completions (StartReceivingMessage s) = completions s"
  "outstanding (StartReceivingMessage s) = Suc (outstanding s)"
  by (simp_all add: StartReceivingMessage_def)

lemma udp_ok_arrives: "udp_ok s \<Longrightarrow> udp_ok (datagram_arrives ip port dg s)"
  by (auto simp: udp_ok_def datagram_arrives_def Let_def)

lemma udp_ok_fails: "udp_ok s \<Longrightarrow> udp_ok (receive_fails s)"
  by (simp add: udp_ok_def receive_fails_def)

text \<open>On a socket in its invariant the assertion holds and the narrowing loses nothing.\<close>

lemma UdpSocket_Read_eq:
  assumes "n \<le> 40"
  shows "UdpSocket_Read n s =
    Inr (if local_address s \<noteq> fst (remote_endpoint s)
         then FromValue (fst (remote_endpoint s), snd (remote_endpoint s), take n (rx_buffer s))
         else FromError (bs_MakeErrorCode bs_kGenericError 0), StartReceivingMessage s)"
proof -
  have "unat (word_of_nat n :: u8) = n"
    unfolding unat_of_nat using assms by simp
  with assms show ?thesis by (simp add: UdpSocket_Read_def kMaxUdpResSize_def EmplaceValue_def)
qed

lemma receive_completes_total:
  assumes "udp_ok s"
  obtains (Nothing) "completions s = []" "receive_completes s = Inr (None, s)"
  | (Own) n later where "completions s = n # later" "local_address s = fst (remote_endpoint s)"
      "receive_completes s = Inr (None, StartReceivingMessage (s\<lparr>completions := later\<rparr>))"
  | (Message) n later where "completions s = n # later" "local_address s \<noteq> fst (remote_endpoint s)"
      "receive_completes s = Inr (Some (fst (remote_endpoint s), snd (remote_endpoint s), take n (rx_buffer s)),
         StartReceivingMessage (s\<lparr>completions := later\<rparr>))"
proof (cases "completions s")
  case Nil
  then show thesis by (intro Nothing) (simp_all add: receive_completes_def)
next
  case (Cons n later)
  then have "n \<le> 40" using assms by (simp add: udp_ok_def)
  note r = UdpSocket_Read_eq [OF this]
  show thesis
  proof (cases "local_address s = fst (remote_endpoint s)")
    case True
    with Cons r show thesis by (intro Own) (simp_all add: receive_completes_def)
  next
    case False
    with Cons r show thesis by (intro Message) (simp_all add: receive_completes_def)
  qed
qed

lemma receive_completes_ok:
  assumes "receive_completes s = Inr (m, s')" and "udp_ok s"
  shows "udp_ok s'"
  using assms(2)
proof (cases rule: receive_completes_total)
  case Nothing
  then show ?thesis using assms by simp
qed (use assms in \<open>auto simp: udp_ok_def\<close>)

text \<open>
  A datagram whose handler runs before the next one arrives is handed on as it came, cut to the size
  of the buffer; the receive that is started keeps one pending.
\<close>

lemma datagram_then_handler:
  assumes "udp_ok s" and "completions s = []" and "0 < outstanding s" and "ip \<noteq> local_address s"
  shows "\<exists>s'. receive_completes (datagram_arrives ip port dg s) = Inr (Some (ip, port, take 40 dg), s') \<and>
    udp_ok s' \<and> completions s' = [] \<and> outstanding s' = outstanding s \<and> local_address s' = local_address s"
proof -
  have b: "length (rx_buffer s) = 40" using assms(1) by (simp add: udp_ok_def)
  let ?s = "datagram_arrives ip port dg s"
  have ok: "udp_ok ?s" using assms(1) by (rule udp_ok_arrives)
  have f: "completions ?s = [length (take 40 dg)]" "remote_endpoint ?s = (ip, port)" "local_address ?s = local_address s"
    "rx_buffer ?s = take 40 dg @ drop (length (take 40 dg)) (rx_buffer s)" "outstanding ?s = outstanding s - 1"
    using assms b by (simp_all add: datagram_arrives_def Let_def)
  from ok show ?thesis
  proof (cases rule: receive_completes_total)
    case (Message n later)
    moreover have "take (min (length dg) 40) dg = take 40 dg" by (simp add: min_def)
    ultimately show ?thesis using f assms(3) ok by (auto simp: udp_ok_def)
  qed (use f assms(4) in simp_all)
qed

end
