(* ===== verification/Vehicle_Identification.thy ===== *)
theory Vehicle_Identification
  imports Uds_Transport Udp_Transport
begin

text \<open>
  The two handlers of the UDP channel: the vehicle identification handler
  (\<open>channel/udp_channel/doip_vehicle_identification_handler.cpp\<close>), which sends the request and
  collects responses for a fixed time, and the vehicle discovery handler
  (\<open>doip_vehicle_discovery_handler.cpp\<close>), which receives announcements and only logs them.
\<close>

section \<open>States\<close>

datatype VehicleIdentificationState =
    vi_kIdle | vi_kSendVehicleIdentificationReq | vi_kWaitForVehicleIdentificationRes | vi_kDoIPCtrlTimeout

datatype VehicleDiscoveryState = vd_kIdle | vd_kWaitForVehicleAnnouncement | vd_kDoIPCtrlTimeout

text \<open>\<open>udp_sent\<close> records the messages given to the socket that it sent in full.\<close>

record vi_handler =
  uc_socket :: udp_socket
  udp_sent :: "udp_message list"
  vi_context :: "VehicleIdentificationState StateContext"
  vi_timer :: SyncTimer

definition new_vi_context :: "VehicleIdentificationState StateContext" where
  "new_vi_context =
     TransitionTo vi_kIdle
       (AddState vi_kDoIPCtrlTimeout
         (AddState vi_kWaitForVehicleIdentificationRes
           (AddState vi_kSendVehicleIdentificationReq
             (AddState vi_kIdle new_StateContext))))"

definition new_vd_context :: "VehicleDiscoveryState StateContext" where
  "new_vd_context =
     TransitionTo vd_kWaitForVehicleAnnouncement
       (AddState vd_kDoIPCtrlTimeout
         (AddState vd_kWaitForVehicleAnnouncement
           (AddState vd_kIdle new_StateContext)))"

definition vi_in :: "VehicleIdentificationState \<Rightarrow> 'a vi_handler_scheme \<Rightarrow> bool" where
  "vi_in s w \<longleftrightarrow> in_state (vi_context w) s"

definition vi_goto :: "VehicleIdentificationState \<Rightarrow> 'a vi_handler_scheme \<Rightarrow> 'a vi_handler_scheme" where
  "vi_goto s w = w\<lparr>vi_context := TransitionTo s (vi_context w)\<rparr>"

section \<open>The request\<close>

definition GetVehicleIdentificationPayloadType :: "u8 \<Rightarrow> u16 \<times> u8" where
  "GetVehicleIdentificationPayloadType preselection_mode =
     (if preselection_mode = 0 then
        (kDoip_VehicleIdentification_ReqType, ucast kDoip_VehicleIdentification_ReqLen)
      else if preselection_mode = 1 then
        (kDoip_VehicleIdentificationVIN_ReqType, ucast kDoip_VehicleIdentificationVIN_ReqLen)
      else if preselection_mode = 2 then
        (kDoip_VehicleIdentificationEID_ReqType, ucast kDoip_VehicleIdentificationEID_ReqLen)
      else (0, 0))"

definition vi_CreateDoipGenericHeader :: "u16 \<Rightarrow> u32 \<Rightarrow> bytes" where
  "vi_CreateDoipGenericHeader ty len =
     [kDoip_ProtocolVersion,
      NOT kDoip_ProtocolVersion,
      u16_hi ty, u16_lo ty,
      u32_b3 len, u32_b2 len, u32_b1 len, u32_b0 len]"

text \<open>
  The bytes after the first two of the payload are copied behind the header, except for a request
  without preselection; \<open>begin() + 2\<close> needs two bytes to be there.
\<close>

definition compose_vehicle_identification_req :: "bytes \<Rightarrow> bytes run" where
  "compose_vehicle_identification_req p =
     bind_run (vector_at p 1) (\<lambda>preselection_mode.
       case GetVehicleIdentificationPayloadType preselection_mode of (ty, len) \<Rightarrow>
         Inr (vi_CreateDoipGenericHeader ty (ucast len) @
              (if ty \<noteq> kDoip_VehicleIdentification_ReqType then drop 2 p else [])))"

definition SendVehicleIdentificationRequest ::
    "asio_udp \<Rightarrow> UdsMessage \<Rightarrow> 'a vi_handler_scheme \<Rightarrow> (TransmissionResult \<times> 'a vi_handler_scheme) run" where
  "SendVehicleIdentificationRequest io msg w =
     bind_run (compose_vehicle_identification_req (uds_payload msg)) (\<lambda>req.
       let m = (uds_host_ip msg, uds_host_port msg, req) in
       bind_run (UdpSocketHandler_Transmit io m (uc_socket w)) (\<lambda>(r, s).
         Inr (if HasValue r then (kTransmitOk, w\<lparr>uc_socket := s, udp_sent := udp_sent w @ [m]\<rparr>)
              else (kTransmitFailed, w\<lparr>uc_socket := s\<rparr>))))"

definition vi_timeout_func :: "'a vi_handler_scheme \<Rightarrow> TransmissionResult \<times> 'a vi_handler_scheme" where
  "vi_timeout_func w = (kTransmitOk, vi_goto vi_kDoIPCtrlTimeout w)"

definition vi_cancellation_func :: "'a vi_handler_scheme \<Rightarrow> TransmissionResult \<times> 'a vi_handler_scheme" where
  "vi_cancellation_func w = (kTransmitOk, w)"

text \<open>
  The call, on the thread of the application. The state changes before the request is sent, so the
  io context may deliver during \<open>win1\<close> (before the transmission), \<open>win2\<close> (before the timer is armed)
  and \<open>evs\<close> (while the call waits).
\<close>

definition HandleVehicleIdentificationRequest ::
    "asio_udp \<Rightarrow> ('ev \<Rightarrow> 'a vi_handler_scheme \<Rightarrow> 'a vi_handler_scheme run) \<Rightarrow> nat \<Rightarrow>
     'ev list \<Rightarrow> 'ev list \<Rightarrow> (nat \<times> 'ev list) list \<Rightarrow> UdsMessage \<Rightarrow> 'a vi_handler_scheme \<Rightarrow>
     (TransmissionResult \<times> nat \<times> 'a vi_handler_scheme \<times> (nat \<times> 'ev list) list) call" where
  "HandleVehicleIdentificationRequest io step now win1 win2 evs msg w =
     (if vi_in vi_kIdle w then
        bind_call (call_of_run (deliver_all step win1 (vi_goto vi_kWaitForVehicleIdentificationRes w))) (\<lambda>w1.
        bind_call (call_of_run (SendVehicleIdentificationRequest io msg w1)) (\<lambda>(r, w2).
          if r = kTransmitOk then
            bind_call (call_of_run (deliver_all step win2 w2)) (\<lambda>w3.
            bind_call
              (WaitForTimeout vi_timer vi_timer_update step vi_timeout_func vi_cancellation_func kDoIPCtrl now w3 evs)
              (\<lambda>(ret_val, t, w4, rest). Returns (ret_val, t, vi_goto vi_kIdle w4, rest)))
          else Returns (kTransmitFailed, now, vi_goto vi_kIdle w2, evs)))
      else Returns (kTransmitFailed, now, w, evs))"

section \<open>The response\<close>

text \<open>
  The message the conversation supplies gets the address of the sender through \<open>add_meta_info\<close>, its
  virtual \<open>AddMetaInfo\<close>, and then the payload.
\<close>

definition ProcessVehicleIdentificationResponse ::
    "('m, 'a vi_handler_scheme) ConversionHandler \<Rightarrow> (string \<Rightarrow> 'm \<Rightarrow> 'm) \<Rightarrow> DoipMessage \<Rightarrow>
     'a vi_handler_scheme \<Rightarrow> 'a vi_handler_scheme run" where
  "ProcessVehicleIdentificationResponse h add_meta_info m w =
     (if vi_in vi_kWaitForVehicleIdentificationRes w then
        bind_run (IndicateMessage h 0 0 (length (payload m)) (payload m) w) (\<lambda>(r, mo, w1).
          case (r, mo) of
            (kIndicationOk, Some msg) \<Rightarrow>
              bind_run (message_copy h (payload m) (add_meta_info (host_ip_address m) msg) w1) (\<lambda>(msg', w2).
                HandleMessage h msg' w2)
          | _ \<Rightarrow> Inr w1)
      else Inr w)"

text \<open>An announcement is logged, whatever the state of the discovery handler.\<close>

definition ProcessVehicleAnnouncementResponse ::
    "DoipMessage \<Rightarrow> VehicleDiscoveryState StateContext \<Rightarrow> VehicleDiscoveryState StateContext" where
  "ProcessVehicleAnnouncementResponse m c =
     (if in_state c vd_kWaitForVehicleAnnouncement then c else c)"

section \<open>Facts\<close>

definition vi_known :: "'a vi_handler_scheme \<Rightarrow> bool" where
  "vi_known w \<longleftrightarrow> (\<forall>s. registered (vi_context w) s)"

lemma new_vi_context_facts [ctx_simps]:
  "registered new_vi_context s" "in_state new_vi_context s \<longleftrightarrow> s = vi_kIdle"
  by (cases s; simp add: new_vi_context_def ctx_simps)+

lemma new_vd_context_facts [ctx_simps]:
  "registered new_vd_context s" "in_state new_vd_context s \<longleftrightarrow> s = vd_kWaitForVehicleAnnouncement"
  by (cases s; simp add: new_vd_context_def ctx_simps)+

lemma vi_in_goto [ctx_simps, simp]: "vi_known w \<Longrightarrow> vi_in t (vi_goto s w) \<longleftrightarrow> s = t"
  by (simp add: vi_in_def vi_goto_def vi_known_def ctx_simps)

lemma vi_goto_fields [frame_simps, simp]:
  "uc_socket (vi_goto s w) = uc_socket w" "udp_sent (vi_goto s w) = udp_sent w"
  "vi_timer (vi_goto s w) = vi_timer w" "vi_handler.more (vi_goto s w) = vi_handler.more w"
  "vi_known (vi_goto s w) = vi_known w"
  by (simp_all add: vi_goto_def vi_known_def)

lemma vi_goto_goto [simp]: "vi_known w \<Longrightarrow> vi_goto t (vi_goto s w) = vi_goto t w"
  by (simp add: vi_goto_def vi_known_def TransitionTo_TransitionTo)

lemma vi_in_unique: "vi_in s w \<Longrightarrow> vi_in t w \<Longrightarrow> s = t"
  by (auto simp: vi_in_def dest: in_state_unique)

lemma vi_CreateDoipGenericHeader_eq: "vi_CreateDoipGenericHeader = CreateDoipGenericHeader"
  by (intro ext) (simp add: vi_CreateDoipGenericHeader_def CreateDoipGenericHeader_def)

lemma GetVehicleIdentificationPayloadType_simps [simp]:
  "GetVehicleIdentificationPayloadType 0 = (0x0001, 0)"
  "GetVehicleIdentificationPayloadType 1 = (0x0003, 17)"
  "GetVehicleIdentificationPayloadType 2 = (0x0002, 6)"
  by (simp_all add: GetVehicleIdentificationPayloadType_def doip_consts)

end
