(* ===== verification/Udp_Channel.thy ===== *)
theory Udp_Channel
  imports Vehicle_Identification
begin

text \<open>
  The UDP channel (\<open>channel/udp_channel/doip_udp_channel_handler.cpp\<close> and
  \<open>doip_udp_channel.cpp\<close>, reached through \<open>DoipUdpConnection\<close> of
  \<open>connection/connection_manager.cpp\<close>): the header checks of a received datagram, its dispatch to
  the two handlers, the operations of the application, and what the io context can do to the
  channel while one of them waits.
\<close>

section \<open>Constants and state\<close>

definition udp_kDoip_GenericHeader_IncorrectPattern :: u8 where
  [doip_consts]: "udp_kDoip_GenericHeader_IncorrectPattern = 0x00"
definition udp_kDoip_GenericHeader_UnknownPayload :: u8 where
  [doip_consts]: "udp_kDoip_GenericHeader_UnknownPayload = 0x01"
definition udp_kDoip_GenericHeader_MessageTooLarge :: u8 where
  [doip_consts]: "udp_kDoip_GenericHeader_MessageTooLarge = 0x02"
definition udp_kDoip_GenericHeader_OutOfMemory :: u8 where
  [doip_consts]: "udp_kDoip_GenericHeader_OutOfMemory = 0x03"
definition udp_kDoip_GenericHeader_InvalidPayloadLen :: u8 where
  [doip_consts]: "udp_kDoip_GenericHeader_InvalidPayloadLen = 0x04"

datatype RxSocketType = kBroadcast | kUnicast

record udp_channel = vi_handler +
  bc_socket :: udp_socket
  vd_context :: "VehicleDiscoveryState StateContext"

section \<open>Received datagrams\<close>

definition udp_ProcessDoIPPayloadLength :: "u32 \<Rightarrow> u16 \<Rightarrow> bool" where
  "udp_ProcessDoIPPayloadLength len ty =
     (if ty = kDoip_VehicleAnnouncement_ResType then len \<le> kDoip_VehicleAnnouncement_ResMaxLen else False)"

definition udp_ProcessDoIPHeader :: "DoipMessage \<Rightarrow> u8 \<Rightarrow> bool \<times> u8" where
  "udp_ProcessDoIPHeader m nack_code =
     (if protocol_version m = kDoip_ProtocolVersion \<and> protocol_version_inv m = NOT kDoip_ProtocolVersion \<or>
         protocol_version m = kDoip_ProtocolVersion_Def \<and> protocol_version_inv m = NOT kDoip_ProtocolVersion_Def
      then
        (if payload_type m = kDoip_VehicleAnnouncement_ResType then
           (if payload_length m \<le> kDoip_Protocol_MaxPayload then
              (if payload_length m \<le> kUdpChannelLength then
                 (if udp_ProcessDoIPPayloadLength (payload_length m) (payload_type m) then (True, nack_code)
                  else (False, udp_kDoip_GenericHeader_InvalidPayloadLen))
               else (False, udp_kDoip_GenericHeader_OutOfMemory))
            else (False, udp_kDoip_GenericHeader_MessageTooLarge))
         else (False, udp_kDoip_GenericHeader_UnknownPayload))
      else (False, udp_kDoip_GenericHeader_IncorrectPattern))"

definition udp_ProcessDoIPPayload ::
    "('m, 'a vi_handler_scheme) ConversionHandler \<Rightarrow> (string \<Rightarrow> 'm \<Rightarrow> 'm) \<Rightarrow> DoipMessage \<Rightarrow>
     'a vi_handler_scheme \<Rightarrow> 'a vi_handler_scheme run" where
  "udp_ProcessDoIPPayload h add_meta_info m w =
     (if payload_type m = kDoip_VehicleAnnouncement_ResType
      then ProcessVehicleIdentificationResponse h add_meta_info m w else Inr w)"

definition HandleMessageUnicast ::
    "('m, 'a vi_handler_scheme) ConversionHandler \<Rightarrow> (string \<Rightarrow> 'm \<Rightarrow> 'm) \<Rightarrow> udp_message \<Rightarrow>
     'a vi_handler_scheme \<Rightarrow> 'a vi_handler_scheme run" where
  "HandleMessageUnicast h add_meta_info udp_rx_message w =
     (case udp_rx_message of (ip, port, p) \<Rightarrow>
        bind_run (new_DoipMessage kUdp ip port p) (\<lambda>m.
          case udp_ProcessDoIPHeader m 0 of (ok, nack_code) \<Rightarrow>
            if ok then udp_ProcessDoIPPayload h add_meta_info m w else Inr w))"

definition HandleMessageBroadcast :: "udp_message \<Rightarrow> 'a udp_channel_scheme \<Rightarrow> 'a udp_channel_scheme run" where
  "HandleMessageBroadcast udp_rx_message w =
     (case udp_rx_message of (ip, port, p) \<Rightarrow>
        bind_run (new_DoipMessage kUdp ip port p) (\<lambda>m.
          case udp_ProcessDoIPHeader m 0 of (ok, nack_code) \<Rightarrow>
            Inr (if ok then w\<lparr>vd_context := ProcessVehicleAnnouncementResponse m (vd_context w)\<rparr> else w)))"

section \<open>Operations of the channel\<close>

definition new_UdpChannel :: "string \<Rightarrow> udp_channel" where
  "new_UdpChannel local_ip_address =
     \<lparr>uc_socket = new_UdpSocket local_ip_address, udp_sent = [], vi_context = new_vi_context,
      vi_timer = new_SyncTimer, bc_socket = new_UdpSocket local_ip_address, vd_context = new_vd_context\<rparr>"

text \<open>The broadcast socket is opened and closed first; each socket has its own operating system calls.\<close>

definition UdpChannel_Start :: "asio_udp \<Rightarrow> asio_udp \<Rightarrow> 'a udp_channel_scheme \<Rightarrow> 'a udp_channel_scheme run" where
  "UdpChannel_Start bc_io uc_io w =
     bind_run (UdpSocketHandler_Initialize bc_io (bc_socket w)) (\<lambda>b.
     bind_run (UdpSocketHandler_Initialize uc_io (uc_socket w)) (\<lambda>u. Inr (w\<lparr>bc_socket := b, uc_socket := u\<rparr>)))"

definition UdpChannel_Stop :: "asio_udp \<Rightarrow> asio_udp \<Rightarrow> 'a udp_channel_scheme \<Rightarrow> 'a udp_channel_scheme run" where
  "UdpChannel_Stop bc_io uc_io w =
     bind_run (UdpSocketHandler_DeInitialize bc_io (bc_socket w)) (\<lambda>b.
     bind_run (UdpSocketHandler_DeInitialize uc_io (uc_socket w)) (\<lambda>u. Inr (w\<lparr>bc_socket := b, uc_socket := u\<rparr>)))"

text \<open>The first byte of the payload selects the handler; only the identification handler exists.\<close>

definition UdpChannel_Transmit ::
    "asio_udp \<Rightarrow> ('ev \<Rightarrow> 'a udp_channel_scheme \<Rightarrow> 'a udp_channel_scheme run) \<Rightarrow> nat \<Rightarrow>
     'ev list \<Rightarrow> 'ev list \<Rightarrow> (nat \<times> 'ev list) list \<Rightarrow> UdsMessage \<Rightarrow> 'a udp_channel_scheme \<Rightarrow>
     (TransmissionResult \<times> nat \<times> 'a udp_channel_scheme \<times> (nat \<times> 'ev list) list) call" where
  "UdpChannel_Transmit io step now win1 win2 evs msg w =
     bind_call (call_of_run (vector_at (uds_payload msg) 0)) (\<lambda>handler_type.
       if handler_type = 0 then HandleVehicleIdentificationRequest io step now win1 win2 evs msg w
       else Returns (kTransmitFailed, now, w, evs))"

section \<open>The io context\<close>

text \<open>
  What the thread of the io context does on either socket: a datagram is received, a receive
  fails, or the handler of a completed receive runs and hands its message to the channel.
\<close>

datatype udp_event =
    Datagram RxSocketType string u16 bytes
  | Receive_Error RxSocketType
  | Completion RxSocketType

definition udp_receive ::
    "('m, 'a udp_channel_scheme) ConversionHandler \<Rightarrow> (string \<Rightarrow> 'm \<Rightarrow> 'm) \<Rightarrow> RxSocketType \<Rightarrow> udp_message \<Rightarrow>
     'a udp_channel_scheme \<Rightarrow> 'a udp_channel_scheme run" where
  "udp_receive h add_meta_info rx m w =
     (case rx of kUnicast \<Rightarrow> HandleMessageUnicast h add_meta_info m w | kBroadcast \<Rightarrow> HandleMessageBroadcast m w)"

definition socket_of :: "RxSocketType \<Rightarrow> 'a udp_channel_scheme \<Rightarrow> udp_socket" where
  "socket_of rx w = (case rx of kUnicast \<Rightarrow> uc_socket w | kBroadcast \<Rightarrow> bc_socket w)"

definition set_socket :: "RxSocketType \<Rightarrow> udp_socket \<Rightarrow> 'a udp_channel_scheme \<Rightarrow> 'a udp_channel_scheme" where
  "set_socket rx s w = (case rx of kUnicast \<Rightarrow> w\<lparr>uc_socket := s\<rparr> | kBroadcast \<Rightarrow> w\<lparr>bc_socket := s\<rparr>)"

fun udp_step ::
    "('m, 'a udp_channel_scheme) ConversionHandler \<Rightarrow> (string \<Rightarrow> 'm \<Rightarrow> 'm) \<Rightarrow> udp_event \<Rightarrow>
     'a udp_channel_scheme \<Rightarrow> 'a udp_channel_scheme run" where
  "udp_step h add_meta_info (Datagram rx ip port dg) w =
     Inr (set_socket rx (datagram_arrives ip port dg (socket_of rx w)) w)"
| "udp_step h add_meta_info (Receive_Error rx) w = Inr (set_socket rx (receive_fails (socket_of rx w)) w)"
| "udp_step h add_meta_info (Completion rx) w =
     bind_run (receive_completes (socket_of rx w)) (\<lambda>(mo, s).
       case mo of
         None \<Rightarrow> Inr (set_socket rx s w)
       | Some m \<Rightarrow> udp_receive h add_meta_info rx m (set_socket rx s w))"

section \<open>Facts\<close>

text \<open>The header check, and the part of it that never fails once the length fits the type.\<close>

definition is_announcement :: "DoipMessage \<Rightarrow> bool" where
  "is_announcement m \<longleftrightarrow>
     (protocol_version m, protocol_version_inv m) \<in> {(0x03, 0xFC), (0xFF, 0x00)} \<and>
     payload_type m = 0x0004 \<and> payload_length m \<le> 33"

lemma udp_ProcessDoIPHeader_fst: "fst (udp_ProcessDoIPHeader m c) = is_announcement m"
proof -
  have "payload_length m \<le> 33 \<Longrightarrow> payload_length m \<le> 41" by (simp add: word_le_nat_alt)
  moreover have "unat (payload_length m) < 2 ^ LENGTH(32)" by (rule unsigned_less)
  then have "payload_length m \<le> 0xFFFFFFFF" by (simp add: word_le_nat_alt)
  ultimately show ?thesis
    by (auto simp: udp_ProcessDoIPHeader_def udp_ProcessDoIPPayloadLength_def is_announcement_def doip_consts)
qed

lemma is_announcement_type: "is_announcement m \<Longrightarrow> payload_type m = kDoip_VehicleAnnouncement_ResType"
  by (simp add: is_announcement_def doip_consts)

lemma HandleMessageUnicast_eq:
  "HandleMessageUnicast h meta (ip, port, p) w =
     bind_run (new_DoipMessage kUdp ip port p) (\<lambda>m.
       if is_announcement m then ProcessVehicleIdentificationResponse h meta m w else Inr w)"
  unfolding HandleMessageUnicast_def
  by (auto simp: case_prod_beta udp_ProcessDoIPHeader_fst udp_ProcessDoIPPayload_def is_announcement_type
      intro!: arg_cong [where f = "bind_run _"])

text \<open>Announcements change nothing.\<close>

lemma HandleMessageBroadcast_eq:
  "HandleMessageBroadcast (ip, port, p) w = (if length p < 9 then Inl Span_Abort else Inr w)"
proof (cases "length p < 9")
  case True
  then show ?thesis by (simp add: HandleMessageBroadcast_def new_DoipMessage_udp_fault)
next
  case False
  then obtain m where "new_DoipMessage kUdp ip port p = Inr m"
    using new_DoipMessage_udp_total [of p ip port] by auto
  then show ?thesis using False
    by (simp add: HandleMessageBroadcast_def ProcessVehicleAnnouncementResponse_def case_prod_beta)
qed

text \<open>The invariant of the channel.\<close>

definition udp_chan_ok :: "'a udp_channel_scheme \<Rightarrow> bool" where
  "udp_chan_ok w \<longleftrightarrow> udp_ok (uc_socket w) \<and> udp_ok (bc_socket w) \<and> vi_known w \<and> (\<exists>s. vi_in s w) \<and>
     in_state (vd_context w) vd_kWaitForVehicleAnnouncement \<and> \<not> exit_request (vi_timer w)"

lemma udp_truncate_fields:
  assumes "udp_channel.truncate v = udp_channel.truncate w"
  shows "uc_socket v = uc_socket w" "bc_socket v = bc_socket w" "udp_sent v = udp_sent w"
    "vi_context v = vi_context w" "vi_timer v = vi_timer w" "vd_context v = vd_context w"
    "vi_in s v = vi_in s w" "vi_known v = vi_known w" "udp_chan_ok v = udp_chan_ok w"
  using assms by (simp_all add: udp_channel.defs vi_in_def vi_known_def udp_chan_ok_def)

lemma set_socket_fields [frame_simps, simp]:
  "udp_sent (set_socket rx s w) = udp_sent w" "vi_context (set_socket rx s w) = vi_context w"
  "vi_timer (set_socket rx s w) = vi_timer w" "vd_context (set_socket rx s w) = vd_context w"
  "udp_channel.more (set_socket rx s w) = udp_channel.more w"
  "vi_in t (set_socket rx s w) = vi_in t w" "vi_known (set_socket rx s w) = vi_known w"
  by (cases rx; simp add: set_socket_def vi_in_def vi_known_def)+

lemma udp_chan_ok_socket: "udp_chan_ok w \<Longrightarrow> udp_ok (socket_of rx w)"
  by (cases rx) (simp_all add: udp_chan_ok_def socket_of_def)

lemma udp_chan_ok_set_socket: "udp_chan_ok w \<Longrightarrow> udp_ok s \<Longrightarrow> udp_chan_ok (set_socket rx s w)"
  by (cases rx) (simp_all add: udp_chan_ok_def set_socket_def vi_in_def vi_known_def)

lemma udp_chan_ok_updates [simp]:
  "udp_chan_ok (vi_timer_update SyncTimer_arm w) = udp_chan_ok w"
  "udp_chan_ok w \<Longrightarrow> udp_chan_ok (vi_goto s w)"
  by (auto simp: udp_chan_ok_def vi_known_def vi_in_def vi_goto_def ctx_simps)

lemma udp_chan_ok_known: "udp_chan_ok w \<Longrightarrow> vi_known w"
  by (simp add: udp_chan_ok_def)

lemma udp_chan_ok_uc [simp]:
  "udp_chan_ok w \<Longrightarrow> udp_ok s \<Longrightarrow> udp_chan_ok (w\<lparr>uc_socket := s\<rparr>)"
  "udp_chan_ok (w\<lparr>udp_sent := ms\<rparr>) = udp_chan_ok w"
  by (simp_all add: udp_chan_ok_def vi_in_def vi_known_def)

text \<open>What sending a request can do.\<close>

lemma UdpClient_Transmit_eq [op_defs]:
  "UdpClient_Transmit io (ip, port, q) s =
     (if udp_address io ip
      then Inr (if udp_send io ip port q = (True, length q) then (FromValue (), StartReceivingMessage s)
                else (FromError (bs_MakeErrorCode bs_kSocketError 0), s))
      else Inl Uncaught_Exception)"
  by (cases "udp_send io ip port q")
     (simp add: UdpClient_Transmit_def UdpConnection_Transmit_def UdpSocket_Transmit_def EmplaceValue_def Let_def)

lemma SendVehicleIdentificationRequest_Inr:
  assumes "SendVehicleIdentificationRequest io msg w = Inr (r, w')"
  obtains (Failed) "r = kTransmitFailed" "w' = w"
  | (Ok) q where "compose_vehicle_identification_req (uds_payload msg) = Inr q" "r = kTransmitOk"
      "w' = w\<lparr>uc_socket := StartReceivingMessage (uc_socket w),
               udp_sent := udp_sent w @ [(uds_host_ip msg, uds_host_port msg, q)]\<rparr>"
  using assms
  by (auto simp: SendVehicleIdentificationRequest_def bind_run_Inr_iff Let_def op_defs split: if_splits)

lemma udp_more_vi_goto [frame_simps, simp]: "udp_channel.more (vi_goto s w) = udp_channel.more w"
  by (simp add: vi_goto_def)

lemma new_UdpChannel_ok: "udp_chan_ok (new_UdpChannel ip)"
  by (auto simp: udp_chan_ok_def new_UdpChannel_def vi_known_def vi_in_def ctx_simps)

lemma receive_completes_Inr: "udp_ok s \<Longrightarrow> \<exists>mo s'. receive_completes s = Inr (mo, s') \<and> udp_ok s'"
  by (cases rule: receive_completes_total [of s]) (auto simp: udp_ok_def)

section \<open>The channel against any conversation that keeps to the contract\<close>

locale udp_conversation = conversion_handler h udp_channel.truncate valid
  for h :: "('m, 'a udp_channel_scheme) ConversionHandler"
    and valid :: "'m \<Rightarrow> nat \<Rightarrow> 'a udp_channel_scheme \<Rightarrow> bool" +
  fixes add_meta_info :: "string \<Rightarrow> 'm \<Rightarrow> 'm"
  assumes meta_room: "valid m n w \<Longrightarrow> valid (add_meta_info ip m) n w"
begin

lemma identification_response_frame:
  assumes "ProcessVehicleIdentificationResponse h add_meta_info m w = Inr w'"
  shows "udp_channel.truncate w' = udp_channel.truncate w"
proof (cases "vi_in vi_kWaitForVehicleIdentificationRes w")
  case False
  with assms show ?thesis by (simp add: ProcessVehicleIdentificationResponse_def)
next
  case True
  with assms obtain r mo w1 where ind: "IndicateMessage h 0 0 (length (payload m)) (payload m) w = Inr (r, mo, w1)"
    and rest: "(case (r, mo) of
            (kIndicationOk, Some msg) \<Rightarrow>
              bind_run (message_copy h (payload m) (add_meta_info (host_ip_address m) msg) w1) (\<lambda>(msg', w2).
                HandleMessage h msg' w2)
          | _ \<Rightarrow> Inr w1) = Inr w'"
    by (auto simp: ProcessVehicleIdentificationResponse_def bind_run_Inr_iff)
  have "udp_channel.truncate w1 = udp_channel.truncate w" by (rule indicate_chan [OF ind])
  with rest show ?thesis
    by (cases r; cases mo) (auto simp: bind_run_Inr_iff dest!: copy_chan handle_chan)
qed

lemma udp_receive_frame:
  assumes "udp_receive h add_meta_info rx m w = Inr w'"
  shows "udp_channel.truncate w' = udp_channel.truncate w"
proof -
  obtain ip port p where m: "m = (ip, port, p)" by (cases m)
  show ?thesis
  proof (cases rx)
    case kBroadcast
    with assms m show ?thesis by (simp add: udp_receive_def HandleMessageBroadcast_eq split: if_splits)
  next
    case kUnicast
    with assms m show ?thesis
      by (auto simp: udp_receive_def HandleMessageUnicast_eq bind_run_Inr_iff identification_response_frame split: if_splits)
  qed
qed

text \<open>An action of the io context changes a socket and, beyond the channel, the conversation.\<close>

lemma udp_step_frame:
  assumes "udp_step h add_meta_info e w = Inr w'" and "udp_chan_ok w"
  obtains rx s where "udp_ok s" "udp_channel.truncate w' = udp_channel.truncate (set_socket rx s w)"
proof (cases e)
  case (Datagram rx ip port dg)
  with assms that [of "datagram_arrives ip port dg (socket_of rx w)" rx] show thesis
    by (simp add: udp_ok_arrives udp_chan_ok_socket)
next
  case (Receive_Error rx)
  with assms that [of "receive_fails (socket_of rx w)" rx] show thesis
    by (simp add: udp_ok_fails udp_chan_ok_socket)
next
  case (Completion rx)
  from receive_completes_Inr [OF udp_chan_ok_socket [OF assms(2)]]
  obtain mo s where r: "receive_completes (socket_of rx w) = Inr (mo, s)" "udp_ok s" by blast
  show thesis
  proof (cases mo)
    case None
    with assms r Completion that [of s rx] show thesis by simp
  next
    case (Some m)
    with assms(1) r Completion have "udp_receive h add_meta_info rx m (set_socket rx s w) = Inr w'" by simp
    with r(2) that show thesis using udp_receive_frame by blast
  qed
qed

lemma udp_step_ok:
  assumes "udp_step h add_meta_info e w = Inr w'" and "udp_chan_ok w"
  shows "udp_chan_ok w' \<and> vi_timer w' = vi_timer w \<and> udp_sent w' = udp_sent w \<and> vi_in s w' = vi_in s w"
  using assms
proof (rule udp_step_frame)
  fix rx s
  assume "udp_ok s" and t: "udp_channel.truncate w' = udp_channel.truncate (set_socket rx s w)"
  from udp_truncate_fields [OF t] udp_chan_ok_set_socket [OF assms(2) \<open>udp_ok s\<close>] show ?thesis by simp
qed

end

sublocale udp_conversation < vi_wait: timed_wait vi_timer vi_timer_update "udp_step h add_meta_info"
proof unfold_locales
  fix e w w'
  assume "udp_step h add_meta_info e w = Inr w'" and "\<not> exit_request (vi_timer w)"
  then show "\<not> exit_request (vi_timer w')"
  proof (cases e)
    case (Completion rx)
    with \<open>udp_step h add_meta_info e w = Inr w'\<close> obtain mo s where
      "(case mo of None \<Rightarrow> Inr (set_socket rx s w)
        | Some m \<Rightarrow> udp_receive h add_meta_info rx m (set_socket rx s w)) = Inr w'"
      by (auto simp: bind_run_Inr_iff)
    with \<open>\<not> exit_request (vi_timer w)\<close> show ?thesis
      by (auto split: option.splits dest!: udp_receive_frame udp_truncate_fields(5))
  qed auto
qed simp

context udp_conversation
begin

lemma deliver_all_ok:
  assumes "deliver_all (udp_step h add_meta_info) es w = Inr w'" and "udp_chan_ok w"
  shows "udp_chan_ok w' \<and> vi_timer w' = vi_timer w \<and> udp_sent w' = udp_sent w \<and> (\<forall>s. vi_in s w' = vi_in s w)"
  using deliver_all_invariant [of "udp_step h add_meta_info"
      "\<lambda>v. udp_chan_ok v \<and> vi_timer v = vi_timer w \<and> udp_sent v = udp_sent w \<and> (\<forall>s. vi_in s v = vi_in s w)" es w w']
    udp_step_ok assms by fastforce

text \<open>
  The blocking call. \<open>P\<close> is any fact about the conversation that the io context and the operations of
  the call keep; the request occupies the whole window, since nothing cancels its timer.
\<close>

lemma identification_request_cases:
  assumes ret: "HandleVehicleIdentificationRequest io (udp_step h add_meta_info) now win1 win2 evs msg w
      = Returns (r, t, w', rest)"
    and ok: "udp_chan_ok w"
    and P: "\<And>e v v'. e \<in> E \<Longrightarrow> udp_step h add_meta_info e v = Inr v' \<Longrightarrow> udp_chan_ok v \<Longrightarrow> P v \<Longrightarrow> P v'"
    and frame: "\<And>v v'. udp_channel.more v' = udp_channel.more v \<Longrightarrow> P v \<Longrightarrow> P v'"
    and E: "set win1 \<union> set win2 \<union> events_of evs \<subseteq> E" and "P w"
  obtains (Busy) "\<not> vi_in vi_kIdle w" "r = kTransmitFailed" "t = now" "w' = w" "rest = evs"
  | (NotSent) "vi_in vi_kIdle w" "r = kTransmitFailed" "t = now" "rest = evs" "udp_chan_ok w'" "P w'"
      "vi_in vi_kIdle w'" "udp_sent w' = udp_sent w"
  | (Collected) q where "vi_in vi_kIdle w" "compose_vehicle_identification_req (uds_payload msg) = Inr q"
      "r = kTransmitOk" "now + 2000 \<le> t" "udp_chan_ok w'" "P w'" "vi_in vi_kIdle w'"
      "udp_sent w' = udp_sent w @ [(uds_host_ip msg, uds_host_port msg, q)]"
proof (cases "vi_in vi_kIdle w")
  case False
  with ret have "r = kTransmitFailed" "t = now" "w' = w" "rest = evs"
    by (simp_all add: HandleVehicleIdentificationRequest_def)
  with False show thesis by (rule Busy)
next
  case True
  let ?step = "udp_step h add_meta_info"
  let ?I = "\<lambda>u v. udp_chan_ok v \<and> vi_timer v = vi_timer u \<and> udp_sent v = udp_sent u \<and> P v"
  have step_I: "\<And>u e v v'. e \<in> E \<Longrightarrow> ?step e v = Inr v' \<Longrightarrow> ?I u v \<Longrightarrow> ?I u v'"
    using P udp_step_ok by metis
  have del_I: "\<And>u es v v'. set es \<subseteq> E \<Longrightarrow> deliver_all ?step es v = Inr v' \<Longrightarrow> ?I u v \<Longrightarrow> ?I u v'"
    by (rule deliver_all_invariant_on [of E ?step "?I _"], rule step_I)
  let ?w0 = "vi_goto vi_kWaitForVehicleIdentificationRes w"
  have w0: "?I w ?w0" using ok \<open>P w\<close> frame [of ?w0 w] by simp
  from ret True obtain w1 r2 w2 where w1: "deliver_all ?step win1 ?w0 = Inr w1"
    and sd: "SendVehicleIdentificationRequest io msg w1 = Inr (r2, w2)"
    and cont: "(if r2 = kTransmitOk then
            bind_call (call_of_run (deliver_all ?step win2 w2)) (\<lambda>w3.
            bind_call
              (WaitForTimeout vi_timer vi_timer_update ?step vi_timeout_func vi_cancellation_func kDoIPCtrl now w3 evs)
              (\<lambda>(ret_val, t, w4, rest). Returns (ret_val, t, vi_goto vi_kIdle w4, rest)))
          else Returns (kTransmitFailed, now, vi_goto vi_kIdle w2, evs)) = Returns (r, t, w', rest)"
    by (auto simp: HandleVehicleIdentificationRequest_def bind_call_Returns_iff call_of_run_Returns_iff)
  from E have sub: "set win1 \<subseteq> E" "set win2 \<subseteq> E" "events_of evs \<subseteq> E" by auto
  from del_I [OF sub(1) w1 w0] have i1: "?I w w1" .
  have mores: "\<And>s v. udp_channel.more (v\<lparr>uc_socket := s\<rparr>) = udp_channel.more v" by simp
  from sd show thesis
  proof (cases rule: SendVehicleIdentificationRequest_Inr)
    case Failed
    with cont have res: "r = kTransmitFailed" "t = now" "w' = vi_goto vi_kIdle w1" "rest = evs" by simp_all
    have "P w'" using i1 frame [of w' w1] by (simp add: res)
    with True res i1 show thesis by (intro NotSent) (simp_all add: udp_chan_ok_known)
  next
    case (Ok q)
    note q = Ok(1) and w2 = Ok(3)
    have "P w2" using i1 frame [of w2 w1] by (simp add: w2)
    moreover from i1 [THEN conjunct1] have "udp_chan_ok w2" by (simp add: w2 udp_chan_ok_def vi_in_def vi_known_def)
    ultimately have i2: "?I w2 w2" by simp
    from cont Ok(2) obtain w3 ret_val w4 where w3: "deliver_all ?step win2 w2 = Inr w3"
      and wt: "WaitForTimeout vi_timer vi_timer_update ?step vi_timeout_func vi_cancellation_func kDoIPCtrl now w3 evs
          = Returns (ret_val, t, w4, rest)"
      and res: "r = ret_val" "w' = vi_goto vi_kIdle w4"
      by (auto simp: bind_call_Returns_iff call_of_run_Returns_iff)
    from del_I [OF sub(2) w3 i2] have i3: "?I w2 w3" .
    let ?w3 = "vi_timer_update SyncTimer_arm w3"
    have "P ?w3" using i3 frame [of ?w3 w3] by simp
    with i3 have i3': "?I ?w3 ?w3" by simp
    have ex: "\<not> exit_request (vi_timer w3)" using i3 [THEN conjunct1] by (simp add: udp_chan_ok_def)
    from wt ex step_I sub(3) i3' show thesis
    proof (rule vi_wait.WaitForTimeout_cases [where P = "?I ?w3"])
      fix v
      assume v: "?I ?w3 v" "now + kDoIPCtrl \<le> t" and f: "vi_timeout_func v = (ret_val, w4)"
      have "P w'" using v(1) f frame [of w' v] by (auto simp: res vi_timeout_func_def)
      with v f i3 show thesis
        by (intro Collected [OF \<open>vi_in vi_kIdle w\<close> q])
           (auto simp: res vi_timeout_func_def doip_consts w2 udp_chan_ok_known i1)
    next
      fix v
      assume "?I ?w3 v" and "\<not> start_running (vi_timer v)"
      then show thesis by simp
    qed
  qed
qed

end

end
