(* ===== verification/Routing_Activation.thy ===== *)
theory Routing_Activation
  imports Uds_Transport
begin

text \<open>
  The routing activation handler (\<open>channel/tcp_channel/doip_routing_activation_handler.cpp\<close>):
  its four-state protocol context, the request it composes, the call that sends it and waits for
  the answer, and the processing of the answer on the reader thread.
\<close>

section \<open>Constants\<close>

definition kDoip_RoutingActivation_ReqActType_Default :: u8 where
  [doip_consts]: "kDoip_RoutingActivation_ReqActType_Default = 0x00"
definition kDoipRoutingActivationResCodeRoutingSuccessful :: u8 where
  [doip_consts]: "kDoipRoutingActivationResCodeRoutingSuccessful = 0x10"
definition kDoipRoutingActivationResCodeConfirmtnRequired :: u8 where
  [doip_consts]: "kDoipRoutingActivationResCodeConfirmtnRequired = 0x11"
definition kDoipRoutingActivationReqMinLen :: u32 where
  [doip_consts]: "kDoipRoutingActivationReqMinLen = 7"
definition kDoip_RoutingActivation_ReqType :: u16 where
  [doip_consts]: "kDoip_RoutingActivation_ReqType = 0x0005"
definition kDoip_RoutingActivation_ResType :: u16 where
  [doip_consts]: "kDoip_RoutingActivation_ResType = 0x0006"
definition kDoIPRoutingActivationTimeout :: nat where
  [doip_consts]: "kDoIPRoutingActivationTimeout = 1000"

text \<open>The text logged when the activation is denied.\<close>

definition RoutingActivationAckType_text :: "u8 \<Rightarrow> string" where
  "RoutingActivationAckType_text act_type =
     (if act_type = 0x00 then ''unknown source address.''
      else if act_type = 0x01 then ''all socket active.''
      else if act_type = 0x02 then ''SA different on already connected socket.''
      else if act_type = 0x03 then ''SA active on different socket.''
      else if act_type = 0x04 then ''missing authentication.''
      else if act_type = 0x05 then ''rejected confirmation.''
      else if act_type = 0x06 then ''unsupported routing activation type.''
      else if act_type = 0x07 then ''required TLS socket.''
      else ''unknown reason.'') @ '' (0x'' @ to_hex (unat act_type) @ '')''"

section \<open>State\<close>

datatype RoutingActivationState =
    ra_kIdle | ra_kWaitForRoutingActivationRes | ra_kRoutingActivationSuccessful | ra_kRoutingActivationFailed

record routing_handler = tcp_client +
  ra_context :: "RoutingActivationState StateContext"
  ra_timer :: SyncTimer

definition new_ra_context :: "RoutingActivationState StateContext" where
  "new_ra_context =
     TransitionTo ra_kIdle
       (AddState ra_kRoutingActivationFailed
         (AddState ra_kRoutingActivationSuccessful
           (AddState ra_kWaitForRoutingActivationRes
             (AddState ra_kIdle new_StateContext))))"

definition ra_in :: "RoutingActivationState \<Rightarrow> 'a routing_handler_scheme \<Rightarrow> bool" where
  "ra_in s w \<longleftrightarrow> in_state (ra_context w) s"

definition ra_goto :: "RoutingActivationState \<Rightarrow> 'a routing_handler_scheme \<Rightarrow> 'a routing_handler_scheme" where
  "ra_goto s w = w\<lparr>ra_context := TransitionTo s (ra_context w)\<rparr>"

definition ra_cancel :: "'a routing_handler_scheme \<Rightarrow> 'a routing_handler_scheme" where
  "ra_cancel w = w\<lparr>ra_timer := CancelWait (ra_timer w)\<rparr>"

section \<open>Operations\<close>

definition RoutingActivationHandler_Start :: "'a routing_handler_scheme \<Rightarrow> 'a routing_handler_scheme" where
  "RoutingActivationHandler_Start w = w"

definition RoutingActivationHandler_Stop :: "'a routing_handler_scheme \<Rightarrow> 'a routing_handler_scheme" where
  "RoutingActivationHandler_Stop w =
     ra_goto ra_kIdle (if IsTimerActive (ra_timer w) then ra_cancel w else w)"

definition RoutingActivationHandler_Reset :: "'a routing_handler_scheme \<Rightarrow> 'a routing_handler_scheme" where
  "RoutingActivationHandler_Reset w = RoutingActivationHandler_Stop w"

definition IsRoutingActivated :: "'a routing_handler_scheme \<Rightarrow> bool" where
  "IsRoutingActivated w \<longleftrightarrow> ra_in ra_kRoutingActivationSuccessful w"

text \<open>
  The answer, on the reader thread. Every code but the successful one, the "confirmation
  required" code included, leaves the default final state.
\<close>

definition ProcessDoIPRoutingActivationResponse ::
    "DoipMessage \<Rightarrow> 'a routing_handler_scheme \<Rightarrow> 'a routing_handler_scheme run" where
  "ProcessDoIPRoutingActivationResponse m w =
     (if ra_in ra_kWaitForRoutingActivationRes w then
        bind_run (span_at (payload m) 0) (\<lambda>act_type.
          let final_state =
            (if act_type = kDoipRoutingActivationResCodeRoutingSuccessful then ra_kRoutingActivationSuccessful
             else if act_type = kDoipRoutingActivationResCodeConfirmtnRequired then ra_kRoutingActivationFailed
             else ra_kRoutingActivationFailed)
          in Inr (ra_cancel (ra_goto final_state w)))
      else Inr w)"

definition ra_CreateDoipGenericHeader :: "u16 \<Rightarrow> u32 \<Rightarrow> bytes" where
  "ra_CreateDoipGenericHeader ty len =
     [kDoip_ProtocolVersion,
      NOT kDoip_ProtocolVersion,
      u16_hi ty, u16_lo ty,
      u32_b3 len, u32_b2 len, u32_b1 len, u32_b0 len]"

definition compose_routing_activation_req :: "UdsMessage \<Rightarrow> bytes" where
  "compose_routing_activation_req msg =
     ra_CreateDoipGenericHeader kDoip_RoutingActivation_ReqType kDoipRoutingActivationReqMinLen @
     [u16_hi (uds_sa msg), u16_lo (uds_sa msg)] @
     [kDoip_RoutingActivation_ReqActType_Default] @
     [0x00, 0x00, 0x00, 0x00]"

definition SendRoutingActivationRequest ::
    "asio_io \<Rightarrow> UdsMessage \<Rightarrow> 'a routing_handler_scheme \<Rightarrow> (TransmissionResult \<times> 'a routing_handler_scheme) run" where
  "SendRoutingActivationRequest io msg w =
     bind_run (TcpSocketHandler_Transmit io (compose_routing_activation_req msg) w) (\<lambda>(r, w').
       Inr (if HasValue r then kTransmitOk else kTransmitFailed, w'))"

definition ra_timeout_func :: "'a routing_handler_scheme \<Rightarrow> ConnectionResult \<times> 'a routing_handler_scheme" where
  "ra_timeout_func w = (kConnectionTimeout, ra_goto ra_kIdle w)"

definition ra_cancellation_func :: "'a routing_handler_scheme \<Rightarrow> ConnectionResult \<times> 'a routing_handler_scheme" where
  "ra_cancellation_func w =
     (if ra_in ra_kRoutingActivationSuccessful w then (kConnectionOk, w)
      else (kConnectionFailed, ra_goto ra_kIdle w))"

text \<open>
  The call, on the thread of the application. \<open>step\<close> is what the other threads can do; they may
  do \<open>win1\<close> between the transmission and the transition, \<open>win2\<close> between the transition and the
  arming of the timer, and \<open>evs\<close> while the call waits. The result is the connection result, the
  time, the state and the rest of the schedule.
\<close>

definition HandleRoutingActivationRequest ::
    "asio_io \<Rightarrow> ('ev \<Rightarrow> 'a routing_handler_scheme \<Rightarrow> 'a routing_handler_scheme run) \<Rightarrow> nat \<Rightarrow>
     'ev list \<Rightarrow> 'ev list \<Rightarrow> (nat \<times> 'ev list) list \<Rightarrow> UdsMessage \<Rightarrow> 'a routing_handler_scheme \<Rightarrow>
     (ConnectionResult \<times> nat \<times> 'a routing_handler_scheme \<times> (nat \<times> 'ev list) list) call" where
  "HandleRoutingActivationRequest io step now win1 win2 evs msg w =
     (if ra_in ra_kIdle w then
        bind_call (call_of_run (SendRoutingActivationRequest io msg w)) (\<lambda>(r, w1).
           if r = kTransmitOk then
             bind_call (call_of_run (deliver_all step win1 w1)) (\<lambda>w2.
             bind_call (call_of_run (deliver_all step win2 (ra_goto ra_kWaitForRoutingActivationRes w2))) (\<lambda>w3.
             WaitForTimeout ra_timer ra_timer_update step ra_timeout_func ra_cancellation_func
               kDoIPRoutingActivationTimeout now w3 evs))
           else Returns (kConnectionFailed, now, ra_goto ra_kIdle w1, evs))
      else Returns (kConnectionFailed, now, w, evs))"

section \<open>Facts\<close>

lemma ra_header_eq [codec_simps]: "ra_CreateDoipGenericHeader = CreateDoipGenericHeader"
  by (simp add: fun_eq_iff ra_CreateDoipGenericHeader_def CreateDoipGenericHeader_def)

text \<open>All four states are known to the context, now and for ever.\<close>

definition ra_known :: "'a routing_handler_scheme \<Rightarrow> bool" where
  "ra_known w \<longleftrightarrow> (\<forall>s. registered (ra_context w) s)"

lemma all_ra_states: "(\<forall>s. P s) \<longleftrightarrow> P ra_kIdle \<and> P ra_kWaitForRoutingActivationRes \<and>
   P ra_kRoutingActivationSuccessful \<and> P ra_kRoutingActivationFailed"
  by (metis RoutingActivationState.exhaust)

lemma new_ra_context_facts [ctx_simps]:
  "registered new_ra_context s" "in_state new_ra_context s \<longleftrightarrow> s = ra_kIdle"
  by (cases s; simp add: new_ra_context_def ctx_simps)+

lemma ra_known_registered [ctx_simps]: "ra_known w \<Longrightarrow> registered (ra_context w) s"
  by (simp add: ra_known_def)

lemma ra_goto_frame [frame_simps, simp]:
  "ra_timer (ra_goto s w) = ra_timer w" "connection_state (ra_goto s w) = connection_state w"
  "running (ra_goto s w) = running w" "sent (ra_goto s w) = sent w" "exit_reader (ra_goto s w) = exit_reader w"
  "reader_started (ra_goto s w) = reader_started w" "ra_known (ra_goto s w) = ra_known w"
  "routing_handler.more (ra_goto s w) = routing_handler.more w"
  by (simp_all add: ra_goto_def ra_known_def)

lemma ra_cancel_frame [frame_simps, simp]:
  "ra_context (ra_cancel w) = ra_context w" "connection_state (ra_cancel w) = connection_state w"
  "running (ra_cancel w) = running w" "sent (ra_cancel w) = sent w" "exit_reader (ra_cancel w) = exit_reader w"
  "reader_started (ra_cancel w) = reader_started w" "ra_known (ra_cancel w) = ra_known w"
  "ra_in s (ra_cancel w) = ra_in s w" "routing_handler.more (ra_cancel w) = routing_handler.more w"
  by (simp_all add: ra_cancel_def ra_known_def ra_in_def)

lemma ra_timer_cancel [ctx_simps, simp]:
  "\<not> start_running (ra_timer (ra_cancel w))"
  "exit_request (ra_timer (ra_cancel w)) = exit_request (ra_timer w)"
  by (simp_all add: ra_cancel_def)

lemma ra_in_goto [ctx_simps, simp]: "ra_known w \<Longrightarrow> ra_in t (ra_goto s w) \<longleftrightarrow> s = t"
  by (simp add: ra_in_def ra_goto_def ra_known_def ctx_simps)

lemma ra_in_unique: "ra_in s w \<Longrightarrow> ra_in t w \<Longrightarrow> s = t"
  by (auto simp: ra_in_def dest: in_state_unique)

lemma ra_known_update [frame_simps, simp]:
  "ra_known (w\<lparr>ra_timer := tm\<rparr>) = ra_known w" "ra_known (w\<lparr>sent := fs\<rparr>) = ra_known w"
  "ra_known (w\<lparr>connection_state := cs\<rparr>) = ra_known w" "ra_known (w\<lparr>running := b\<rparr>) = ra_known w"
  "ra_in s (w\<lparr>ra_timer := tm\<rparr>) = ra_in s w" "ra_in s (w\<lparr>sent := fs\<rparr>) = ra_in s w"
  "ra_in s (w\<lparr>connection_state := cs\<rparr>) = ra_in s w" "ra_in s (w\<lparr>running := b\<rparr>) = ra_in s w"
  by (simp_all add: ra_known_def ra_in_def)

lemma SendRoutingActivationRequest_eq [op_defs]:
  "SendRoutingActivationRequest io msg w =
     (if connection_state w \<noteq> kConnected \<or> \<not> asio_write io (compose_routing_activation_req msg) then Inr (kTransmitFailed, w)
      else if asio_endpoint_written io (compose_routing_activation_req msg)
        then Inr (kTransmitOk, w\<lparr>sent := sent w @ [compose_routing_activation_req msg]\<rparr>)
      else Inl Uncaught_Exception)"
  by (simp add: SendRoutingActivationRequest_def op_defs)

lemma RoutingActivationHandler_Stop_facts [simp]:
  "ra_known w \<Longrightarrow> ra_in s (RoutingActivationHandler_Stop w) \<longleftrightarrow> s = ra_kIdle"
  "ra_known (RoutingActivationHandler_Stop w) = ra_known w"
  "sent (RoutingActivationHandler_Stop w) = sent w"
  "connection_state (RoutingActivationHandler_Stop w) = connection_state w"
  "exit_request (ra_timer (RoutingActivationHandler_Stop w)) = exit_request (ra_timer w)"
  by (auto simp: RoutingActivationHandler_Stop_def)

lemma ProcessRoutingActivation_cases:
  assumes "ProcessDoIPRoutingActivationResponse m w = Inr w'"
  obtains (Ignored) "\<not> ra_in ra_kWaitForRoutingActivationRes w" "w' = w"
  | (Activated) "ra_in ra_kWaitForRoutingActivationRes w"
      "payload m ! 0 = kDoipRoutingActivationResCodeRoutingSuccessful"
      "w' = ra_cancel (ra_goto ra_kRoutingActivationSuccessful w)"
  | (Denied) "ra_in ra_kWaitForRoutingActivationRes w"
      "payload m ! 0 \<noteq> kDoipRoutingActivationResCodeRoutingSuccessful"
      "w' = ra_cancel (ra_goto ra_kRoutingActivationFailed w)"
  using assms
  by (auto simp: ProcessDoIPRoutingActivationResponse_def bind_run_Inr_iff span_at_Inr_iff Let_def split: if_splits)

text \<open>The request is a well-formed frame whose addresses and reserved bytes are laid out as the protocol wants.\<close>

lemma well_framed_routing_activation_req: "well_framed (compose_routing_activation_req msg)"
  unfolding compose_routing_activation_req_def ra_header_eq
  by (rule well_framed_header) (simp_all add: doip_consts)

end
