(* ===== verification/Diagnostic_Message.thy ===== *)
theory Diagnostic_Message
  imports Routing_Activation
begin

text \<open>
  The diagnostic message handler (\<open>channel/tcp_channel/doip_diagnostic_message_handler.cpp\<close>): the
  request it composes, the call that sends it and waits for the acknowledgement, and the
  processing of acknowledgements and responses on the reader thread.
\<close>

section \<open>Constants\<close>

definition kDoipDiagMessage :: u16 where [doip_consts]: "kDoipDiagMessage = 0x8001"
definition kDoipDiagMessagePosAck :: u16 where [doip_consts]: "kDoipDiagMessagePosAck = 0x8002"
definition kDoipDiagMessageNegAck :: u16 where [doip_consts]: "kDoipDiagMessageNegAck = 0x8003"
definition kDoipDiagnosticMessagePosAckCodeConfirm :: u8 where
  [doip_consts]: "kDoipDiagnosticMessagePosAckCodeConfirm = 0x00"
definition kDoipDiagMessageReqResMinLen :: u32 where [doip_consts]: "kDoipDiagMessageReqResMinLen = 4"
definition kDoIPDiagnosticAckTimeout :: nat where [doip_consts]: "kDoIPDiagnosticAckTimeout = 2000"

definition DiagAckType_text :: "u8 \<Rightarrow> string" where
  "DiagAckType_text ack_type =
     (if ack_type = 0x02 then ''invalid source address.''
      else if ack_type = 0x03 then ''unknown target address.''
      else if ack_type = 0x04 then ''diagnostic message too large.''
      else if ack_type = 0x05 then ''server out of memory.''
      else if ack_type = 0x06 then ''target unreachable.''
      else if ack_type = 0x07 then ''unknown network.''
      else if ack_type = 0x08 then ''transport protocol error.''
      else ''unknown reason.'')"

section \<open>State\<close>

datatype DiagnosticMessageState =
    dm_kIdle | dm_kSendDiagnosticReqFailed | dm_kWaitForDiagnosticAck
  | dm_kDiagnosticPositiveAckRecvd | dm_kDiagnosticNegativeAckRecvd
  | dm_kWaitForDiagnosticResponse | dm_kDiagnosticFinalResRecvd

record diag_handler = routing_handler +
  dm_context :: "DiagnosticMessageState StateContext"
  dm_timer :: SyncTimer

text \<open>The last state of the enumeration is never registered.\<close>

definition new_dm_context :: "DiagnosticMessageState StateContext" where
  "new_dm_context =
     TransitionTo dm_kIdle
       (AddState dm_kWaitForDiagnosticResponse
         (AddState dm_kDiagnosticNegativeAckRecvd
           (AddState dm_kDiagnosticPositiveAckRecvd
             (AddState dm_kWaitForDiagnosticAck
               (AddState dm_kSendDiagnosticReqFailed
                 (AddState dm_kIdle new_StateContext))))))"

definition dm_in :: "DiagnosticMessageState \<Rightarrow> 'a diag_handler_scheme \<Rightarrow> bool" where
  "dm_in s w \<longleftrightarrow> in_state (dm_context w) s"

definition dm_goto :: "DiagnosticMessageState \<Rightarrow> 'a diag_handler_scheme \<Rightarrow> 'a diag_handler_scheme" where
  "dm_goto s w = w\<lparr>dm_context := TransitionTo s (dm_context w)\<rparr>"

definition dm_cancel :: "'a diag_handler_scheme \<Rightarrow> 'a diag_handler_scheme" where
  "dm_cancel w = w\<lparr>dm_timer := CancelWait (dm_timer w)\<rparr>"

section \<open>Operations\<close>

definition DiagnosticMessageHandler_Start :: "'a diag_handler_scheme \<Rightarrow> 'a diag_handler_scheme" where
  "DiagnosticMessageHandler_Start w = w"

definition DiagnosticMessageHandler_Stop :: "'a diag_handler_scheme \<Rightarrow> 'a diag_handler_scheme" where
  "DiagnosticMessageHandler_Stop w =
     dm_goto dm_kIdle (if IsTimerActive (dm_timer w) then dm_cancel w else w)"

definition DiagnosticMessageHandler_Reset :: "'a diag_handler_scheme \<Rightarrow> 'a diag_handler_scheme" where
  "DiagnosticMessageHandler_Reset w = DiagnosticMessageHandler_Stop w"

definition ProcessDoIPDiagnosticAckMessageResponse ::
    "DoipMessage \<Rightarrow> 'a diag_handler_scheme \<Rightarrow> 'a diag_handler_scheme run" where
  "ProcessDoIPDiagnosticAckMessageResponse m w =
     (if dm_in dm_kWaitForDiagnosticAck w then
        bind_run (span_at (payload m) 0) (\<lambda>ack_type.
          let final_state =
            (if payload_type m = kDoipDiagMessagePosAck then
               (if ack_type = kDoipDiagnosticMessagePosAckCodeConfirm then dm_kDiagnosticPositiveAckRecvd
                else dm_kDiagnosticNegativeAckRecvd)
             else dm_kDiagnosticNegativeAckRecvd)
          in Inr (dm_cancel (dm_goto final_state w)))
      else Inr w)"

text \<open>
  The response, on the reader thread. A pending response leaves the state alone; anything else,
  a message that was refused included, takes the handler back to idle.
\<close>

definition ProcessDoIPDiagnosticMessageResponse ::
    "('m, 'a diag_handler_scheme) ConversionHandler \<Rightarrow> DoipMessage \<Rightarrow> 'a diag_handler_scheme \<Rightarrow>
     'a diag_handler_scheme run" where
  "ProcessDoIPDiagnosticMessageResponse h m w =
     (if dm_in dm_kWaitForDiagnosticResponse w then
        bind_run (IndicateMessage h (server_address m) (client_address m) (length (payload m)) (payload m) w)
          (\<lambda>(r, msg, w1).
            if r = kIndicationPending then Inr w1
            else
              bind_run
                (case (r, msg) of
                   (kIndicationOk, Some msg) \<Rightarrow>
                     bind_run (message_copy h (payload m) msg w1) (\<lambda>(msg', w2). HandleMessage h msg' w2)
                 | _ \<Rightarrow> Inr w1)
                (\<lambda>w3. Inr (dm_goto dm_kIdle w3)))
      else Inr w)"

definition dm_CreateDoipGenericHeader :: "u16 \<Rightarrow> u32 \<Rightarrow> bytes" where
  "dm_CreateDoipGenericHeader ty len =
     [kDoip_ProtocolVersion,
      NOT kDoip_ProtocolVersion,
      u16_hi ty, u16_lo ty,
      u32_b3 len, u32_b2 len, u32_b1 len, u32_b0 len]"

text \<open>
  The length is computed in \<open>size_t\<close> and narrowed to 32 bits. The data is inserted at offset 12,
  which is the end of what was appended before.
\<close>

definition compose_diag_req :: "UdsMessage \<Rightarrow> bytes" where
  "compose_diag_req msg =
     (let total_diagnostic_response_length =
            word_of_nat (unat kDoipDiagMessageReqResMinLen + length (uds_payload msg)) :: u32
      in dm_CreateDoipGenericHeader kDoipDiagMessage total_diagnostic_response_length @
         [u16_hi (uds_sa msg), u16_lo (uds_sa msg)] @
         [u16_hi (uds_ta msg), u16_lo (uds_ta msg)] @
         uds_payload msg)"

definition dm_SendDiagnosticRequest ::
    "asio_io \<Rightarrow> UdsMessage \<Rightarrow> 'a diag_handler_scheme \<Rightarrow> (TransmissionResult \<times> 'a diag_handler_scheme) run" where
  "dm_SendDiagnosticRequest io msg w =
     bind_run (TcpSocketHandler_Transmit io (compose_diag_req msg) w) (\<lambda>(r, w').
       Inr (if HasValue r then kTransmitOk else kTransmitFailed, w'))"

definition dm_timeout_func :: "'a diag_handler_scheme \<Rightarrow> TransmissionResult \<times> 'a diag_handler_scheme" where
  "dm_timeout_func w = (kNoTransmitAckReceived, dm_goto dm_kIdle w)"

definition dm_cancellation_func :: "'a diag_handler_scheme \<Rightarrow> TransmissionResult \<times> 'a diag_handler_scheme" where
  "dm_cancellation_func w =
     (if dm_in dm_kDiagnosticPositiveAckRecvd w then (kTransmitOk, dm_goto dm_kWaitForDiagnosticResponse w)
      else (kNegTransmitAckReceived, dm_goto dm_kIdle w))"

text \<open>The call, on the thread of the application, with the same windows as for routing activation.\<close>

definition HandleDiagnosticRequest ::
    "asio_io \<Rightarrow> ('ev \<Rightarrow> 'a diag_handler_scheme \<Rightarrow> 'a diag_handler_scheme run) \<Rightarrow> nat \<Rightarrow>
     'ev list \<Rightarrow> 'ev list \<Rightarrow> (nat \<times> 'ev list) list \<Rightarrow> UdsMessage \<Rightarrow> 'a diag_handler_scheme \<Rightarrow>
     (TransmissionResult \<times> nat \<times> 'a diag_handler_scheme \<times> (nat \<times> 'ev list) list) call" where
  "HandleDiagnosticRequest io step now win1 win2 evs msg w =
     (if dm_in dm_kIdle w then
        bind_call (call_of_run (dm_SendDiagnosticRequest io msg w)) (\<lambda>(r, w1).
           if r = kTransmitOk then
             bind_call (call_of_run (deliver_all step win1 w1)) (\<lambda>w2.
             bind_call (call_of_run (deliver_all step win2 (dm_goto dm_kWaitForDiagnosticAck w2))) (\<lambda>w3.
             WaitForTimeout dm_timer dm_timer_update step dm_timeout_func dm_cancellation_func
               kDoIPDiagnosticAckTimeout now w3 evs))
           else Returns (kTransmitFailed, now, dm_goto dm_kIdle w1, evs))
      else Returns (kBusyProcessing, now, w, evs))"

section \<open>Facts\<close>

lemma dm_header_eq [codec_simps]: "dm_CreateDoipGenericHeader = CreateDoipGenericHeader"
  by (simp add: fun_eq_iff dm_CreateDoipGenericHeader_def CreateDoipGenericHeader_def)

definition dm_known :: "'a diag_handler_scheme \<Rightarrow> bool" where
  "dm_known w \<longleftrightarrow> (\<forall>s. s \<noteq> dm_kDiagnosticFinalResRecvd \<longrightarrow> registered (dm_context w) s)"

lemma new_dm_context_facts [ctx_simps]:
  "registered new_dm_context s \<longleftrightarrow> s \<noteq> dm_kDiagnosticFinalResRecvd"
  "in_state new_dm_context s \<longleftrightarrow> s = dm_kIdle"
  by (cases s; simp add: new_dm_context_def ctx_simps)+

lemma dm_goto_frame [frame_simps, simp]:
  "dm_timer (dm_goto s w) = dm_timer w" "connection_state (dm_goto s w) = connection_state w"
  "running (dm_goto s w) = running w" "sent (dm_goto s w) = sent w" "exit_reader (dm_goto s w) = exit_reader w"
  "ra_context (dm_goto s w) = ra_context w" "ra_timer (dm_goto s w) = ra_timer w"
  "ra_in r (dm_goto s w) = ra_in r w" "ra_known (dm_goto s w) = ra_known w"
  "dm_known (dm_goto s w) = dm_known w" "diag_handler.more (dm_goto s w) = diag_handler.more w"
  by (simp_all add: dm_goto_def dm_known_def ra_in_def ra_known_def)

lemma dm_cancel_frame [frame_simps, simp]:
  "dm_context (dm_cancel w) = dm_context w" "connection_state (dm_cancel w) = connection_state w"
  "running (dm_cancel w) = running w" "sent (dm_cancel w) = sent w" "exit_reader (dm_cancel w) = exit_reader w"
  "ra_context (dm_cancel w) = ra_context w" "ra_timer (dm_cancel w) = ra_timer w"
  "ra_in r (dm_cancel w) = ra_in r w" "ra_known (dm_cancel w) = ra_known w"
  "dm_known (dm_cancel w) = dm_known w" "dm_in s (dm_cancel w) = dm_in s w"
  "diag_handler.more (dm_cancel w) = diag_handler.more w"
  by (simp_all add: dm_cancel_def dm_known_def dm_in_def ra_in_def ra_known_def)

lemma dm_timer_cancel [ctx_simps, simp]:
  "\<not> start_running (dm_timer (dm_cancel w))"
  "exit_request (dm_timer (dm_cancel w)) = exit_request (dm_timer w)"
  by (simp_all add: dm_cancel_def)

lemma dm_in_goto [ctx_simps, simp]:
  "dm_known w \<Longrightarrow> s \<noteq> dm_kDiagnosticFinalResRecvd \<Longrightarrow> dm_in t (dm_goto s w) \<longleftrightarrow> s = t"
  by (simp add: dm_in_def dm_goto_def dm_known_def ctx_simps)

lemma dm_in_unique: "dm_in s w \<Longrightarrow> dm_in t w \<Longrightarrow> s = t"
  by (auto simp: dm_in_def dest: in_state_unique)

lemma dm_update_frame [frame_simps, simp]:
  "dm_known (w\<lparr>dm_timer := tm\<rparr>) = dm_known w" "dm_known (w\<lparr>sent := fs\<rparr>) = dm_known w"
  "dm_known (w\<lparr>connection_state := cs\<rparr>) = dm_known w" "dm_known (w\<lparr>running := b\<rparr>) = dm_known w"
  "dm_known (w\<lparr>ra_timer := rt\<rparr>) = dm_known w"
  "dm_in s (w\<lparr>dm_timer := tm\<rparr>) = dm_in s w" "dm_in s (w\<lparr>sent := fs\<rparr>) = dm_in s w"
  "dm_in s (w\<lparr>connection_state := cs\<rparr>) = dm_in s w" "dm_in s (w\<lparr>running := b\<rparr>) = dm_in s w"
  "dm_in s (w\<lparr>ra_timer := rt\<rparr>) = dm_in s w"
  "ra_known (w\<lparr>dm_timer := tm\<rparr>) = ra_known w" "ra_in r (w\<lparr>dm_timer := tm\<rparr>) = ra_in r w"
  by (simp_all add: dm_known_def dm_in_def ra_known_def ra_in_def)

lemma ra_ops_keep_dm [frame_simps, simp]:
  "dm_context (ra_goto r w) = dm_context w" "dm_timer (ra_goto r w) = dm_timer w"
  "dm_in s (ra_goto r w) = dm_in s w" "dm_known (ra_goto r w) = dm_known w"
  "dm_context (ra_cancel w) = dm_context w" "dm_timer (ra_cancel w) = dm_timer w"
  "dm_in s (ra_cancel w) = dm_in s w" "dm_known (ra_cancel w) = dm_known w"
  by (simp_all add: ra_goto_def ra_cancel_def dm_in_def dm_known_def)

lemma dm_SendDiagnosticRequest_eq [op_defs]:
  "dm_SendDiagnosticRequest io msg w =
     (if connection_state w \<noteq> kConnected \<or> \<not> asio_write io (compose_diag_req msg) then Inr (kTransmitFailed, w)
      else if asio_endpoint_written io (compose_diag_req msg)
        then Inr (kTransmitOk, w\<lparr>sent := sent w @ [compose_diag_req msg]\<rparr>)
      else Inl Uncaught_Exception)"
  by (simp add: dm_SendDiagnosticRequest_def op_defs)

lemma compose_diag_req_frame:
  "compose_diag_req msg =
     tcp_frame kDoipDiagMessage (word_of_nat (4 + length (uds_payload msg))) (uds_sa msg) (uds_ta msg) (uds_payload msg)"
  by (simp add: compose_diag_req_def tcp_frame_def dm_header_eq doip_consts)

lemma well_framed_diag_req:
  assumes "length (uds_payload msg) < 2 ^ 32 - 4"
  shows "well_framed (compose_diag_req msg)"
proof -
  have u: "unat (word_of_nat (4 + length (uds_payload msg)) :: u32) = 4 + length (uds_payload msg)"
    unfolding unat_of_nat using assms by simp
  then have nz: "(word_of_nat (4 + length (uds_payload msg)) :: u32) \<noteq> 0" by auto
  show ?thesis
    unfolding compose_diag_req_frame tcp_frame_def
    by (rule well_framed_header [OF nz], unfold u, simp)
qed

lemma DiagnosticMessageHandler_Stop_facts [simp]:
  "dm_known w \<Longrightarrow> dm_in s (DiagnosticMessageHandler_Stop w) \<longleftrightarrow> s = dm_kIdle"
  "dm_known (DiagnosticMessageHandler_Stop w) = dm_known w"
  "sent (DiagnosticMessageHandler_Stop w) = sent w"
  "connection_state (DiagnosticMessageHandler_Stop w) = connection_state w"
  "ra_in r (DiagnosticMessageHandler_Stop w) = ra_in r w"
  "ra_known (DiagnosticMessageHandler_Stop w) = ra_known w"
  by (auto simp: DiagnosticMessageHandler_Stop_def)

lemma RoutingActivationHandler_Stop_dm [simp]:
  "dm_in s (RoutingActivationHandler_Stop w) = dm_in s w"
  "dm_known (RoutingActivationHandler_Stop w) = dm_known w"
  by (auto simp: RoutingActivationHandler_Stop_def)

lemma ProcessDiagnosticAck_cases:
  assumes "ProcessDoIPDiagnosticAckMessageResponse m w = Inr w'"
  obtains (Ignored) "\<not> dm_in dm_kWaitForDiagnosticAck w" "w' = w"
  | (Positive) "dm_in dm_kWaitForDiagnosticAck w" "payload_type m = kDoipDiagMessagePosAck"
      "payload m ! 0 = kDoipDiagnosticMessagePosAckCodeConfirm"
      "w' = dm_cancel (dm_goto dm_kDiagnosticPositiveAckRecvd w)"
  | (Negative) "dm_in dm_kWaitForDiagnosticAck w"
      "payload_type m \<noteq> kDoipDiagMessagePosAck \<or> payload m ! 0 \<noteq> kDoipDiagnosticMessagePosAckCodeConfirm"
      "w' = dm_cancel (dm_goto dm_kDiagnosticNegativeAckRecvd w)"
  using assms
  by (auto simp: ProcessDoIPDiagnosticAckMessageResponse_def bind_run_Inr_iff span_at_Inr_iff Let_def split: if_splits)

text \<open>
  The response, against any conversation that keeps to the contract: the handler keeps its hands
  off everything but its own state, and cannot fail for lack of room in the message.
\<close>

context conversion_handler begin

lemma response_fill_and_handle:
  assumes "IndicateMessage h sa ta (length p) p w = Inr (kIndicationOk, Some msg, w1)"
    and "\<And>m w. valid m (length p) w \<Longrightarrow> \<exists>w'. HandleMessage h m w = Inr w'"
  shows "\<exists>w'. bind_run (message_copy h p msg w1) (\<lambda>(msg', w2). HandleMessage h msg' w2) = Inr w' \<and> chan w' = chan w"
proof -
  obtain m' w2 where c: "message_copy h p msg w1 = Inr (m', w2)" "valid m' (length p) w2" "chan w2 = chan w"
    using accepted_message_fills [OF assms(1)] by blast
  then obtain w' where hm: "HandleMessage h m' w2 = Inr w'" using assms(2) by blast
  with handle_chan [OF hm] c show ?thesis by simp
qed

end

end
