(* ===== verification/Tcp_Channel.thy ===== *)
theory Tcp_Channel
  imports Diagnostic_Message
begin

text \<open>
  The TCP channel (\<open>channel/tcp_channel/doip_tcp_channel_handler.cpp\<close> and
  \<open>doip_tcp_channel.cpp\<close>, reached through \<open>DoipTcpConnection\<close> of
  \<open>connection/connection_manager.cpp\<close>): the header checks of a received frame, its dispatch to
  the two handlers, and the operations of the application, with what the other threads can do
  to the channel while one of them blocks.
\<close>

section \<open>Constants\<close>

definition kDoip_AliveCheck_ReqType :: u16 where [doip_consts]: "kDoip_AliveCheck_ReqType = 0x0007"
definition kDoip_GenericHeader_IncorrectPattern :: u8 where
  [doip_consts]: "kDoip_GenericHeader_IncorrectPattern = 0x00"
definition kDoip_GenericHeader_UnknownPayload :: u8 where
  [doip_consts]: "kDoip_GenericHeader_UnknownPayload = 0x01"
definition kDoip_GenericHeader_MessageTooLarge :: u8 where
  [doip_consts]: "kDoip_GenericHeader_MessageTooLarge = 0x02"
definition kDoip_GenericHeader_OutOfMemory :: u8 where
  [doip_consts]: "kDoip_GenericHeader_OutOfMemory = 0x03"
definition kDoip_GenericHeader_InvalidPayloadLen :: u8 where
  [doip_consts]: "kDoip_GenericHeader_InvalidPayloadLen = 0x04"
definition kDoipDiagMessageAckResMinLen :: u32 where [doip_consts]: "kDoipDiagMessageAckResMinLen = 5"
definition kDoipRoutingActivationResMinLen :: u32 where
  [doip_consts]: "kDoipRoutingActivationResMinLen = 9"
definition kDoipRoutingActivationResMaxLen :: u32 where
  [doip_consts]: "kDoipRoutingActivationResMaxLen = 13"

section \<open>Received frames\<close>

definition ProcessDoIPPayloadLength :: "u32 \<Rightarrow> u16 \<Rightarrow> bool" where
  "ProcessDoIPPayloadLength len ty =
     (if ty = kDoip_RoutingActivation_ResType then len \<le> kDoipRoutingActivationResMaxLen
      else if ty = kDoipDiagMessagePosAck \<or> ty = kDoipDiagMessageNegAck then kDoipDiagMessageAckResMinLen \<le> len
      else if ty = kDoipDiagMessage then kDoipDiagMessageReqResMinLen + 1 \<le> len
      else if ty = kDoip_AliveCheck_ReqType then len \<le> kDoipRoutingActivationResMaxLen
      else False)"

text \<open>The header check returns whether the message is processed, and the code of the refusal.\<close>

definition ProcessDoIPHeader :: "DoipMessage \<Rightarrow> u8 \<Rightarrow> bool \<times> u8" where
  "ProcessDoIPHeader m nack_code =
     (if protocol_version m = kDoip_ProtocolVersion \<and> protocol_version_inv m = NOT kDoip_ProtocolVersion \<or>
         protocol_version m = kDoip_ProtocolVersion_Def \<and> protocol_version_inv m = NOT kDoip_ProtocolVersion_Def
      then
        (if payload_type m = kDoip_RoutingActivation_ResType \<or> payload_type m = kDoipDiagMessagePosAck \<or>
            payload_type m = kDoipDiagMessageNegAck \<or> payload_type m = kDoipDiagMessage \<or>
            payload_type m = kDoip_AliveCheck_ReqType
         then
           (if payload_length m \<le> kDoip_Protocol_MaxPayload then
              (if payload_length m \<le> kTcpChannelLength then
                 (if ProcessDoIPPayloadLength (payload_length m) (payload_type m) then (True, nack_code)
                  else (False, kDoip_GenericHeader_InvalidPayloadLen))
               else (False, kDoip_GenericHeader_OutOfMemory))
            else (False, kDoip_GenericHeader_MessageTooLarge))
         else (False, kDoip_GenericHeader_UnknownPayload))
      else (False, kDoip_GenericHeader_IncorrectPattern))"

definition ProcessDoIPPayload ::
    "('m, 'a diag_handler_scheme) ConversionHandler \<Rightarrow> DoipMessage \<Rightarrow> 'a diag_handler_scheme \<Rightarrow>
     'a diag_handler_scheme run" where
  "ProcessDoIPPayload h m w =
     (if payload_type m = kDoip_RoutingActivation_ResType then ProcessDoIPRoutingActivationResponse m w
      else if payload_type m = kDoipDiagMessage then ProcessDoIPDiagnosticMessageResponse h m w
      else if payload_type m = kDoipDiagMessagePosAck \<or> payload_type m = kDoipDiagMessageNegAck
        then ProcessDoIPDiagnosticAckMessageResponse m w
      else Inr w)"

text \<open>The message is parsed before its header is looked at.\<close>

definition TcpChannelHandler_HandleMessage ::
    "('m, 'a diag_handler_scheme) ConversionHandler \<Rightarrow> string \<Rightarrow> u16 \<Rightarrow> bytes \<Rightarrow> 'a diag_handler_scheme \<Rightarrow>
     'a diag_handler_scheme run" where
  "TcpChannelHandler_HandleMessage h ip port p w =
     bind_run (new_DoipMessage kTcp ip port p) (\<lambda>m.
       case ProcessDoIPHeader m 0 of (ok, nack_code) \<Rightarrow> if ok then ProcessDoIPPayload h m w else Inr w)"

section \<open>Operations of the channel\<close>

definition TcpChannelHandler_Start :: "'a diag_handler_scheme \<Rightarrow> 'a diag_handler_scheme" where
  "TcpChannelHandler_Start w = DiagnosticMessageHandler_Start (RoutingActivationHandler_Start w)"

definition TcpChannelHandler_Stop :: "'a diag_handler_scheme \<Rightarrow> 'a diag_handler_scheme" where
  "TcpChannelHandler_Stop w = DiagnosticMessageHandler_Stop (RoutingActivationHandler_Stop w)"

definition TcpChannelHandler_Reset :: "'a diag_handler_scheme \<Rightarrow> 'a diag_handler_scheme" where
  "TcpChannelHandler_Reset w = DiagnosticMessageHandler_Reset (RoutingActivationHandler_Reset w)"

definition TcpChannel_Start :: "asio_io \<Rightarrow> 'a diag_handler_scheme \<Rightarrow> 'a diag_handler_scheme run" where
  "TcpChannel_Start io w = bind_run (TcpSocketHandler_Initialize io w) (\<lambda>w'. Inr (TcpChannelHandler_Start w'))"

definition TcpChannel_Stop :: "asio_io \<Rightarrow> 'a diag_handler_scheme \<Rightarrow> 'a diag_handler_scheme run" where
  "TcpChannel_Stop io w = bind_run (TcpSocketHandler_DeInitialize io w) (\<lambda>w'. Inr (TcpChannelHandler_Stop w'))"

definition TcpChannel_IsConnectedToHost :: "'a diag_handler_scheme \<Rightarrow> bool" where
  "TcpChannel_IsConnectedToHost w = TcpSocketHandler_IsConnectedToHost w"

definition TcpChannel_ConnectToHost ::
    "asio_io \<Rightarrow> ('ev \<Rightarrow> 'a diag_handler_scheme \<Rightarrow> 'a diag_handler_scheme run) \<Rightarrow> nat \<Rightarrow>
     'ev list \<Rightarrow> 'ev list \<Rightarrow> (nat \<times> 'ev list) list \<Rightarrow> UdsMessage \<Rightarrow> 'a diag_handler_scheme \<Rightarrow>
     (ConnectionResult \<times> nat \<times> 'a diag_handler_scheme \<times> (nat \<times> 'ev list) list) call" where
  "TcpChannel_ConnectToHost io step now win1 win2 evs msg w =
     bind_call (call_of_run (TcpSocketHandler_ConnectToHost io (uds_host_ip msg) (uds_host_port msg) w)) (\<lambda>(r, w').
        if HasValue r then HandleRoutingActivationRequest io step now win1 win2 evs msg w'
        else Returns (kConnectionFailed, now, w', evs))"

definition TcpChannel_DisconnectFromHost ::
    "asio_io \<Rightarrow> 'a diag_handler_scheme \<Rightarrow> DisconnectionResult \<times> 'a diag_handler_scheme" where
  "TcpChannel_DisconnectFromHost io w =
     (case TcpSocketHandler_DisconnectFromHost io w of (r, w') \<Rightarrow>
        if HasValue r then (kDisconnectionOk, if IsRoutingActivated w' then TcpChannelHandler_Reset w' else w')
        else (kDisconnectionFailed, w'))"

definition TcpChannel_Transmit ::
    "asio_io \<Rightarrow> ('ev \<Rightarrow> 'a diag_handler_scheme \<Rightarrow> 'a diag_handler_scheme run) \<Rightarrow> nat \<Rightarrow>
     'ev list \<Rightarrow> 'ev list \<Rightarrow> (nat \<times> 'ev list) list \<Rightarrow> UdsMessage \<Rightarrow> 'a diag_handler_scheme \<Rightarrow>
     (TransmissionResult \<times> nat \<times> 'a diag_handler_scheme \<times> (nat \<times> 'ev list) list) call" where
  "TcpChannel_Transmit io step now win1 win2 evs msg w =
     (if IsRoutingActivated w then HandleDiagnosticRequest io step now win1 win2 evs msg w
      else Returns (kTransmitFailed, now, w, evs))"

section \<open>The other threads\<close>

text \<open>
  While the application is blocked in a call, the reader thread hands frames over, the reader
  ends (the peer closed the connection), and another thread of the application may disconnect
  or stop the channel.
\<close>

datatype channel_event = Rx_Frame string u16 bytes | Rx_End | Other_Disconnect | Other_Stop

fun channel_step ::
    "asio_io \<Rightarrow> ('m, 'a diag_handler_scheme) ConversionHandler \<Rightarrow> channel_event \<Rightarrow> 'a diag_handler_scheme \<Rightarrow>
     'a diag_handler_scheme run" where
  "channel_step io h (Rx_Frame ip port p) w = TcpChannelHandler_HandleMessage h ip port p w"
| "channel_step io h Rx_End w = Inr (w\<lparr>running := False\<rparr>)"
| "channel_step io h Other_Disconnect w = Inr (snd (TcpChannel_DisconnectFromHost io w))"
| "channel_step io h Other_Stop w = TcpChannel_Stop io w"

text \<open>What the reader thread alone does.\<close>

fun by_reader :: "channel_event \<Rightarrow> bool" where
  "by_reader (Rx_Frame ip port p) = True"
| "by_reader Rx_End = True"
| "by_reader e = False"

section \<open>Facts\<close>

text \<open>A frame that is processed, and the message it holds.\<close>

definition accepted :: "bytes \<Rightarrow> DoipMessage \<Rightarrow> bool" where
  "accepted p m \<longleftrightarrow> (\<exists>ip port. new_DoipMessage kTcp ip port p = Inr m) \<and> fst (ProcessDoIPHeader m 0)"

text \<open>
  The channel never loses the states of its two contexts, each points to one of them, and nobody
  sets the exit flag of a timer.
\<close>

definition chan_ok :: "'a diag_handler_scheme \<Rightarrow> bool" where
  "chan_ok w \<longleftrightarrow> ra_known w \<and> dm_known w \<and> (\<exists>r. ra_in r w) \<and> (\<exists>s. dm_in s w) \<and>
     \<not> exit_request (ra_timer w) \<and> \<not> exit_request (dm_timer w)"

lemma chan_okD: "chan_ok w \<Longrightarrow> ra_known w" "chan_ok w \<Longrightarrow> dm_known w"
  "chan_ok w \<Longrightarrow> \<not> exit_request (ra_timer w)" "chan_ok w \<Longrightarrow> \<not> exit_request (dm_timer w)"
  by (simp_all add: chan_ok_def)

text \<open>Operations read and write the channel through its own fields only.\<close>

lemma truncate_fields:
  assumes "diag_handler.truncate v = diag_handler.truncate w"
  shows "ra_context v = ra_context w" "ra_timer v = ra_timer w" "dm_context v = dm_context w"
    "dm_timer v = dm_timer w" "connection_state v = connection_state w" "running v = running w"
    "sent v = sent w" "exit_reader v = exit_reader w" "reader_started v = reader_started w"
    "ra_in r v = ra_in r w" "dm_in s v = dm_in s w" "ra_known v = ra_known w" "dm_known v = dm_known w"
    "chan_ok v = chan_ok w"
  using assms
  by (simp_all add: diag_handler.defs ra_in_def dm_in_def ra_known_def dm_known_def chan_ok_def)

lemma chan_ok_ra_goto [simp]: "chan_ok w \<Longrightarrow> chan_ok (ra_goto r w)"
  by (simp add: chan_ok_def)

lemma chan_ok_dm_goto [simp]: "chan_ok w \<Longrightarrow> s \<noteq> dm_kDiagnosticFinalResRecvd \<Longrightarrow> chan_ok (dm_goto s w)"
  by (simp add: chan_ok_def)

lemma cancels_keep_ok [simp]:
  "chan_ok (ra_cancel w) = chan_ok w" "chan_ok (dm_cancel w) = chan_ok w"
  "dm_timer (ra_cancel w) = dm_timer w" "ra_timer (dm_cancel w) = ra_timer w"
  by (simp_all add: chan_ok_def)

lemma updates_keep_ok [simp]:
  "chan_ok (w\<lparr>running := b\<rparr>) = chan_ok w" "chan_ok (w\<lparr>connection_state := c\<rparr>) = chan_ok w"
  "chan_ok (w\<lparr>sent := fs\<rparr>) = chan_ok w" "chan_ok (w\<lparr>exit_reader := b\<rparr>) = chan_ok w"
  "chan_ok (w\<lparr>reader_started := b\<rparr>) = chan_ok w"
  "chan_ok (ra_timer_update SyncTimer_arm w) = chan_ok w"
  "chan_ok (dm_timer_update SyncTimer_arm w) = chan_ok w"
  by (simp_all add: chan_ok_def ra_known_def dm_known_def ra_in_def dm_in_def)

lemma TcpChannelHandler_Reset_facts [simp]:
  assumes "chan_ok w"
  shows "chan_ok (TcpChannelHandler_Reset w)"
    "ra_in r (TcpChannelHandler_Reset w) \<longleftrightarrow> r = ra_kIdle"
    "dm_in s (TcpChannelHandler_Reset w) \<longleftrightarrow> s = dm_kIdle"
    "connection_state (TcpChannelHandler_Reset w) = connection_state w"
    "sent (TcpChannelHandler_Reset w) = sent w"
proof -
  have "exit_request (dm_timer (TcpChannelHandler_Reset w)) = exit_request (dm_timer w)"
    "exit_request (ra_timer (TcpChannelHandler_Reset w)) = exit_request (ra_timer w)"
    by (simp_all add: TcpChannelHandler_Reset_def RoutingActivationHandler_Reset_def
        DiagnosticMessageHandler_Reset_def RoutingActivationHandler_Stop_def DiagnosticMessageHandler_Stop_def)
  then show "chan_ok (TcpChannelHandler_Reset w)"
    "ra_in r (TcpChannelHandler_Reset w) \<longleftrightarrow> r = ra_kIdle"
    "dm_in s (TcpChannelHandler_Reset w) \<longleftrightarrow> s = dm_kIdle"
    "connection_state (TcpChannelHandler_Reset w) = connection_state w"
    "sent (TcpChannelHandler_Reset w) = sent w"
    using assms
    by (auto simp: TcpChannelHandler_Reset_def RoutingActivationHandler_Reset_def
        DiagnosticMessageHandler_Reset_def chan_ok_def)
qed

lemma TcpChannelHandler_Stop_eq: "TcpChannelHandler_Stop w = TcpChannelHandler_Reset w"
  by (simp add: TcpChannelHandler_Stop_def TcpChannelHandler_Reset_def
      RoutingActivationHandler_Reset_def DiagnosticMessageHandler_Reset_def)

lemma TcpChannel_Stop_eq [op_defs]:
  "TcpChannel_Stop io w =
     (if asio_close io
      then Inr (TcpChannelHandler_Reset (w\<lparr>exit_reader := True, running := False, reader_started := False\<rparr>))
      else Inl Uncaught_Exception)"
  by (simp add: TcpChannel_Stop_def TcpClient_Initialize_eq TcpChannelHandler_Stop_eq)

lemma TcpChannel_DisconnectFromHost_eq [op_defs]:
  "TcpChannel_DisconnectFromHost io w =
     (if connection_state w = kConnected then
        (kDisconnectionOk,
         let w' = w\<lparr>running := False, connection_state := kDisconnected\<rparr>
         in if ra_in ra_kRoutingActivationSuccessful w then TcpChannelHandler_Reset w' else w')
      else (kDisconnectionFailed, w))"
  by (simp add: TcpChannel_DisconnectFromHost_def op_defs IsRoutingActivated_def Let_def)

section \<open>The channel against any conversation that keeps to the contract\<close>

locale tcp_conversation = conversion_handler h diag_handler.truncate valid
  for h :: "('m, 'a diag_handler_scheme) ConversionHandler"
    and valid :: "'m \<Rightarrow> nat \<Rightarrow> 'a diag_handler_scheme \<Rightarrow> bool"
begin

text \<open>The response, seen from the channel: nothing happens, or the handler goes back to idle.\<close>

lemma response_cases:
  assumes "ProcessDoIPDiagnosticMessageResponse h m w = Inr w'"
  obtains (Kept) "diag_handler.truncate w' = diag_handler.truncate w"
  | (Final) v where "dm_in dm_kWaitForDiagnosticResponse w"
      "diag_handler.truncate v = diag_handler.truncate w" "w' = dm_goto dm_kIdle v"
proof (cases "dm_in dm_kWaitForDiagnosticResponse w")
  case False
  with assms have "w' = w" by (simp add: ProcessDoIPDiagnosticMessageResponse_def)
  then show thesis using Kept by simp
next
  case True
  with assms obtain r mo w1 where ind:
      "IndicateMessage h (server_address m) (client_address m) (length (payload m)) (payload m) w = Inr (r, mo, w1)"
    and rest: "(if r = kIndicationPending then Inr w1 else
              bind_run
                (case (r, mo) of
                   (kIndicationOk, Some msg) \<Rightarrow>
                     bind_run (message_copy h (payload m) msg w1) (\<lambda>(msg', w2). HandleMessage h msg' w2)
                 | _ \<Rightarrow> Inr w1) (\<lambda>w3. Inr (dm_goto dm_kIdle w3))) = Inr w'"
    by (auto simp: ProcessDoIPDiagnosticMessageResponse_def bind_run_Inr_iff)
  have t1: "diag_handler.truncate w1 = diag_handler.truncate w" by (rule indicate_chan [OF ind])
  show thesis
  proof (cases "r = kIndicationPending")
    case True
    with rest t1 Kept show thesis by simp
  next
    case False
    with rest obtain v where v: "(case (r, mo) of
                   (kIndicationOk, Some msg) \<Rightarrow>
                     bind_run (message_copy h (payload m) msg w1) (\<lambda>(msg', w2). HandleMessage h msg' w2)
                 | _ \<Rightarrow> Inr w1) = Inr v" and w': "w' = dm_goto dm_kIdle v"
      by (auto simp: bind_run_Inr_iff)
    have "diag_handler.truncate v = diag_handler.truncate w"
      using v t1 by (auto simp: bind_run_Inr_iff split: IndicationResult.splits option.splits
          dest!: copy_chan handle_chan)
    from True this w' show thesis by (rule Final)
  qed
qed

text \<open>Everything a received frame can do to the channel.\<close>

lemma Rx_cases:
  assumes "channel_step io h (Rx_Frame ip port p) w = Inr w'"
  obtains (Kept) "diag_handler.truncate w' = diag_handler.truncate w"
  | (Activated) m where "accepted p m" "payload_type m = kDoip_RoutingActivation_ResType"
      "payload m ! 0 = kDoipRoutingActivationResCodeRoutingSuccessful"
      "ra_in ra_kWaitForRoutingActivationRes w" "w' = ra_cancel (ra_goto ra_kRoutingActivationSuccessful w)"
  | (Denied) m where "accepted p m" "payload_type m = kDoip_RoutingActivation_ResType"
      "ra_in ra_kWaitForRoutingActivationRes w" "w' = ra_cancel (ra_goto ra_kRoutingActivationFailed w)"
  | (PositiveAck) m where "accepted p m" "payload_type m = kDoipDiagMessagePosAck"
      "payload m ! 0 = kDoipDiagnosticMessagePosAckCodeConfirm"
      "dm_in dm_kWaitForDiagnosticAck w" "w' = dm_cancel (dm_goto dm_kDiagnosticPositiveAckRecvd w)"
  | (NegativeAck) m where "accepted p m" "payload_type m \<in> {kDoipDiagMessagePosAck, kDoipDiagMessageNegAck}"
      "dm_in dm_kWaitForDiagnosticAck w" "w' = dm_cancel (dm_goto dm_kDiagnosticNegativeAckRecvd w)"
  | (Final) m v where "accepted p m" "payload_type m = kDoipDiagMessage"
      "dm_in dm_kWaitForDiagnosticResponse w"
      "diag_handler.truncate v = diag_handler.truncate w" "w' = dm_goto dm_kIdle v"
proof -
  from assms obtain m where m: "new_DoipMessage kTcp ip port p = Inr m"
    and d: "(case ProcessDoIPHeader m 0 of (ok, nack_code) \<Rightarrow> if ok then ProcessDoIPPayload h m w else Inr w) = Inr w'"
    by (auto simp: TcpChannelHandler_HandleMessage_def bind_run_Inr_iff)
  show thesis
  proof (cases "fst (ProcessDoIPHeader m 0)")
    case False
    with d have "w' = w" by (auto split: prod.splits)
    then show thesis using Kept by simp
  next
    case True
    with m have acc: "accepted p m" by (auto simp: accepted_def)
    from True d have p: "ProcessDoIPPayload h m w = Inr w'" by (auto split: prod.splits)
    consider (RA) "payload_type m = kDoip_RoutingActivation_ResType" "ProcessDoIPRoutingActivationResponse m w = Inr w'"
      | (Resp) "payload_type m = kDoipDiagMessage" "ProcessDoIPDiagnosticMessageResponse h m w = Inr w'"
      | (Ack) "payload_type m \<in> {kDoipDiagMessagePosAck, kDoipDiagMessageNegAck}"
          "ProcessDoIPDiagnosticAckMessageResponse m w = Inr w'"
      | (Other) "w' = w"
      using p by (auto simp: ProcessDoIPPayload_def split: if_splits)
    then show thesis
    proof cases
      case RA
      from RA(2) show thesis
      proof (cases rule: ProcessRoutingActivation_cases)
        case Ignored
        then show thesis using that(1) by simp
      next
        case Activated
        then show thesis by (intro that(2) [OF acc RA(1)])
      next
        case Denied
        then show thesis by (intro that(3) [OF acc RA(1)])
      qed
    next
      case Resp
      from Resp(2) show thesis
      proof (cases rule: response_cases)
        case Kept
        then show thesis by (rule that(1))
      next
        case (Final v)
        then show thesis by (rule that(6) [OF acc Resp(1)])
      qed
    next
      case Ack
      from Ack(2) show thesis
      proof (cases rule: ProcessDiagnosticAck_cases)
        case Ignored
        then show thesis using that(1) by simp
      next
        case Positive
        then show thesis by (intro that(4) [OF acc])
      next
        case Negative
        then show thesis by (intro that(5) [OF acc Ack(1)])
      qed
    next
      case Other
      then show thesis using that(1) by simp
    qed
  qed
qed

lemma channel_step_ok:
  assumes "channel_step io h e w = Inr w'" and "chan_ok w"
  shows "chan_ok w'"
proof (cases e)
  case (Rx_Frame ip port p)
  from assms(1) [unfolded Rx_Frame] show ?thesis
  proof (cases rule: Rx_cases)
    case Kept
    from truncate_fields(14) [OF this] assms(2) show ?thesis by simp
  next
    case (Final m v)
    from truncate_fields(14) [OF Final(4)] Final(5) assms(2) show ?thesis by simp
  qed (use assms(2) in simp_all)
next
  case Rx_End
  with assms show ?thesis by auto
next
  case Other_Disconnect
  with assms show ?thesis by (auto simp: TcpChannel_DisconnectFromHost_eq Let_def split: if_splits)
next
  case Other_Stop
  with assms show ?thesis
    by (auto simp: TcpChannel_Stop_eq split: if_splits)
qed

text \<open>The contract of the two timers with the threads of the channel.\<close>

lemma Reset_exit_requests:
  "exit_request (ra_timer (TcpChannelHandler_Reset v)) = exit_request (ra_timer v)"
  "exit_request (dm_timer (TcpChannelHandler_Reset v)) = exit_request (dm_timer v)"
  by (simp_all add: TcpChannelHandler_Reset_def RoutingActivationHandler_Reset_def
      DiagnosticMessageHandler_Reset_def RoutingActivationHandler_Stop_def DiagnosticMessageHandler_Stop_def)

lemma channel_step_exit_requests:
  assumes "channel_step io h e w = Inr w'"
  shows "exit_request (ra_timer w') = exit_request (ra_timer w) \<and>
    exit_request (dm_timer w') = exit_request (dm_timer w)"
proof (cases e)
  case (Rx_Frame ip port p)
  from assms [unfolded Rx_Frame] show ?thesis
  proof (cases rule: Rx_cases)
    case Kept
    from truncate_fields(2,4) [OF this] show ?thesis by simp
  next
    case (Final m v)
    from truncate_fields(2,4) [OF Final(4)] Final(5) show ?thesis by simp
  qed simp_all
next
  case Rx_End
  with assms show ?thesis by auto
next
  case Other_Disconnect
  with assms show ?thesis
    by (auto simp: TcpChannel_DisconnectFromHost_eq Let_def Reset_exit_requests split: if_splits)
next
  case Other_Stop
  with assms show ?thesis
    by (auto simp: TcpChannel_Stop_eq Reset_exit_requests split: if_splits)
qed

end

text \<open>So both blocking calls of the channel keep to the contract of a bounded wait.\<close>

sublocale tcp_conversation < ra_wait: timed_wait ra_timer ra_timer_update "channel_step io h" for io
  by unfold_locales (use channel_step_exit_requests in auto)

sublocale tcp_conversation < dm_wait: timed_wait dm_timer dm_timer_update "channel_step io h" for io
  by unfold_locales (use channel_step_exit_requests in auto)

end
