(* ===== verification/Channel_Refinement.thy ===== *)
theory Channel_Refinement
  imports Tcp_Channel
begin

text \<open>
  What the TCP channel promises, as a small state machine over whether the socket is connected,
  where routing activation stands and where the diagnostic request stands, and the proof that the
  channel's operations and the reader thread implement it. The safety of the channel is an
  invariant of the small machine, by rule induction.
\<close>

section \<open>The abstract link\<close>

record link =
  connected :: bool
  routing :: RoutingActivationState
  diag :: DiagnosticMessageState

text \<open>What the network can do to the link.\<close>

inductive reader_move :: "link \<Rightarrow> link \<Rightarrow> bool" where
  activated: "routing l = ra_kWaitForRoutingActivationRes \<Longrightarrow>
     reader_move l (l\<lparr>routing := ra_kRoutingActivationSuccessful\<rparr>)"
| denied: "routing l = ra_kWaitForRoutingActivationRes \<Longrightarrow>
     reader_move l (l\<lparr>routing := ra_kRoutingActivationFailed\<rparr>)"
| acked: "diag l = dm_kWaitForDiagnosticAck \<Longrightarrow>
     reader_move l (l\<lparr>diag := dm_kDiagnosticPositiveAckRecvd\<rparr>)"
| nacked: "diag l = dm_kWaitForDiagnosticAck \<Longrightarrow>
     reader_move l (l\<lparr>diag := dm_kDiagnosticNegativeAckRecvd\<rparr>)"
| responded: "diag l = dm_kWaitForDiagnosticResponse \<Longrightarrow> reader_move l (l\<lparr>diag := dm_kIdle\<rparr>)"

text \<open>What the link can do, driven by one application thread and the network.\<close>

inductive link_step :: "link \<Rightarrow> link \<Rightarrow> bool" where
  network: "reader_move l l' \<Longrightarrow> link_step l l'"
| connect: "link_step l (l\<lparr>connected := True\<rparr>)"
| disconnect_active: "routing l = ra_kRoutingActivationSuccessful \<Longrightarrow>
     link_step l \<lparr>connected = False, routing = ra_kIdle, diag = dm_kIdle\<rparr>"
| disconnect_inactive: "routing l \<in> {ra_kIdle, ra_kRoutingActivationFailed} \<Longrightarrow>
     link_step l (l\<lparr>connected := False\<rparr>)"
| stop: "link_step l \<lparr>connected = c, routing = ra_kIdle, diag = dm_kIdle\<rparr>"
| request_activation: "connected l \<Longrightarrow> routing l = ra_kIdle \<Longrightarrow>
     link_step l (l\<lparr>routing := ra_kWaitForRoutingActivationRes\<rparr>)"
| activation_over: "routing l \<noteq> ra_kIdle \<Longrightarrow> diag l = dm_kIdle \<Longrightarrow>
     link_step l (l\<lparr>routing := ra_kIdle\<rparr>)"
| request: "connected l \<Longrightarrow> routing l = ra_kRoutingActivationSuccessful \<Longrightarrow> diag l = dm_kIdle \<Longrightarrow>
     link_step l (l\<lparr>diag := dm_kWaitForDiagnosticAck\<rparr>)"
| request_acked: "diag l = dm_kDiagnosticPositiveAckRecvd \<Longrightarrow>
     link_step l (l\<lparr>diag := dm_kWaitForDiagnosticResponse\<rparr>)"
| request_over: "diag l \<in> {dm_kWaitForDiagnosticAck, dm_kDiagnosticPositiveAckRecvd, dm_kDiagnosticNegativeAckRecvd} \<Longrightarrow>
     link_step l (l\<lparr>diag := dm_kIdle\<rparr>)"

inductive_cases link_stepE: "link_step l l'"
inductive_cases reader_moveE: "reader_move l l'"

definition link_inv :: "link \<Rightarrow> bool" where
  "link_inv l \<longleftrightarrow>
     (diag l \<noteq> dm_kIdle \<longrightarrow> routing l = ra_kRoutingActivationSuccessful) \<and>
     (routing l \<in> {ra_kWaitForRoutingActivationRes, ra_kRoutingActivationSuccessful} \<longrightarrow> connected l)"

definition link_down :: link where
  "link_down = \<lparr>connected = False, routing = ra_kIdle, diag = dm_kIdle\<rparr>"

lemma link_inv_down: "link_inv link_down"
  by (simp add: link_inv_def link_down_def)

lemma link_inv_step: "link_step l l' \<Longrightarrow> link_inv l \<Longrightarrow> link_inv l'"
  by (auto simp: link_inv_def elim!: link_stepE reader_moveE)

lemma link_inv_reachable: "link_step\<^sup>*\<^sup>* l l' \<Longrightarrow> link_inv l \<Longrightarrow> link_inv l'"
  by (induction rule: rtranclp_induct) (auto intro: link_inv_step)

section \<open>The concrete channel, abstracted\<close>

definition link :: "'a diag_handler_scheme \<Rightarrow> link" where
  "link w = \<lparr>connected = (connection_state w = kConnected),
     routing = the (current_state (ra_context w)), diag = the (current_state (dm_context w))\<rparr>"

lemma link_sel [simp]: "connected (link w) \<longleftrightarrow> connection_state w = kConnected"
  by (simp add: link_def)

lemma link_in: "chan_ok w \<Longrightarrow> ra_in r w \<longleftrightarrow> routing (link w) = r"
  "chan_ok w \<Longrightarrow> dm_in s w \<longleftrightarrow> diag (link w) = s"
  by (auto simp: chan_ok_def link_def ra_in_def dm_in_def in_state_current)

lemma link_goto [simp]:
  "chan_ok w \<Longrightarrow> link (ra_goto r w) = (link w)\<lparr>routing := r\<rparr>"
  "chan_ok w \<Longrightarrow> s \<noteq> dm_kDiagnosticFinalResRecvd \<Longrightarrow> link (dm_goto s w) = (link w)\<lparr>diag := s\<rparr>"
  by (simp_all add: link_def ra_goto_def dm_goto_def chan_ok_def ra_known_def dm_known_def ctx_simps)

lemma link_goto_same:
  "chan_ok w \<Longrightarrow> routing (link w) = r \<Longrightarrow> link (ra_goto r w) = link w"
  "chan_ok w \<Longrightarrow> diag (link w) = s \<Longrightarrow> s \<noteq> dm_kDiagnosticFinalResRecvd \<Longrightarrow> link (dm_goto s w) = link w"
  by auto

lemma link_updates [simp]:
  "link (ra_cancel w) = link w" "link (dm_cancel w) = link w"
  "link (w\<lparr>running := b\<rparr>) = link w" "link (w\<lparr>sent := fs\<rparr>) = link w"
  "link (w\<lparr>exit_reader := b\<rparr>) = link w" "link (w\<lparr>reader_started := b\<rparr>) = link w"
  "link (ra_timer_update f w) = link w" "link (dm_timer_update f w) = link w"
  "link (w\<lparr>connection_state := c\<rparr>) = (link w)\<lparr>connected := (c = kConnected)\<rparr>"
  by (simp_all add: link_def ra_cancel_def dm_cancel_def)

lemma link_truncate: "diag_handler.truncate v = diag_handler.truncate w \<Longrightarrow> link v = link w"
  by (simp add: link_def diag_handler.defs)

lemma link_Reset [simp]:
  assumes "chan_ok w"
  shows "link (TcpChannelHandler_Reset w) =
    \<lparr>connected = (connection_state w = kConnected), routing = ra_kIdle, diag = dm_kIdle\<rparr>"
  using TcpChannelHandler_Reset_facts [OF assms] link_in [of "TcpChannelHandler_Reset w"]
  by (intro link.equality) auto

lemma Disconnect_refines:
  assumes "chan_ok w" and "routing (link w) \<noteq> ra_kWaitForRoutingActivationRes"
  shows "chan_ok (snd (TcpChannel_DisconnectFromHost io w))"
    and "link_step\<^sup>*\<^sup>* (link w) (link (snd (TcpChannel_DisconnectFromHost io w)))"
  using assms
  by (cases "routing (link w)";
      auto simp: TcpChannel_DisconnectFromHost_eq Let_def link_in
        intro!: r_into_rtranclp link_step.disconnect_active link_step.disconnect_inactive)+

lemma Stop_refines:
  assumes "chan_ok w" and "TcpChannel_Stop io w = Inr w'"
  shows "chan_ok w'" and "link_step\<^sup>*\<^sup>* (link w) (link w')"
  using assms
  by (auto simp: TcpChannel_Stop_eq intro!: r_into_rtranclp link_step.stop split: if_splits)

text \<open>
  A timer that is not running while a call waits has been cancelled by the reader, which has
  left its verdict in the state by then.
\<close>

definition ra_verdict :: "'a diag_handler_scheme \<Rightarrow> bool" where
  "ra_verdict w \<longleftrightarrow> (routing (link w) = ra_kWaitForRoutingActivationRes \<and> start_running (ra_timer w)) \<or>
     routing (link w) \<in> {ra_kRoutingActivationSuccessful, ra_kRoutingActivationFailed}"

definition dm_verdict :: "'a diag_handler_scheme \<Rightarrow> bool" where
  "dm_verdict w \<longleftrightarrow> (diag (link w) = dm_kWaitForDiagnosticAck \<and> start_running (dm_timer w)) \<or>
     diag (link w) \<in> {dm_kDiagnosticPositiveAckRecvd, dm_kDiagnosticNegativeAckRecvd}"

context tcp_conversation begin

lemma reader_refines:
  assumes "channel_step io h e w = Inr w'" and "by_reader e" and "chan_ok w"
  shows "chan_ok w'" and "link w' = link w \<or> reader_move (link w) (link w')"
    and "sent w' = sent w" and "connection_state w' = connection_state w"
    and "ra_verdict w \<Longrightarrow> ra_verdict w'" and "dm_verdict w \<Longrightarrow> dm_verdict w'"
proof -
  show ok: "chan_ok w'" by (rule channel_step_ok [OF assms(1,3)])
  have "(link w' = link w \<or> reader_move (link w) (link w')) \<and> sent w' = sent w \<and>
    connection_state w' = connection_state w \<and> (ra_verdict w \<longrightarrow> ra_verdict w') \<and> (dm_verdict w \<longrightarrow> dm_verdict w')"
  proof (cases e)
    case (Rx_Frame ip port p)
    from assms(1) [unfolded Rx_Frame] show ?thesis
    proof (cases rule: Rx_cases)
      case Kept
      from truncate_fields(2,4,5,7) [OF this] link_truncate [OF this] show ?thesis
        by (simp add: ra_verdict_def dm_verdict_def)
    next
      case (Final m v)
      from truncate_fields(2,4,5,7,14) [OF Final(4)] link_truncate [OF Final(4)] Final assms(3)
      show ?thesis
        by (auto simp: ra_verdict_def dm_verdict_def link_in intro!: reader_move.responded)
    next
      case (Activated m)
      with assms(3) show ?thesis
        by (auto simp: ra_verdict_def dm_verdict_def link_in intro: reader_move.activated)
    next
      case (Denied m)
      with assms(3) show ?thesis
        by (auto simp: ra_verdict_def dm_verdict_def link_in intro: reader_move.denied)
    next
      case (PositiveAck m)
      with assms(3) show ?thesis
        by (auto simp: ra_verdict_def dm_verdict_def link_in intro: reader_move.acked)
    next
      case (NegativeAck m)
      with assms(3) show ?thesis
        by (auto simp: ra_verdict_def dm_verdict_def link_in intro: reader_move.nacked)
    qed
  qed (use assms in \<open>auto simp: ra_verdict_def dm_verdict_def\<close>)
  then show "link w' = link w \<or> reader_move (link w) (link w')" and "sent w' = sent w"
    and "connection_state w' = connection_state w"
    and "ra_verdict w \<Longrightarrow> ra_verdict w'" and "dm_verdict w \<Longrightarrow> dm_verdict w'" by blast+
qed


end

text \<open>
  What holds of the channel while the reader thread works: the small machine has moved along,
  the reader has sent nothing, and a property it respects still holds.
\<close>

definition tracks :: "link \<Rightarrow> bytes list \<Rightarrow> 'a diag_handler_scheme \<Rightarrow> bool" where
  "tracks l fs v \<longleftrightarrow> chan_ok v \<and> link_step\<^sup>*\<^sup>* l (link v) \<and> sent v = fs \<and> connection_state v = kConnected"

lemma tracks_start: "chan_ok w \<Longrightarrow> connection_state w = kConnected \<Longrightarrow> tracks (link w) (sent w) w"
  by (simp add: tracks_def)

lemma tracks_app:
  assumes "tracks l fs v" and "link_step (link v) (link v')" and "chan_ok v'"
    and "sent v' = fs" and "connection_state v' = kConnected"
  shows "tracks l fs v'"
  using assms by (auto simp: tracks_def)

lemma tracks_goto:
  "tracks l fs v \<Longrightarrow> link_step (link v) ((link v)\<lparr>routing := r\<rparr>) \<Longrightarrow> tracks l fs (ra_goto r v)"
  "tracks l fs v \<Longrightarrow> link_step (link v) ((link v)\<lparr>diag := s\<rparr>) \<Longrightarrow> s \<noteq> dm_kDiagnosticFinalResRecvd \<Longrightarrow>
   tracks l fs (dm_goto s v)"
  by (auto simp: tracks_def)

lemma tracks_ok: "tracks l fs v \<Longrightarrow> chan_ok v"
  by (simp add: tracks_def)

context tcp_conversation begin

lemma tracks_reader:
  assumes "channel_step io h e v = Inr v'" and "by_reader e" and "tracks l fs v"
  shows "tracks l fs v'"
proof -
  have "chan_ok v" using assms(3) by (rule tracks_ok)
  note r = reader_refines [OF assms(1,2) this]
  from r(2) have "link_step\<^sup>*\<^sup>* (link v) (link v')" by (auto intro: link_step.network)
  with r assms(3) show ?thesis by (auto simp: tracks_def intro: rtranclp_trans)
qed

text \<open>Where the reader cannot take the link out of.\<close>

lemma reader_keeps:
  assumes "channel_step io h e v = Inr v'" and "by_reader e" and "chan_ok v"
  shows "routing (link v) = ra_kIdle \<Longrightarrow> routing (link v') = ra_kIdle"
    and "routing (link v) = ra_kRoutingActivationSuccessful \<Longrightarrow> routing (link v') = ra_kRoutingActivationSuccessful"
    and "routing (link v) \<noteq> ra_kIdle \<Longrightarrow> routing (link v') \<noteq> ra_kIdle"
    and "diag (link v) = dm_kIdle \<Longrightarrow> diag (link v') = dm_kIdle"
    and "diag (link v) \<in> {dm_kWaitForDiagnosticAck, dm_kDiagnosticPositiveAckRecvd, dm_kDiagnosticNegativeAckRecvd} \<Longrightarrow>
      diag (link v') \<in> {dm_kWaitForDiagnosticAck, dm_kDiagnosticPositiveAckRecvd, dm_kDiagnosticNegativeAckRecvd}"
  using reader_refines(2) [OF assms] by (auto elim!: reader_moveE)

lemma deliver_by_reader:
  assumes "deliver_all (channel_step io h) es v = Inr v'" and "set es \<subseteq> Collect by_reader" and "P v"
    and "\<And>e v v'. channel_step io h e v = Inr v' \<Longrightarrow> by_reader e \<Longrightarrow> P v \<Longrightarrow> P v'"
  shows "P v'"
  by (rule deliver_all_invariant_on [of "Collect by_reader" "channel_step io h" P, OF _ assms(2,1,3)])
     (use assms(4) in simp)

text \<open>The routing activation call: every way it can end.\<close>

lemma activation_cases:
  assumes ret: "HandleRoutingActivationRequest io (channel_step io h) now win1 win2 evs msg w = Returns (r, t, w', rest)"
    and ok: "chan_ok w" and conn: "connection_state w = kConnected" and idle: "diag (link w) = dm_kIdle"
    and rd: "set win1 \<subseteq> Collect by_reader" "set win2 \<subseteq> Collect by_reader" "events_of evs \<subseteq> Collect by_reader"
  obtains (Unsent) "routing (link w) = ra_kIdle" "\<not> asio_write io (compose_routing_activation_req msg)"
      "r = kConnectionFailed" "w' = ra_goto ra_kIdle w"
  | (Sent) "routing (link w) = ra_kIdle" "asio_write io (compose_routing_activation_req msg)"
      "tracks (link w) (sent w @ [compose_routing_activation_req msg]) w'"
      "diag (link w') = dm_kIdle"
      "r = kConnectionOk \<and> routing (link w') = ra_kRoutingActivationSuccessful \<and> t < now + kDoIPRoutingActivationTimeout \<or>
       r = kConnectionFailed \<and> routing (link w') = ra_kIdle \<and> t < now + kDoIPRoutingActivationTimeout \<or>
       r = kConnectionTimeout \<and> routing (link w') = ra_kIdle \<and> now + kDoIPRoutingActivationTimeout \<le> t"
  | (Busy) "routing (link w) \<noteq> ra_kIdle" "r = kConnectionFailed" "w' = w"
proof (cases "routing (link w) = ra_kIdle \<and> asio_write io (compose_routing_activation_req msg)")
  case False
  with ret ok conn that(1,3) show thesis
    by (auto simp: HandleRoutingActivationRequest_def link_in SendRoutingActivationRequest_eq split: if_splits)
next
  case True
  let ?fs = "sent w @ [compose_routing_activation_req msg]" and ?step = "channel_step io h"
  let ?w1 = "w\<lparr>sent := ?fs\<rparr>"
  let ?T = "\<lambda>v. tracks (link w) ?fs v \<and> diag (link v) = dm_kIdle"
  let ?P = "\<lambda>v. ?T v \<and> routing (link v) = ra_kIdle"
  let ?Q = "\<lambda>v. ?T v \<and> routing (link v) \<noteq> ra_kIdle"
  let ?R = "\<lambda>v. ?T v \<and> ra_verdict v"
  from ret True ok conn obtain w2 w3 where w2: "deliver_all ?step win1 ?w1 = Inr w2"
    and w3: "deliver_all ?step win2 (ra_goto ra_kWaitForRoutingActivationRes w2) = Inr w3"
    and wt: "WaitForTimeout ra_timer ra_timer_update ?step ra_timeout_func ra_cancellation_func
       kDoIPRoutingActivationTimeout now w3 evs = Returns (r, t, w', rest)"
    by (auto simp: HandleRoutingActivationRequest_def link_in SendRoutingActivationRequest_eq
        bind_call_Returns_iff call_of_run_Returns_iff split: if_splits)
  have "?P ?w1" using True ok conn idle by (simp add: tracks_def)
  from w2 rd(1) this have p2: "?P w2"
    by (rule deliver_by_reader) (auto dest: tracks_ok intro: tracks_reader reader_keeps)
  then have ok2: "chan_ok w2" by (blast dest: tracks_ok)
  have "tracks (link w) ?fs (ra_goto ra_kWaitForRoutingActivationRes w2)"
    by (rule tracks_goto) (use p2 in \<open>auto simp: tracks_def intro: link_step.request_activation\<close>)
  with p2 ok2 have "?Q (ra_goto ra_kWaitForRoutingActivationRes w2)" by simp
  from w3 rd(2) this have q3: "?Q w3"
    by (rule deliver_by_reader) (metis tracks_ok tracks_reader reader_keeps(3,4))
  have "tracks (link w) ?fs (ra_timer_update SyncTimer_arm w3)"
    using q3 by (simp add: tracks_def)
  moreover have "ra_verdict (ra_timer_update SyncTimer_arm w3)"
    using q3 by (cases "routing (link w3)") (auto simp: ra_verdict_def)
  ultimately have r3: "?R (ra_timer_update SyncTimer_arm w3)" using q3 by simp
  have keep: "?R v'" if "e \<in> Collect by_reader" "?step e v = Inr v'" "?R v" for e v v'
    using that reader_refines(5) [OF that(2)] by (metis mem_Collect_eq tracks_ok tracks_reader reader_keeps(4))
  have done_: "tracks (link w) ?fs (ra_goto ra_kIdle v) \<and> diag (link (ra_goto ra_kIdle v)) = dm_kIdle \<and>
      routing (link (ra_goto ra_kIdle v)) = ra_kIdle" if "?R v" for v
  proof -
    have okv: "chan_ok v" using that by (blast dest: tracks_ok)
    moreover have "tracks (link w) ?fs (ra_goto ra_kIdle v)"
      by (rule tracks_goto, use that in blast, rule link_step.activation_over)
         (use that in \<open>auto simp: ra_verdict_def\<close>)
    ultimately show ?thesis using that by simp
  qed
  have ex: "\<not> exit_request (ra_timer w3)" using q3 by (blast dest: tracks_ok chan_okD)
  show thesis
  proof (rule ra_wait.WaitForTimeout_cases [where P = ?R and E = "Collect by_reader", OF wt ex _ rd(3) r3], goal_cases)
    case (1 e v v')
    then show ?case by (rule keep)
  next
    case (2 v)
    from done_ [OF 2(1)] 2(2,3) True show thesis by (intro that(2)) (auto simp: ra_timeout_func_def)
  next
    case (3 v)
    have okv: "chan_ok v" using 3(1) by (blast dest: tracks_ok)
    from 3(1,3) have "routing (link v) \<in> {ra_kRoutingActivationSuccessful, ra_kRoutingActivationFailed}"
      by (auto simp: ra_verdict_def)
    with 3 done_ [OF 3(1)] True okv show thesis
      by (intro that(2)) (auto simp: ra_cancellation_func_def link_in)
  qed
qed

text \<open>The diagnostic request call: every way it can end.\<close>

lemma diagnostic_cases:
  assumes ret: "HandleDiagnosticRequest io (channel_step io h) now win1 win2 evs msg w = Returns (r, t, w', rest)"
    and ok: "chan_ok w" and conn: "connection_state w = kConnected"
    and act: "routing (link w) = ra_kRoutingActivationSuccessful"
    and rd: "set win1 \<subseteq> Collect by_reader" "set win2 \<subseteq> Collect by_reader" "events_of evs \<subseteq> Collect by_reader"
  obtains (Unsent) "diag (link w) = dm_kIdle" "\<not> asio_write io (compose_diag_req msg)"
      "r = kTransmitFailed" "w' = dm_goto dm_kIdle w"
  | (Sent) "diag (link w) = dm_kIdle" "asio_write io (compose_diag_req msg)"
      "tracks (link w) (sent w @ [compose_diag_req msg]) w'"
      "routing (link w') = ra_kRoutingActivationSuccessful"
      "r = kTransmitOk \<and> diag (link w') = dm_kWaitForDiagnosticResponse \<and> t < now + kDoIPDiagnosticAckTimeout \<or>
       r = kNegTransmitAckReceived \<and> diag (link w') = dm_kIdle \<and> t < now + kDoIPDiagnosticAckTimeout \<or>
       r = kNoTransmitAckReceived \<and> diag (link w') = dm_kIdle \<and> now + kDoIPDiagnosticAckTimeout \<le> t"
  | (Busy) "diag (link w) \<noteq> dm_kIdle" "r = kBusyProcessing" "w' = w" "t = now" "rest = evs"
proof (cases "diag (link w) = dm_kIdle \<and> asio_write io (compose_diag_req msg)")
  case False
  with ret ok conn that(1,3) show thesis
    by (auto simp: HandleDiagnosticRequest_def link_in dm_SendDiagnosticRequest_eq split: if_splits)
next
  case True
  let ?fs = "sent w @ [compose_diag_req msg]" and ?step = "channel_step io h"
  let ?w1 = "w\<lparr>sent := ?fs\<rparr>"
  let ?answered = "{dm_kWaitForDiagnosticAck, dm_kDiagnosticPositiveAckRecvd, dm_kDiagnosticNegativeAckRecvd}"
  let ?T = "\<lambda>v. tracks (link w) ?fs v \<and> routing (link v) = ra_kRoutingActivationSuccessful"
  let ?P = "\<lambda>v. ?T v \<and> diag (link v) = dm_kIdle"
  let ?Q = "\<lambda>v. ?T v \<and> diag (link v) \<in> ?answered"
  let ?R = "\<lambda>v. ?T v \<and> dm_verdict v"
  from ret True ok conn obtain w2 w3 where w2: "deliver_all ?step win1 ?w1 = Inr w2"
    and w3: "deliver_all ?step win2 (dm_goto dm_kWaitForDiagnosticAck w2) = Inr w3"
    and wt: "WaitForTimeout dm_timer dm_timer_update ?step dm_timeout_func dm_cancellation_func
       kDoIPDiagnosticAckTimeout now w3 evs = Returns (r, t, w', rest)"
    by (auto simp: HandleDiagnosticRequest_def link_in dm_SendDiagnosticRequest_eq
        bind_call_Returns_iff call_of_run_Returns_iff split: if_splits)
  have "?P ?w1" using True ok conn act by (simp add: tracks_def)
  from w2 rd(1) this have p2: "?P w2"
    by (rule deliver_by_reader) (auto dest: tracks_ok intro: tracks_reader reader_keeps)
  then have ok2: "chan_ok w2" by (blast dest: tracks_ok)
  have "tracks (link w) ?fs (dm_goto dm_kWaitForDiagnosticAck w2)"
    by (rule tracks_goto) (use p2 in \<open>auto simp: tracks_def intro: link_step.request\<close>)
  with p2 ok2 have "?Q (dm_goto dm_kWaitForDiagnosticAck w2)" by simp
  from w3 rd(2) this have q3: "?Q w3"
    by (rule deliver_by_reader) (metis tracks_ok tracks_reader reader_keeps(2,5))
  have "tracks (link w) ?fs (dm_timer_update SyncTimer_arm w3)"
    using q3 by (simp add: tracks_def)
  moreover have "dm_verdict (dm_timer_update SyncTimer_arm w3)"
    using q3 by (auto simp: dm_verdict_def)
  ultimately have r3: "?R (dm_timer_update SyncTimer_arm w3)" using q3 by simp
  have keep: "?R v'" if "e \<in> Collect by_reader" "?step e v = Inr v'" "?R v" for e v v'
    using that reader_refines(6) [OF that(2)] by (metis mem_Collect_eq tracks_ok tracks_reader reader_keeps(2))
  have done_: "tracks (link w) ?fs (dm_goto s v) \<and> routing (link (dm_goto s v)) = ra_kRoutingActivationSuccessful \<and>
      diag (link (dm_goto s v)) = s" if "?R v" and s: "s = dm_kIdle \<or> s = dm_kWaitForDiagnosticResponse \<and>
      diag (link v) = dm_kDiagnosticPositiveAckRecvd" for s v
  proof -
    have okv: "chan_ok v" using that by (blast dest: tracks_ok)
    moreover have "link_step (link v) ((link v)\<lparr>diag := s\<rparr>)"
      using that by (auto simp: dm_verdict_def intro: link_step.request_over link_step.request_acked)
    then have "tracks (link w) ?fs (dm_goto s v)"
      by (rule tracks_goto(2) [rotated]) (use that in auto)
    ultimately show ?thesis using that by auto
  qed
  have ex: "\<not> exit_request (dm_timer w3)" using q3 by (blast dest: tracks_ok chan_okD)
  show thesis
  proof (rule dm_wait.WaitForTimeout_cases [where P = ?R and E = "Collect by_reader", OF wt ex _ rd(3) r3], goal_cases)
    case (1 e v v')
    then show ?case by (rule keep)
  next
    case (2 v)
    from done_ [OF 2(1), of dm_kIdle] 2(2,3) True show thesis
      by (intro that(2)) (auto simp: dm_timeout_func_def)
  next
    case (3 v)
    have okv: "chan_ok v" using 3(1) by (blast dest: tracks_ok)
    show thesis
    proof (cases "diag (link v) = dm_kDiagnosticPositiveAckRecvd")
      case pos: True
      with 3 done_ [OF 3(1), of dm_kWaitForDiagnosticResponse] True okv show thesis
        by (intro that(2)) (auto simp: dm_cancellation_func_def link_in)
    next
      case False
      with 3 done_ [OF 3(1), of dm_kIdle] True okv show thesis
        by (intro that(2)) (auto simp: dm_cancellation_func_def link_in)
    qed
  qed
qed

text \<open>The two calls of the channel, over a link in a state the small machine allows.\<close>

lemma ConnectToHost_refines:
  assumes ret: "TcpChannel_ConnectToHost io (channel_step io h) now win1 win2 evs msg w = Returns (r, t, w', rest)"
    and ok: "chan_ok w" and inv: "link_inv (link w)"
    and rd: "set win1 \<subseteq> Collect by_reader" "set win2 \<subseteq> Collect by_reader" "events_of evs \<subseteq> Collect by_reader"
  shows "chan_ok w'" and "link_step\<^sup>*\<^sup>* (link w) (link w')"
    and "r = kConnectionOk \<Longrightarrow> routing (link w') = ra_kRoutingActivationSuccessful"
proof -
  have "chan_ok w' \<and> link_step\<^sup>*\<^sup>* (link w) (link w') \<and>
    (r = kConnectionOk \<longrightarrow> routing (link w') = ra_kRoutingActivationSuccessful)"
  proof (cases "connection_state w = kConnected \<or> asio_connect io (uds_host_ip msg) (uds_host_port msg)")
    case False
    with ret have "w' = w" "r = kConnectionFailed" by (auto simp: TcpChannel_ConnectToHost_def TcpClient_ConnectToHost_eq split: if_splits)
    with ok show ?thesis by simp
  next
    case True
    define v where "v = (if connection_state w = kConnected then w else w\<lparr>running := True, connection_state := kConnected\<rparr>)"
    have v: "chan_ok v" "connection_state v = kConnected" "link v = (link w)\<lparr>connected := True\<rparr>"
      using ok by (auto simp: v_def intro: link.equality)
    from True ret have h: "HandleRoutingActivationRequest io (channel_step io h) now win1 win2 evs msg v = Returns (r, t, w', rest)"
      by (auto simp: TcpChannel_ConnectToHost_def TcpClient_ConnectToHost_eq v_def split: if_splits)
    have up: "link_step\<^sup>*\<^sup>* (link w) (link v)" using v(3) by (auto intro: link_step.connect)
    show ?thesis
    proof (cases "routing (link w) = ra_kIdle")
      case False
      with h v have "w' = v \<and> r = kConnectionFailed" by (auto simp: HandleRoutingActivationRequest_def link_in)
      with v up show ?thesis by simp
    next
      case True
      with inv v have "diag (link v) = dm_kIdle" by (auto simp: link_inv_def)
      from h v(1,2) this rd show ?thesis
      proof (cases rule: activation_cases)
        case Unsent
        have "link (ra_goto ra_kIdle v) = link v" by (rule link_goto_same(1) [OF v(1) Unsent(1)])
        with Unsent v(1) up show ?thesis by (simp del: link_goto)
      next
        case Sent
        with up show ?thesis by (auto simp: tracks_def)
      next
        case Busy
        with v up show ?thesis by simp
      qed
    qed
  qed
  then show "chan_ok w'" and "link_step\<^sup>*\<^sup>* (link w) (link w')"
    and "r = kConnectionOk \<Longrightarrow> routing (link w') = ra_kRoutingActivationSuccessful" by blast+
qed

lemma Transmit_refines:
  assumes ret: "TcpChannel_Transmit io (channel_step io h) now win1 win2 evs msg w = Returns (r, t, w', rest)"
    and ok: "chan_ok w" and inv: "link_inv (link w)"
    and rd: "set win1 \<subseteq> Collect by_reader" "set win2 \<subseteq> Collect by_reader" "events_of evs \<subseteq> Collect by_reader"
  shows "chan_ok w'" and "link_step\<^sup>*\<^sup>* (link w) (link w')"
    and "sent w' = sent w \<or> sent w' = sent w @ [compose_diag_req msg] \<and>
      routing (link w) = ra_kRoutingActivationSuccessful \<and> diag (link w) = dm_kIdle"
    and "r = kTransmitOk \<Longrightarrow> diag (link w') = dm_kWaitForDiagnosticResponse"
proof -
  have "chan_ok w' \<and> link_step\<^sup>*\<^sup>* (link w) (link w') \<and>
    (sent w' = sent w \<or> sent w' = sent w @ [compose_diag_req msg] \<and>
      routing (link w) = ra_kRoutingActivationSuccessful \<and> diag (link w) = dm_kIdle) \<and>
    (r = kTransmitOk \<longrightarrow> diag (link w') = dm_kWaitForDiagnosticResponse)"
  proof (cases "routing (link w) = ra_kRoutingActivationSuccessful")
    case False
    with ret ok show ?thesis by (auto simp: TcpChannel_Transmit_def IsRoutingActivated_def link_in)
  next
    case True
    with ret ok have h: "HandleDiagnosticRequest io (channel_step io h) now win1 win2 evs msg w = Returns (r, t, w', rest)"
      by (auto simp: TcpChannel_Transmit_def IsRoutingActivated_def link_in)
    from True inv have "connection_state w = kConnected" by (auto simp: link_inv_def)
    from h ok this True rd show ?thesis
    proof (cases rule: diagnostic_cases)
      case Unsent
      have "link (dm_goto dm_kIdle w) = link w" by (rule link_goto_same(2) [OF ok Unsent(1)]) simp
      with Unsent ok show ?thesis by (simp del: link_goto)
    next
      case Sent
      with True show ?thesis by (auto simp: tracks_def)
    next
      case Busy
      with ok show ?thesis by simp
    qed
  qed
  then show "chan_ok w'" and "link_step\<^sup>*\<^sup>* (link w) (link w')"
    and "sent w' = sent w \<or> sent w' = sent w @ [compose_diag_req msg] \<and>
      routing (link w) = ra_kRoutingActivationSuccessful \<and> diag (link w) = dm_kIdle"
    and "r = kTransmitOk \<Longrightarrow> diag (link w') = dm_kWaitForDiagnosticResponse" by blast+
qed

end

end
