(* ===== verification/Doip_Tcp_Connection.thy ===== *)
theory Doip_Tcp_Connection
  imports Channel_Refinement
begin

text \<open>
  The TCP connection (\<open>connection/connection_manager.cpp\<close>) between a conversation and its channel: it
  hands each call of the conversation on to the channel. What comes up from the channel it hands on to
  the conversation, which is the handler the channel is given.
\<close>

datatype InitializationResult = kInitializeOk | kInitializeFailed

definition DoipTcpConnection_Initialize :: InitializationResult where
  "DoipTcpConnection_Initialize = kInitializeOk"

definition DoipTcpConnection_Start :: "asio_io \<Rightarrow> 'a diag_handler_scheme \<Rightarrow> 'a diag_handler_scheme run" where
  [simp]: "DoipTcpConnection_Start io w = TcpChannel_Start io w"

definition DoipTcpConnection_Stop :: "asio_io \<Rightarrow> 'a diag_handler_scheme \<Rightarrow> 'a diag_handler_scheme run" where
  [simp]: "DoipTcpConnection_Stop io w = TcpChannel_Stop io w"

definition DoipTcpConnection_IsConnectToHost :: "'a diag_handler_scheme \<Rightarrow> bool" where
  [simp]: "DoipTcpConnection_IsConnectToHost w = TcpChannel_IsConnectedToHost w"

definition DoipTcpConnection_ConnectToHost ::
    "asio_io \<Rightarrow> ('ev \<Rightarrow> 'a diag_handler_scheme \<Rightarrow> 'a diag_handler_scheme run) \<Rightarrow> nat \<Rightarrow>
     'ev list \<Rightarrow> 'ev list \<Rightarrow> (nat \<times> 'ev list) list \<Rightarrow> UdsMessage \<Rightarrow> 'a diag_handler_scheme \<Rightarrow>
     (ConnectionResult \<times> nat \<times> 'a diag_handler_scheme \<times> (nat \<times> 'ev list) list) call" where
  [simp]: "DoipTcpConnection_ConnectToHost io step now win1 win2 evs msg w =
     TcpChannel_ConnectToHost io step now win1 win2 evs msg w"

definition DoipTcpConnection_DisconnectFromHost ::
    "asio_io \<Rightarrow> 'a diag_handler_scheme \<Rightarrow> DisconnectionResult \<times> 'a diag_handler_scheme" where
  [simp]: "DoipTcpConnection_DisconnectFromHost io w = TcpChannel_DisconnectFromHost io w"

definition DoipTcpConnection_Transmit ::
    "asio_io \<Rightarrow> ('ev \<Rightarrow> 'a diag_handler_scheme \<Rightarrow> 'a diag_handler_scheme run) \<Rightarrow> nat \<Rightarrow>
     'ev list \<Rightarrow> 'ev list \<Rightarrow> (nat \<times> 'ev list) list \<Rightarrow> UdsMessage \<Rightarrow> 'a diag_handler_scheme \<Rightarrow>
     (TransmissionResult \<times> nat \<times> 'a diag_handler_scheme \<times> (nat \<times> 'ev list) list) call" where
  [simp]: "DoipTcpConnection_Transmit io step now win1 win2 evs msg w =
     TcpChannel_Transmit io step now win1 win2 evs msg w"

end
