(* ===== verification/Doip_Udp_Connection.thy ===== *)
theory Doip_Udp_Connection
  imports Udp_Channel Doip_Tcp_Connection
begin

text \<open>
  The UDP connection (\<open>connection/connection_manager.cpp\<close>): starting, stopping and transmitting are those of
  the channel; there is nothing to connect to.
\<close>

definition DoipUdpConnection_Initialize :: InitializationResult where
  "DoipUdpConnection_Initialize = kInitializeOk"

definition DoipUdpConnection_Start ::
    "asio_udp \<Rightarrow> asio_udp \<Rightarrow> 'a udp_channel_scheme \<Rightarrow> 'a udp_channel_scheme run" where
  [simp]: "DoipUdpConnection_Start bc_io uc_io w = UdpChannel_Start bc_io uc_io w"

definition DoipUdpConnection_Stop ::
    "asio_udp \<Rightarrow> asio_udp \<Rightarrow> 'a udp_channel_scheme \<Rightarrow> 'a udp_channel_scheme run" where
  [simp]: "DoipUdpConnection_Stop bc_io uc_io w = UdpChannel_Stop bc_io uc_io w"

definition DoipUdpConnection_IsConnectToHost :: "'a udp_channel_scheme \<Rightarrow> bool" where
  "DoipUdpConnection_IsConnectToHost w = False"

definition DoipUdpConnection_ConnectToHost :: "UdsMessage \<Rightarrow> 'a udp_channel_scheme \<Rightarrow> ConnectionResult" where
  "DoipUdpConnection_ConnectToHost msg w = kConnectionFailed"

definition DoipUdpConnection_DisconnectFromHost :: "'a udp_channel_scheme \<Rightarrow> DisconnectionResult" where
  "DoipUdpConnection_DisconnectFromHost w = kDisconnectionFailed"

definition DoipUdpConnection_Transmit ::
    "asio_udp \<Rightarrow> ('ev \<Rightarrow> 'a udp_channel_scheme \<Rightarrow> 'a udp_channel_scheme run) \<Rightarrow> nat \<Rightarrow>
     'ev list \<Rightarrow> 'ev list \<Rightarrow> (nat \<times> 'ev list) list \<Rightarrow> UdsMessage \<Rightarrow> 'a udp_channel_scheme \<Rightarrow>
     (TransmissionResult \<times> nat \<times> 'a udp_channel_scheme \<times> (nat \<times> 'ev list) list) call" where
  [simp]: "DoipUdpConnection_Transmit io step now win1 win2 evs msg w =
     UdpChannel_Transmit io step now win1 win2 evs msg w"

end
