(* ===== verification/Std_Map.thy ===== *)
theory Std_Map
  imports Prelude
begin

text \<open>
  The two associative containers of the standard library the application uses: \<open>std::map\<close>, an
  association list in the order of its keys, and \<open>std::unordered_map\<close>, an association list whose
  order means nothing. Both have an \<open>emplace\<close> that keeps the element that is already there; the
  locale \<open>first_wins_map\<close> is that contract.
\<close>

locale first_wins_map =
  fixes emplace :: "'k \<Rightarrow> 'v \<Rightarrow> 'm \<Rightarrow> 'm"
    and lookup :: "'m \<Rightarrow> 'k \<Rightarrow> 'v option"
    and ok :: "'m \<Rightarrow> bool"
  assumes ok_emplace: "ok m \<Longrightarrow> ok (emplace k v m)"
    and lookup_emplace: "ok m \<Longrightarrow>
      lookup (emplace k v m) j = (if j = k \<and> lookup m k = None then Some v else lookup m j)"
begin

definition emplace_all :: "('k \<times> 'v) list \<Rightarrow> 'm \<Rightarrow> 'm" where
  "emplace_all kvs m = fold (\<lambda>(k, v). emplace k v) kvs m"

lemma emplace_all_simps [simp]:
  "emplace_all [] m = m"
  "emplace_all ((k, v) # kvs) m = emplace_all kvs (emplace k v m)"
  by (simp_all add: emplace_all_def)

lemma ok_emplace_all: "ok m \<Longrightarrow> ok (emplace_all kvs m)"
  by (induction kvs arbitrary: m) (auto simp: ok_emplace)

text \<open>What was there stays; of what is added the first with its key stays.\<close>

lemma lookup_emplace_all:
  "ok m \<Longrightarrow> lookup (emplace_all kvs m) j = (case lookup m j of Some v \<Rightarrow> Some v | None \<Rightarrow> map_of kvs j)"
proof (induction kvs arbitrary: m)
  case (Cons kv kvs)
  then show ?case by (cases kv) (auto simp: ok_emplace lookup_emplace split: option.splits)
qed (simp split: option.splits)

lemma lookup_emplace_all_empty:
  assumes "ok m" and "\<And>j. lookup m j = None"
  shows "lookup (emplace_all kvs m) = map_of kvs"
  by (rule ext) (simp add: lookup_emplace_all assms)

end

section \<open>Ordered map\<close>

fun map_emplace :: "'k::linorder \<Rightarrow> 'v \<Rightarrow> ('k \<times> 'v) list \<Rightarrow> ('k \<times> 'v) list" where
  "map_emplace k v [] = [(k, v)]"
| "map_emplace k v ((j, u) # m) =
     (if k < j then (k, v) # (j, u) # m
      else if k = j then (j, u) # m
      else (j, u) # map_emplace k v m)"

definition map_sorted :: "('k::linorder \<times> 'v) list \<Rightarrow> bool" where
  "map_sorted m \<longleftrightarrow> sorted_wrt (<) (map fst m)"

lemma set_map_emplace: "set (map_emplace k v m) \<subseteq> insert (k, v) (set m)"
  by (induction m rule: map_emplace.induct) auto

lemma keys_map_emplace: "fst ` set (map_emplace k v m) = insert k (fst ` set m)"
  by (induction m rule: map_emplace.induct) auto

lemma map_emplace_not_Nil [simp]: "map_emplace k v m \<noteq> []"
  by (cases m) (auto split: if_splits)

lemma map_sorted_emplace: "map_sorted m \<Longrightarrow> map_sorted (map_emplace k v m)"
  unfolding map_sorted_def
proof (induction k v m rule: map_emplace.induct)
  case (2 k v j u m)
  have "\<forall>x \<in> fst ` set (map_emplace k v m). j < x" if "j < k"
    using 2 that by (simp only: keys_map_emplace) auto
  with 2 show ?case by (auto simp: not_less_iff_gr_or_eq intro: less_trans)
qed simp

lemma map_sorted_no_less: "map_sorted ((j, u) # m) \<Longrightarrow> k \<le> j \<Longrightarrow> map_of m k = None"
  by (force simp: map_sorted_def map_of_eq_None_iff)

lemma map_of_emplace:
  "map_sorted m \<Longrightarrow> map_of (map_emplace k v m) i = (if i = k \<and> map_of m k = None then Some v else map_of m i)"
proof (induction k v m rule: map_emplace.induct)
  case (2 k v j u m)
  then have "map_sorted m" by (simp add: map_sorted_def)
  with 2 map_sorted_no_less [OF 2(2), of k] show ?case
    by (cases k j rule: linorder_cases) auto
qed simp

interpretation std_map: first_wins_map map_emplace map_of map_sorted
  by unfold_locales (simp_all add: map_sorted_emplace map_of_emplace)

lemma map_sorted_distinct: "map_sorted m \<Longrightarrow> distinct (map fst m)"
  by (simp add: map_sorted_def strict_sorted_iff)

section \<open>Unordered map\<close>

definition umap_emplace :: "'k \<Rightarrow> 'v \<Rightarrow> ('k \<times> 'v) list \<Rightarrow> ('k \<times> 'v) list" where
  "umap_emplace k v m = (if k \<in> fst ` set m then m else m @ [(k, v)])"

definition umap_distinct :: "('k \<times> 'v) list \<Rightarrow> bool" where
  "umap_distinct m \<longleftrightarrow> distinct (map fst m)"

lemma umap_emplace_map_of: "umap_emplace k v m = (if map_of m k = None then m @ [(k, v)] else m)"
  by (simp add: umap_emplace_def map_of_eq_None_iff)

interpretation std_unordered_map: first_wins_map umap_emplace map_of umap_distinct
proof unfold_locales
  fix m :: "('k \<times> 'v) list" and k v j
  show "umap_distinct m \<Longrightarrow> umap_distinct (umap_emplace k v m)"
    by (auto simp: umap_distinct_def umap_emplace_def)
  show "map_of (umap_emplace k v m) j = (if j = k \<and> map_of m k = None then Some v else map_of m j)"
    by (auto simp: umap_emplace_map_of map_add_def split: option.splits)
qed

end
