(* ===== verification/Dm_Conversation.thy ===== *)
theory Dm_Conversation
  imports Doip_Tcp_Connection
begin

text \<open>
  The diagnostic conversation of the application layer
  (\<open>dcm/conversation/dm_conversation.cpp\<close>, its state context in
  \<open>dm_conversation_state_impl.cpp\<close>, its messages in \<open>dcm/service/dm_uds_message.cpp\<close>): connect,
  disconnect, send a request and wait for its final response through any number of pending
  ones, and the two calls with which the channel hands a response over.
\<close>

section \<open>Results the application sees\<close>

datatype ConnectResult = kConnectSuccess | kConnectFailed | kConnectTimeout | kTlsRequired

datatype DisconnectResult = kDisconnectSuccess | kDisconnectFailed | kAlreadyDisconnected

datatype DiagError =
    kDiagGenericFailure | kDiagRequestSendFailed | kDiagAckTimeout | kDiagNegAckReceived
  | kDiagResponseTimeout | kDiagInvalidParameter | kDiagBusyProcessing

text \<open>The casts between enumerations go through their values, which run in parallel.\<close>

definition cast_ConnectResult :: "ConnectionResult \<Rightarrow> ConnectResult" where
  "cast_ConnectResult r =
     (case r of kConnectionOk \<Rightarrow> kConnectSuccess | kConnectionFailed \<Rightarrow> kConnectFailed
      | kConnectionTimeout \<Rightarrow> kConnectTimeout)"

definition cast_DisconnectResult :: "DisconnectionResult \<Rightarrow> DisconnectResult" where
  "cast_DisconnectResult r =
     (case r of kDisconnectionOk \<Rightarrow> kDisconnectSuccess | kDisconnectionFailed \<Rightarrow> kDisconnectFailed)"

definition ConvertResponseType :: "TransmissionResult \<Rightarrow> DiagError" where
  "ConvertResponseType r =
     (case r of kTransmitFailed \<Rightarrow> kDiagRequestSendFailed
      | kNoTransmitAckReceived \<Rightarrow> kDiagAckTimeout
      | kNegTransmitAckReceived \<Rightarrow> kDiagNegAckReceived
      | kBusyProcessing \<Rightarrow> kDiagBusyProcessing
      | _ \<Rightarrow> kDiagGenericFailure)"

section \<open>State\<close>

datatype ConversationState =
    cv_kIdle | cv_kDiagWaitForRes | cv_kDiagStartP2StarTimer
  | cv_kDiagRecvdPendingRes | cv_kDiagRecvdFinalRes | cv_kDiagSuccess

datatype ActivityStatusType = kActive | kInactive

record dm_world = diag_handler +
  activity_status :: ActivityStatusType
  rx_buffer_size :: u32
  p2_client_max :: u16
  p2_star_client_max :: u16
  source_address :: u16
  target_address :: u16
  remote_address :: string
  payload_rx_buffer :: bytes
  cv_context :: "ConversationState StateContext"
  cv_timer :: SyncTimer

definition new_cv_context :: "ConversationState StateContext" where
  "new_cv_context =
     TransitionTo cv_kIdle
       (AddState cv_kDiagSuccess
         (AddState cv_kDiagRecvdFinalRes
           (AddState cv_kDiagRecvdPendingRes
             (AddState cv_kDiagStartP2StarTimer
               (AddState cv_kDiagWaitForRes
                 (AddState cv_kIdle new_StateContext))))))"

text \<open>The settings of a conversation, as the configuration gives them.\<close>

record DMConversationType =
  conf_p2_client_max :: u16
  conf_p2_star_client_max :: u16
  conf_source_address :: u16
  conf_rx_buffer_size :: u32
  conf_tcp_address :: string
  conf_port_num :: u16
  conf_handler_id :: u8

definition new_DmConversation :: "DMConversationType \<Rightarrow> dm_world" where
  "new_DmConversation conversion_identifier =
     \<lparr>connection_state = kDisconnected, running = False, exit_reader = False, reader_started = False, sent = [],
      ra_context = new_ra_context, ra_timer = new_SyncTimer,
      dm_context = new_dm_context, dm_timer = new_SyncTimer,
      activity_status = kInactive,
      rx_buffer_size = conf_rx_buffer_size conversion_identifier,
      p2_client_max = conf_p2_client_max conversion_identifier,
      p2_star_client_max = conf_p2_star_client_max conversion_identifier,
      source_address = conf_source_address conversion_identifier,
      target_address = 0, remote_address = '''', payload_rx_buffer = [],
      cv_context = new_cv_context, cv_timer = new_SyncTimer\<rparr>"

definition cv_in :: "ConversationState \<Rightarrow> dm_world \<Rightarrow> bool" where
  "cv_in s w \<longleftrightarrow> in_state (cv_context w) s"

definition cv_goto :: "ConversationState \<Rightarrow> dm_world \<Rightarrow> dm_world" where
  "cv_goto s w = w\<lparr>cv_context := TransitionTo s (cv_context w)\<rparr>"

definition cv_cancel :: "dm_world \<Rightarrow> dm_world" where
  "cv_cancel w = w\<lparr>cv_timer := CancelWait (cv_timer w)\<rparr>"

section \<open>Messages\<close>

text \<open>
  Both message classes hold a reference to a byte vector. The message for a response and the
  response the application receives refer to the reception buffer of the conversation: they are
  handles, and reading their payload reads the buffer as it is then.
\<close>

record DmUdsMessage =
  msg_source_address :: u16
  msg_target_address :: u16
  msg_host_ip_address :: string

datatype DmUdsResponse = Rx_Buffer_Reference

definition DmUdsResponse_GetPayload :: "DmUdsResponse \<Rightarrow> dm_world \<Rightarrow> bytes" where
  "DmUdsResponse_GetPayload response w = (case response of Rx_Buffer_Reference \<Rightarrow> payload_rx_buffer w)"

definition DmUdsMessage_GetHostPortNumber :: u16 where
  "DmUdsMessage_GetHostPortNumber = 13400"

definition uds_message_down :: "u16 \<Rightarrow> u16 \<Rightarrow> string \<Rightarrow> bytes \<Rightarrow> UdsMessage" where
  "uds_message_down sa ta host_ip p =
     \<lparr>uds_sa = sa, uds_ta = ta, uds_host_ip = host_ip,
      uds_host_port = DmUdsMessage_GetHostPortNumber, uds_payload = p\<rparr>"

record UdsRequestMessage =
  req_host_ip :: string
  req_payload :: bytes

section \<open>Reception\<close>

text \<open>The second operand of \<open>&&\<close> reads byte 2 only if byte 0 is \<open>0x7F\<close>; the read is checked.\<close>

definition dm_IndicateMessage ::
    "u16 \<Rightarrow> u16 \<Rightarrow> nat \<Rightarrow> bytes \<Rightarrow> dm_world \<Rightarrow> (IndicationResult \<times> DmUdsMessage option \<times> dm_world) run" where
  "dm_IndicateMessage sa ta sz payload_info w =
     (if payload_info \<noteq> [] then
        (if sz \<le> unat (rx_buffer_size w) then
           bind_run (span_at payload_info 0) (\<lambda>b0.
           bind_run (if b0 = 0x7F then bind_run (span_at payload_info 2) (\<lambda>b2. Inr (b2 = 0x78)) else Inr False)
             (\<lambda>pending.
               if pending then
                 Inr (kIndicationPending, None, cv_cancel (cv_goto cv_kDiagRecvdPendingRes w))
               else
                 let w1 = w\<lparr>payload_rx_buffer := vector_resize sz (payload_rx_buffer w)\<rparr> in
                 Inr (kIndicationOk,
                      Some \<lparr>msg_source_address = source_address w, msg_target_address = target_address w,
                            msg_host_ip_address = ''''\<rparr>,
                      cv_cancel (cv_goto cv_kDiagRecvdFinalRes w1))))
         else Inr (kIndicationOverflow, None, w))
      else Inr (kIndicationNOk, None, w))"

definition dm_message_copy :: "bytes \<Rightarrow> DmUdsMessage \<Rightarrow> dm_world \<Rightarrow> (DmUdsMessage \<times> dm_world) run" where
  "dm_message_copy p m w =
     bind_run (copy_to p (payload_rx_buffer w)) (\<lambda>buf. Inr (m, w\<lparr>payload_rx_buffer := buf\<rparr>))"

definition dm_HandleMessage :: "DmUdsMessage option \<Rightarrow> dm_world \<Rightarrow> dm_world run" where
  "dm_HandleMessage message w =
     (case message of None \<Rightarrow> Inr w | Some m \<Rightarrow> Inr (cv_goto cv_kDiagSuccess w))"

definition DmConversationHandler :: "(DmUdsMessage, dm_world) ConversionHandler" where
  "DmConversationHandler =
     \<lparr>IndicateMessage = dm_IndicateMessage, message_copy = dm_message_copy,
      HandleMessage = (\<lambda>m. dm_HandleMessage (Some m))\<rparr>"

text \<open>What the other threads do to a conversation with its channel.\<close>

definition dm_step :: "asio_io \<Rightarrow> channel_event \<Rightarrow> dm_world \<Rightarrow> dm_world run" where
  "dm_step io = channel_step io DmConversationHandler"

section \<open>Operations of the application\<close>

definition DmConversation_Startup :: "asio_io \<Rightarrow> dm_world \<Rightarrow> dm_world run" where
  "DmConversation_Startup io w = bind_run (DoipTcpConnection_Start io w) (\<lambda>w'. Inr (w'\<lparr>activity_status := kActive\<rparr>))"

definition DmConversation_Shutdown :: "asio_io \<Rightarrow> dm_world \<Rightarrow> dm_world run" where
  "DmConversation_Shutdown io w =
     (if activity_status w = kActive
      then bind_run (DoipTcpConnection_Stop io w) (\<lambda>w'. Inr (w'\<lparr>activity_status := kInactive\<rparr>)) else Inr w)"

definition ConnectToDiagServer ::
    "asio_io \<Rightarrow> nat \<Rightarrow> channel_event list \<Rightarrow> channel_event list \<Rightarrow> (nat \<times> channel_event list) list \<Rightarrow>
     u16 \<Rightarrow> string \<Rightarrow> dm_world \<Rightarrow>
     (ConnectResult \<times> nat \<times> dm_world \<times> (nat \<times> channel_event list) list) call" where
  "ConnectToDiagServer io now win1 win2 evs target host_ip w =
     bind_call
       (DoipTcpConnection_ConnectToHost io (dm_step io) now win1 win2 evs
          (uds_message_down (source_address w) target host_ip []) w)
       (\<lambda>(r, t, w', rest).
          Returns (cast_ConnectResult r, t, w'\<lparr>remote_address := host_ip, target_address := target\<rparr>, rest))"

definition DisconnectFromDiagServer :: "asio_io \<Rightarrow> dm_world \<Rightarrow> DisconnectResult \<times> dm_world" where
  "DisconnectFromDiagServer io w =
     (if DoipTcpConnection_IsConnectToHost w then
        (case DoipTcpConnection_DisconnectFromHost io w of (r, w') \<Rightarrow> (cast_DisconnectResult r, w'))
      else (kAlreadyDisconnected, w))"

type_synonym diag_result = "(DmUdsResponse, DiagError) Result"

definition p2_timeout_func :: "diag_result \<Rightarrow> dm_world \<Rightarrow> diag_result \<times> dm_world" where
  "p2_timeout_func result w = (EmplaceError kDiagResponseTimeout result, cv_goto cv_kIdle w)"

definition p2_cancellation_func :: "diag_result \<Rightarrow> dm_world \<Rightarrow> diag_result \<times> dm_world" where
  "p2_cancellation_func result w =
     (result,
      if cv_in cv_kDiagRecvdFinalRes w then w
      else if cv_in cv_kDiagRecvdPendingRes w then cv_goto cv_kDiagStartP2StarTimer w
      else w)"

definition p2_star_timeout_func :: "diag_result \<Rightarrow> dm_world \<Rightarrow> diag_result \<times> dm_world" where
  "p2_star_timeout_func result w = (EmplaceError kDiagResponseTimeout result, cv_goto cv_kIdle w)"

definition p2_star_cancellation_func :: "diag_result \<Rightarrow> dm_world \<Rightarrow> diag_result \<times> dm_world" where
  "p2_star_cancellation_func result w =
     (result,
      if cv_in cv_kDiagRecvdFinalRes w then w
      else if cv_in cv_kDiagRecvdPendingRes w then cv_goto cv_kDiagStartP2StarTimer w
      else w)"

text \<open>
  The caller takes one batch off its schedule at every point where another thread can come
  between two of its steps; an exhausted schedule has nothing more to do there.
\<close>

definition next_window ::
    "('ev \<Rightarrow> 'w \<Rightarrow> 'w run) \<Rightarrow> nat \<Rightarrow> 'w \<Rightarrow> (nat \<times> 'ev list) list \<Rightarrow> (nat \<times> 'w \<times> (nat \<times> 'ev list) list) call" where
  "next_window step now w evs =
     (case evs of [] \<Rightarrow> Returns (now, w, [])
      | (t, es) # rest \<Rightarrow> bind_call (call_of_run (deliver_all step es w)) (\<lambda>w'. Returns (t, w', rest)))"

lemma next_window_rest:
  "next_window step now w evs = Returns (t, w', rest) \<Longrightarrow> length rest \<le> length evs"
  by (auto simp: next_window_def bind_call_Returns_iff split: list.splits)

lemma next_window_consumes:
  "next_window step now w evs = Returns (t, w', rest) \<Longrightarrow> evs \<noteq> [] \<Longrightarrow> length rest < length evs"
  by (auto simp: next_window_def bind_call_Returns_iff split: list.splits)

lemma WaitForTimeout_rest:
  "WaitForTimeout timer_of timer_update step tf cf timeout now w evs = Returns (r, t, w', rest) \<Longrightarrow>
   length rest \<le> length evs"
  by (auto simp: WaitForTimeout_Returns_iff dest: wait_until_rest_length)

text \<open>
  The loop of \<open>SendDiagnosticRequest\<close>. Each round reads the state once, lets the other threads
  run, and acts on the state it read: in the states \<open>kDiagRecvdFinalRes\<close> and \<open>kDiagWaitForRes\<close>
  it does nothing and looks again.
\<close>

function response_loop ::
    "(channel_event \<Rightarrow> dm_world \<Rightarrow> dm_world run) \<Rightarrow> nat \<Rightarrow> diag_result \<Rightarrow> dm_world \<Rightarrow>
     (nat \<times> channel_event list) list \<Rightarrow>
     (diag_result \<times> nat \<times> dm_world \<times> (nat \<times> channel_event list) list) call" where
  "response_loop step now result w evs =
     bind_call (call_of_run (GetActiveState (cv_context w))) (\<lambda>s.
       if s = cv_kIdle then Returns (result, now, w, evs)
       else if evs = [] then Blocks
       else
         bind_call (next_window step now w evs) (\<lambda>(t, w1, evs1).
           case s of
             cv_kDiagRecvdPendingRes \<Rightarrow> response_loop step t result (cv_goto cv_kDiagStartP2StarTimer w1) evs1
           | cv_kDiagStartP2StarTimer \<Rightarrow>
               bind_call
                 (WaitForTimeout cv_timer cv_timer_update step (p2_star_timeout_func result)
                    (p2_star_cancellation_func result) (unat (p2_star_client_max w1)) t w1 evs1)
                 (\<lambda>(result', t', w2, evs2). response_loop step t' result' w2 evs2)
           | cv_kDiagSuccess \<Rightarrow>
               response_loop step t (EmplaceValue Rx_Buffer_Reference result) (cv_goto cv_kIdle w1) evs1
           | _ \<Rightarrow> response_loop step t result w1 evs1))"
  by pat_completeness auto

termination
  by (relation "measure (\<lambda>(step, now, result, w, evs). length evs)")
     (auto dest: next_window_consumes dest!: WaitForTimeout_rest intro: le_less_trans)

definition SendDiagnosticRequest ::
    "asio_io \<Rightarrow> nat \<Rightarrow> channel_event list \<Rightarrow> channel_event list \<Rightarrow> (nat \<times> channel_event list) list \<Rightarrow>
     UdsRequestMessage option \<Rightarrow> dm_world \<Rightarrow>
     (diag_result \<times> nat \<times> dm_world \<times> (nat \<times> channel_event list) list) call" where
  "SendDiagnosticRequest io now win1 win2 evs message w =
     (let result = FromError kDiagRequestSendFailed in
      case message of
        Some message \<Rightarrow>
          bind_call
            (DoipTcpConnection_Transmit io (dm_step io) now win1 win2 evs
               (uds_message_down (source_address w) (target_address w) (req_host_ip message) (req_payload message)) w)
            (\<lambda>(transmission_result, t, w1, evs1).
               if transmission_result = kTransmitOk then
                 bind_call (next_window (dm_step io) t w1 evs1) (\<lambda>(t2, w2, evs2).
                 bind_call (next_window (dm_step io) t2 (cv_goto cv_kDiagWaitForRes w2) evs2) (\<lambda>(t3, w3, evs3).
                 bind_call
                   (WaitForTimeout cv_timer cv_timer_update (dm_step io) (p2_timeout_func result)
                      (p2_cancellation_func result) (unat (p2_client_max w3)) t3 w3 evs3)
                   (\<lambda>(result', t4, w4, evs4). response_loop (dm_step io) t4 result' w4 evs4)))
               else Returns (EmplaceError (ConvertResponseType transmission_result) result, t, w1, evs1))
      | None \<Rightarrow> Returns (EmplaceError kDiagInvalidParameter result, now, w, evs))"

declare response_loop.simps [simp del]

section \<open>Facts\<close>

text \<open>All six states are known to the context.\<close>

definition cv_known :: "dm_world \<Rightarrow> bool" where
  "cv_known w \<longleftrightarrow> (\<forall>s. registered (cv_context w) s)"

lemma new_cv_context_facts [ctx_simps]:
  "registered new_cv_context s" "in_state new_cv_context s \<longleftrightarrow> s = cv_kIdle"
  by (cases s; simp add: new_cv_context_def ctx_simps)+

lemma cv_in_unique: "cv_in s w \<Longrightarrow> cv_in t w \<Longrightarrow> s = t"
  by (auto simp: cv_in_def dest: in_state_unique)

lemma cv_in_goto [ctx_simps, simp]: "cv_known w \<Longrightarrow> cv_in t (cv_goto s w) \<longleftrightarrow> s = t"
  by (simp add: cv_in_def cv_goto_def cv_known_def ctx_simps)

lemma GetActiveState_cv: "cv_in s w \<Longrightarrow> GetActiveState (cv_context w) = Inr s"
  by (simp add: cv_in_def in_state_def)

text \<open>The operations of the channel leave the conversation alone, and the other way round.\<close>

lemma more_fields:
  assumes "diag_handler.more v = diag_handler.more (w :: dm_world)"
  shows "cv_context v = cv_context w" "cv_timer v = cv_timer w" "payload_rx_buffer v = payload_rx_buffer w"
    "rx_buffer_size v = rx_buffer_size w" "p2_client_max v = p2_client_max w"
    "p2_star_client_max v = p2_star_client_max w" "source_address v = source_address w"
    "target_address v = target_address w" "cv_in s v = cv_in s w" "cv_known v = cv_known w"
  using assms by (cases v, cases w, simp add: cv_in_def cv_known_def)+

lemma channel_ops_more [simp]:
  "diag_handler.more (ra_goto r w) = diag_handler.more w" "diag_handler.more (ra_cancel w) = diag_handler.more w"
  "diag_handler.more (TcpChannelHandler_Reset w) = diag_handler.more w"
proof -
  show g: "diag_handler.more (ra_goto r w) = diag_handler.more w" for r and w :: "'a diag_handler_scheme"
    by (simp add: ra_goto_def)
  show c: "diag_handler.more (ra_cancel w) = diag_handler.more w" for w :: "'a diag_handler_scheme"
    by (simp add: ra_cancel_def)
  show "diag_handler.more (TcpChannelHandler_Reset w) = diag_handler.more w"
    by (simp add: TcpChannelHandler_Reset_def RoutingActivationHandler_Reset_def DiagnosticMessageHandler_Reset_def
        RoutingActivationHandler_Stop_def DiagnosticMessageHandler_Stop_def g c)
qed

lemma cv_ops_truncate [simp]:
  "diag_handler.truncate (cv_goto s w) = diag_handler.truncate w"
  "diag_handler.truncate (cv_cancel w) = diag_handler.truncate w"
  "diag_handler.truncate (w\<lparr>payload_rx_buffer := b\<rparr>) = diag_handler.truncate w"
  "diag_handler.truncate (cv_timer_update f w) = diag_handler.truncate w"
  by (simp_all add: cv_goto_def cv_cancel_def diag_handler.defs)

lemma cv_ops_frame [simp]:
  "payload_rx_buffer (cv_goto s w) = payload_rx_buffer w" "payload_rx_buffer (cv_cancel w) = payload_rx_buffer w"
  "rx_buffer_size (cv_goto s w) = rx_buffer_size w" "rx_buffer_size (cv_cancel w) = rx_buffer_size w"
  "cv_timer (cv_goto s w) = cv_timer w" "cv_context (cv_cancel w) = cv_context w"
  "cv_in s (cv_cancel w) = cv_in s w" "cv_known (cv_cancel w) = cv_known w" "cv_known (cv_goto s w) = cv_known w"
  "cv_in s (w\<lparr>payload_rx_buffer := b\<rparr>) = cv_in s w" "cv_known (w\<lparr>payload_rx_buffer := b\<rparr>) = cv_known w"
  "cv_in s (cv_timer_update f w) = cv_in s w" "cv_known (cv_timer_update f w) = cv_known w"
  "\<not> start_running (cv_timer (cv_cancel w))"
  "exit_request (cv_timer (cv_cancel w)) = exit_request (cv_timer w)"
  by (simp_all add: cv_goto_def cv_cancel_def cv_in_def cv_known_def)

section \<open>The conversation keeps to the contract of the channel\<close>

definition dm_valid :: "DmUdsMessage \<Rightarrow> nat \<Rightarrow> dm_world \<Rightarrow> bool" where
  "dm_valid m n w \<longleftrightarrow> length (payload_rx_buffer w) = n"

lemma dm_IndicateMessage_Inr_cases:
  assumes "dm_IndicateMessage sa ta n p w = Inr (r, mo, w')"
  obtains (Empty) "p = []" "r = kIndicationNOk" "mo = None" "w' = w"
  | (Overflow) "p \<noteq> []" "unat (rx_buffer_size w) < n" "r = kIndicationOverflow" "mo = None" "w' = w"
  | (Pending) "2 < length p" "p ! 0 = 0x7F" "p ! 2 = 0x78" "n \<le> unat (rx_buffer_size w)"
      "r = kIndicationPending" "mo = None" "w' = cv_cancel (cv_goto cv_kDiagRecvdPendingRes w)"
  | (Final) m where "p \<noteq> []" "p ! 0 = 0x7F \<longrightarrow> p ! 2 \<noteq> 0x78" "n \<le> unat (rx_buffer_size w)"
      "r = kIndicationOk" "mo = Some m"
      "w' = cv_cancel (cv_goto cv_kDiagRecvdFinalRes (w\<lparr>payload_rx_buffer := vector_resize n (payload_rx_buffer w)\<rparr>))"
  using assms
  by (auto simp: dm_IndicateMessage_def bind_run_Inr_iff span_at_Inr_iff Let_def not_le split: if_splits)

interpretation dm_chan: tcp_conversation DmConversationHandler dm_valid
proof unfold_locales
  fix sa ta n p w r mo w'
  assume "IndicateMessage DmConversationHandler sa ta n p w = Inr (r, mo, w')"
  then have i: "dm_IndicateMessage sa ta n p w = Inr (r, mo, w')" by (simp add: DmConversationHandler_def)
  from i show "diag_handler.truncate w' = diag_handler.truncate w"
    by (cases rule: dm_IndicateMessage_Inr_cases) simp_all
next
  fix p m w m' w'
  assume "message_copy DmConversationHandler p m w = Inr (m', w')"
  then show "diag_handler.truncate w' = diag_handler.truncate w"
    by (auto simp: DmConversationHandler_def dm_message_copy_def bind_run_Inr_iff)
next
  fix m w w'
  assume "HandleMessage DmConversationHandler m w = Inr w'"
  then show "diag_handler.truncate w' = diag_handler.truncate w"
    by (auto simp: DmConversationHandler_def dm_HandleMessage_def)
next
  fix sa ta n p w r m w'
  assume "IndicateMessage DmConversationHandler sa ta n p w = Inr (r, Some m, w')"
  then have i: "dm_IndicateMessage sa ta n p w = Inr (r, Some m, w')" by (simp add: DmConversationHandler_def)
  from i show "dm_valid m n w'"
    by (cases rule: dm_IndicateMessage_Inr_cases) (simp_all add: dm_valid_def)
next
  fix m and p :: bytes and w
  assume "dm_valid m (length p) w"
  then show "\<exists>m' w'. message_copy DmConversationHandler p m w = Inr (m', w') \<and> dm_valid m' (length p) w'"
    by (simp add: DmConversationHandler_def dm_message_copy_def dm_valid_def)
qed

text \<open>Whether a response is a pending one: negative response, any service, code \<open>0x78\<close>.\<close>

definition is_pending :: "bytes \<Rightarrow> bool" where
  "is_pending p \<longleftrightarrow> p ! 0 = 0x7F \<and> p ! 2 = 0x78"

text \<open>The world after a final response has been handed over.\<close>

definition final_received :: "bytes \<Rightarrow> dm_world \<Rightarrow> dm_world" where
  "final_received p w =
     dm_goto dm_kIdle (cv_goto cv_kDiagSuccess
       ((cv_cancel (cv_goto cv_kDiagRecvdFinalRes w))\<lparr>payload_rx_buffer := p\<rparr>))"

lemma handler_calls [simp]:
  "IndicateMessage DmConversationHandler = dm_IndicateMessage"
  "message_copy DmConversationHandler = dm_message_copy"
  "HandleMessage DmConversationHandler = (\<lambda>m. dm_HandleMessage (Some m))"
  by (simp_all add: DmConversationHandler_def)

lemma dm_response_cases:
  assumes "ProcessDoIPDiagnosticMessageResponse DmConversationHandler m w = Inr w'" and "payload m \<noteq> []"
  obtains (Ignored) "\<not> dm_in dm_kWaitForDiagnosticResponse w" "w' = w"
  | (Overflow) "dm_in dm_kWaitForDiagnosticResponse w" "unat (rx_buffer_size w) < length (payload m)"
      "w' = dm_goto dm_kIdle w"
  | (Pending) "dm_in dm_kWaitForDiagnosticResponse w" "is_pending (payload m)" "2 < length (payload m)"
      "w' = cv_cancel (cv_goto cv_kDiagRecvdPendingRes w)"
  | (Final) "dm_in dm_kWaitForDiagnosticResponse w" "\<not> is_pending (payload m)"
      "length (payload m) \<le> unat (rx_buffer_size w)" "w' = final_received (payload m) w"
proof (cases "dm_in dm_kWaitForDiagnosticResponse w")
  case False
  with assms(1) have "w' = w" by (simp add: ProcessDoIPDiagnosticMessageResponse_def)
  with False show thesis by (rule that(1))
next
  case True
  from assms(1) True obtain r mo w1 where i:
      "dm_IndicateMessage (server_address m) (client_address m) (length (payload m)) (payload m) w = Inr (r, mo, w1)"
    and rest: "(if r = kIndicationPending then Inr w1 else
              bind_run
                (case (r, mo) of
                   (kIndicationOk, Some msg) \<Rightarrow>
                     bind_run (dm_message_copy (payload m) msg w1) (\<lambda>(msg', w2). dm_HandleMessage (Some msg') w2)
                 | _ \<Rightarrow> Inr w1) (\<lambda>w3. Inr (dm_goto dm_kIdle w3))) = Inr w'"
    by (cases "dm_IndicateMessage (server_address m) (client_address m) (length (payload m)) (payload m) w")
       (auto simp: ProcessDoIPDiagnosticMessageResponse_def [of DmConversationHandler, unfolded handler_calls])
  from i show thesis
  proof (cases rule: dm_IndicateMessage_Inr_cases)
    case Empty
    with assms(2) show thesis by simp
  next
    case Overflow
    with rest True show thesis by (intro that(2)) auto
  next
    case Pending
    with rest True show thesis by (intro that(3)) (auto simp: is_pending_def)
  next
    case (Final msg)
    with rest have "w' = final_received (payload m) w"
      by (simp add: dm_message_copy_def dm_HandleMessage_def final_received_def cv_cancel_def cv_goto_def)
    with Final True show thesis by (intro that(4)) (auto simp: is_pending_def)
  qed
qed

lemma dm_rx_cases:
  assumes "dm_step io (Rx_Frame ip port p) w = Inr w'"
  obtains (Channel) "diag_handler.more w' = diag_handler.more w"
  | (Pending) m where "accepted p m" "payload_type m = kDoipDiagMessage"
      "dm_in dm_kWaitForDiagnosticResponse w" "is_pending (payload m)"
      "w' = cv_cancel (cv_goto cv_kDiagRecvdPendingRes w)"
  | (Final) m where "accepted p m" "payload_type m = kDoipDiagMessage"
      "dm_in dm_kWaitForDiagnosticResponse w" "\<not> is_pending (payload m)"
      "length (payload m) \<le> unat (rx_buffer_size w)" "w' = final_received (payload m) w"
proof -
  from assms obtain m where m: "new_DoipMessage kTcp ip port p = Inr m"
    and d: "(case ProcessDoIPHeader m 0 of (ok, nack_code) \<Rightarrow>
       if ok then ProcessDoIPPayload DmConversationHandler m w else Inr w) = Inr w'"
    by (auto simp: dm_step_def TcpChannelHandler_HandleMessage_def bind_run_Inr_iff)
  have ne: "payload m \<noteq> []" using new_DoipMessage_tcp_payload [OF m] by simp
  show thesis
  proof (cases "fst (ProcessDoIPHeader m 0) \<and> payload_type m = kDoipDiagMessage")
    case True
    with m d have acc: "accepted p m" and ty: "payload_type m = kDoipDiagMessage"
      and r: "ProcessDoIPDiagnosticMessageResponse DmConversationHandler m w = Inr w'"
      by (auto simp: accepted_def ProcessDoIPPayload_def doip_consts split: prod.splits)
    from r ne show thesis
    proof (cases rule: dm_response_cases)
      case Ignored
      with that(1) show thesis by simp
    next
      case Overflow
      with that(1) show thesis by (simp add: dm_goto_def)
    next
      case Pending
      with that(2) acc ty show thesis by simp
    next
      case Final
      with that(3) acc ty show thesis by simp
    qed
  next
    case False
    with d have "w' = w \<or> ProcessDoIPRoutingActivationResponse m w = Inr w' \<or>
        ProcessDoIPDiagnosticAckMessageResponse m w = Inr w'"
      by (auto simp: ProcessDoIPPayload_def split: prod.splits if_splits)
    then have "diag_handler.more w' = diag_handler.more w"
    proof (elim disjE)
      assume "ProcessDoIPRoutingActivationResponse m w = Inr w'"
      then show ?thesis by (cases rule: ProcessRoutingActivation_cases) simp_all
    next
      assume "ProcessDoIPDiagnosticAckMessageResponse m w = Inr w'"
      then show ?thesis by (cases rule: ProcessDiagnosticAck_cases) simp_all
    qed simp
    then show thesis by (rule that(1))
  qed
qed

lemma dm_step_other [simp]:
  assumes "dm_step io e w = Inr w'" and "\<And>ip port p. e \<noteq> Rx_Frame ip port p"
  shows "diag_handler.more w' = diag_handler.more w"
  using assms
  by (cases e)
     (auto simp: dm_step_def TcpChannel_DisconnectFromHost_eq TcpChannel_Stop_eq Let_def split: if_splits)

lemma final_received_facts [simp]:
  "payload_rx_buffer (final_received p w) = p"
  "cv_known (final_received p w) = cv_known w"
  "cv_known w \<Longrightarrow> cv_in s (final_received p w) \<longleftrightarrow> s = cv_kDiagSuccess"
  "\<not> start_running (cv_timer (final_received p w))"
  "exit_request (cv_timer (final_received p w)) = exit_request (cv_timer w)"
  "dm_known w \<Longrightarrow> dm_in d (final_received p w) \<longleftrightarrow> d = dm_kIdle"
  by (auto simp: final_received_def dm_goto_def cv_goto_def cv_cancel_def cv_known_def cv_in_def
      dm_known_def dm_in_def ctx_simps)

lemma dm_step_cv_exit:
  assumes "dm_step io e w = Inr w'"
  shows "exit_request (cv_timer w') = exit_request (cv_timer w)"
proof (cases "\<exists>ip port p. e = Rx_Frame ip port p")
  case False
  with more_fields(2) [OF dm_step_other [OF assms]] show ?thesis by auto
next
  case True
  then obtain ip port p where "e = Rx_Frame ip port p" by blast
  with assms have "dm_step io (Rx_Frame ip port p) w = Inr w'" by simp
  then show ?thesis
  proof (cases rule: dm_rx_cases)
    case Channel
    then show ?thesis by (simp add: more_fields(2) [OF Channel])
  qed simp_all
qed

interpretation cv_wait: timed_wait cv_timer cv_timer_update "dm_step io" for io
  by unfold_locales (use dm_step_cv_exit in auto)

end
