(* ===== verification/Vd_Conversation.thy ===== *)
theory Vd_Conversation
  imports Doip_Udp_Connection Std_Map Dm_Conversation
begin

text \<open>
  The vehicle discovery conversation of the application layer
  (\<open>dcm/conversation/vd_conversation.cpp\<close>, its message in \<open>dcm/service/vd_message.cpp\<close>): the
  request with its preselection by VIN or EID, the collection of the responses by logical address,
  and the texts the responses are converted to.
\<close>

section \<open>Data\<close>

record VehicleAddrInfoResponse =
  ip_address :: string
  logical_address :: u16
  vin :: string
  eid :: string
  gid :: string

record VehicleAddrInfoRequest =
  preselection_mode :: u8
  preselection_value :: string

datatype VehicleInfoResponseError = kTransmitFailed_VI | kInvalidParameters | kNoResponseReceived

record VDConversationType =
  conf_udp_address :: string
  conf_udp_broadcast_address :: string
  conf_udp_port_num :: u16
  conf_udp_handler_id :: u8

record VdMessage =
  vdm_host_ip_address :: string
  vdm_payload :: bytes

section \<open>Text\<close>

text \<open>
  \<open>std::string::substr\<close> throws behind the end of the string. The reader of an \<open>int\<close> in base 16
  skips white space, takes a sign and a prefix, stores zero if no digit follows and the nearest
  limit if the number does not fit; if there is nothing but white space it stores nothing.
\<close>

definition str_substr :: "string \<Rightarrow> nat \<Rightarrow> nat \<Rightarrow> string run" where
  "str_substr s pos n = (if pos \<le> length s then Inr (take n (drop pos s)) else Inl Uncaught_Exception)"

definition is_space :: "char \<Rightarrow> bool" where
  "is_space c \<longleftrightarrow> of_char c \<in> {9, 10, 11, 12, 13, 32 :: nat}"

definition hex_value :: "char \<Rightarrow> nat option" where
  "hex_value c =
     (let n = of_char c in
      if 48 \<le> n \<and> n \<le> 57 then Some (n - 48)
      else if 65 \<le> n \<and> n \<le> 70 then Some (n - 55)
      else if 97 \<le> n \<and> n \<le> 102 then Some (n - 87)
      else None)"

fun hex_digits_value :: "nat \<Rightarrow> string \<Rightarrow> nat" where
  "hex_digits_value acc [] = acc"
| "hex_digits_value acc (c # cs) =
     (case hex_value c of Some d \<Rightarrow> hex_digits_value (acc * 16 + d) cs | None \<Rightarrow> acc)"

definition drop_prefix_0x :: "string \<Rightarrow> string" where
  "drop_prefix_0x s =
     (if take 2 s = ''0x'' \<or> take 2 s = ''0X'' then drop 2 s else s)"

definition read_hex_int :: "string \<Rightarrow> int option" where
  "read_hex_int s =
     (case dropWhile is_space s of
        [] \<Rightarrow> None
      | c # cs \<Rightarrow>
          Some (if c = CHR ''-'' then max (- (2 ^ 31)) (- int (hex_digits_value 0 (drop_prefix_0x cs)))
                else min (2 ^ 31 - 1)
                       (int (hex_digits_value 0 (drop_prefix_0x (if c = CHR ''+'' then cs else c # cs))))))"

section \<open>Conversion of the payload\<close>

text \<open>The counters are bytes; the indices of the loop run from \<open>char_start\<close> to their sum.\<close>

definition ConvertToHexString :: "u8 \<Rightarrow> u8 \<Rightarrow> bytes \<Rightarrow> string run" where
  "ConvertToHexString char_start char_count input_buffer =
     (let total_char_count = char_start + char_count in
      bind_run
        (map_run (\<lambda>i. bind_run (vector_at input_buffer i) (\<lambda>payload_byte.
             Inr ((if unat payload_byte \<le> 15 then ''0'' else '''') @ to_hex (unat payload_byte) @ '':'')))
          [unat char_start ..< unat total_char_count])
        (\<lambda>parts. let hex_string = concat parts in
           if hex_string = [] then Inl Vector_Out_Of_Bounds else Inr (butlast hex_string)))"

definition ConvertToAsciiString :: "u8 \<Rightarrow> u8 \<Rightarrow> bytes \<Rightarrow> string run" where
  "ConvertToAsciiString char_start char_count input_buffer =
     (let total_char_count = char_start + char_count in
      map_run (\<lambda>i. bind_run (vector_at input_buffer i) (\<lambda>b. Inr (char_of (unat b))))
        [unat char_start ..< unat total_char_count])"

text \<open>The start of every substring the serialising loops take; both callers pass a positive range.\<close>

function substring_starts :: "nat \<Rightarrow> nat \<Rightarrow> nat \<Rightarrow> nat list" where
  "substring_starts char_count total_size substring_range =
     (if char_count < total_size \<and> 0 < substring_range
      then char_count # substring_starts (char_count + substring_range) total_size substring_range else [])"
  by pat_completeness auto

termination
  by (relation "measure (\<lambda>(c, total, r). total - c)") auto

declare substring_starts.simps [simp del]

definition SerializeEIDGIDFromString :: "string \<Rightarrow> bytes \<Rightarrow> u8 \<Rightarrow> u8 \<Rightarrow> bytes run" where
  "SerializeEIDGIDFromString input_string output_buffer total_size substring_range =
     bind_run
       (map_run (\<lambda>char_count.
          bind_run (str_substr input_string char_count (unat substring_range)) (\<lambda>input_string_new.
            case read_hex_int input_string_new of
              Some get_byte \<Rightarrow> Inr (word_of_int get_byte)
            | None \<Rightarrow> Inl Indeterminate_Value))
         (substring_starts 0 (unat total_size) (unat substring_range)))
       (\<lambda>bs. Inr (output_buffer @ bs))"

definition SerializeVINFromString :: "string \<Rightarrow> bytes \<Rightarrow> u8 \<Rightarrow> u8 \<Rightarrow> bytes run" where
  "SerializeVINFromString input_string output_buffer total_size substring_range =
     bind_run
       (map_run (\<lambda>char_count.
          bind_run (str_substr input_string char_count (unat substring_range)) (\<lambda>input_string_new.
            let get_byte = (case input_string_new of [] \<Rightarrow> -1 | c # cs \<Rightarrow> int (of_char c)) in
            Inr (word_of_int get_byte)))
         (substring_starts 0 (unat total_size) (unat substring_range)))
       (\<lambda>bs. Inr (output_buffer @ bs))"

definition DeserializeVehicleInfoRequest :: "VehicleAddrInfoRequest \<Rightarrow> (u8 \<times> bytes) run" where
  "DeserializeVehicleInfoRequest vehicle_info_request =
     (let mode = preselection_mode vehicle_info_request;
          val = preselection_value vehicle_info_request in
      if mode = 1 then
        bind_run (SerializeVINFromString val [] (word_of_nat (length val)) 1) (\<lambda>bs. Inr (mode, bs))
      else if mode = 2 then
        let val' = filter (\<lambda>c. c \<noteq> CHR '':'') val in
        bind_run (SerializeEIDGIDFromString val' [] (word_of_nat (length val')) 2) (\<lambda>bs. Inr (mode, bs))
      else Inr (mode, []))"

definition VerifyVehicleInfoRequest :: "u8 \<Rightarrow> u8 \<Rightarrow> bool" where
  "VerifyVehicleInfoRequest mode preselection_value_length =
     (if mode = 0 \<and> preselection_value_length = 0 then True
      else if mode = 1 \<and> preselection_value_length = 17 then True
      else if mode = 2 \<and> preselection_value_length = 6 then True
      else False)"

definition DeserializeVehicleInfoResponse :: "VdMessage \<Rightarrow> (u16 \<times> VehicleAddrInfoResponse) run" where
  "DeserializeVehicleInfoResponse message =
     (let p = vdm_payload message in
      bind_run (ConvertToAsciiString 0 17 p) (\<lambda>vehicle_info_data_vin.
      bind_run (ConvertToHexString 19 6 p) (\<lambda>vehicle_info_data_eid.
      bind_run (ConvertToHexString 25 6 p) (\<lambda>vehicle_info_data_gid.
      bind_run (vector_at p 17) (\<lambda>b17.
      bind_run (vector_at p 18) (\<lambda>b18.
        let address = u16_join b17 b18 in
        Inr (address,
             \<lparr>ip_address = vdm_host_ip_address message, logical_address = address,
              vin = vehicle_info_data_vin, eid = vehicle_info_data_eid, gid = vehicle_info_data_gid\<rparr>)))))))"

section \<open>State and messages\<close>

record vd_world = udp_channel +
  vd_activity_status :: ActivityStatusType
  broadcast_address :: string
  vehicle_info_collection :: "(u16 \<times> VehicleAddrInfoResponse) list"

definition new_VdConversation :: "string \<Rightarrow> VDConversationType \<Rightarrow> vd_world" where
  "new_VdConversation local_ip conversion_identifier =
     udp_channel.extend (new_UdpChannel local_ip)
       (vd_world.fields kInactive (conf_udp_broadcast_address conversion_identifier) [])"

definition SerializeVehicleInfoList :: "u8 \<Rightarrow> bytes \<Rightarrow> bytes" where
  "SerializeVehicleInfoList mode val =
     (let VehicleIdentificationHandler = 0 in [VehicleIdentificationHandler, mode] @ val)"

definition new_VdMessage :: "u8 \<Rightarrow> bytes \<Rightarrow> string \<Rightarrow> VdMessage" where
  "new_VdMessage mode val host_ip =
     \<lparr>vdm_host_ip_address = host_ip, vdm_payload = SerializeVehicleInfoList mode val\<rparr>"

definition empty_VdMessage :: VdMessage where
  "empty_VdMessage = \<lparr>vdm_host_ip_address = '''', vdm_payload = []\<rparr>"

definition vd_AddMetaInfo :: "string \<Rightarrow> VdMessage \<Rightarrow> VdMessage" where
  "vd_AddMetaInfo kRemoteIpAddress m = m\<lparr>vdm_host_ip_address := kRemoteIpAddress\<rparr>"

definition VdMessage_GetHostPortNumber :: u16 where
  "VdMessage_GetHostPortNumber = 13400"

text \<open>What the connection sees of the message: its addresses are zero.\<close>

definition vd_message_down :: "VdMessage \<Rightarrow> UdsMessage" where
  "vd_message_down m =
     \<lparr>uds_sa = 0, uds_ta = 0, uds_host_ip = vdm_host_ip_address m,
      uds_host_port = VdMessage_GetHostPortNumber, uds_payload = vdm_payload m\<rparr>"

section \<open>Reception\<close>

definition vd_IndicateMessage ::
    "u16 \<Rightarrow> u16 \<Rightarrow> nat \<Rightarrow> bytes \<Rightarrow> vd_world \<Rightarrow> (IndicationResult \<times> VdMessage option \<times> vd_world) run" where
  "vd_IndicateMessage sa ta sz payload_info w =
     (if payload_info \<noteq> [] then
        Inr (kIndicationOk,
             Some (empty_VdMessage\<lparr>vdm_payload := vector_resize sz (vdm_payload empty_VdMessage)\<rparr>), w)
      else Inr (kIndicationNOk, None, w))"

definition vd_message_copy :: "bytes \<Rightarrow> VdMessage \<Rightarrow> vd_world \<Rightarrow> (VdMessage \<times> vd_world) run" where
  "vd_message_copy p m w = bind_run (copy_to p (vdm_payload m)) (\<lambda>buf. Inr (m\<lparr>vdm_payload := buf\<rparr>, w))"

definition vd_HandleMessage :: "VdMessage option \<Rightarrow> vd_world \<Rightarrow> vd_world run" where
  "vd_HandleMessage message w =
     (case message of
        None \<Rightarrow> Inr w
      | Some m \<Rightarrow>
          bind_run (DeserializeVehicleInfoResponse m) (\<lambda>(address, info).
            Inr (w\<lparr>vehicle_info_collection := map_emplace address info (vehicle_info_collection w)\<rparr>)))"

definition VdConversationHandler :: "(VdMessage, vd_world) ConversionHandler" where
  "VdConversationHandler =
     \<lparr>IndicateMessage = vd_IndicateMessage, message_copy = vd_message_copy,
      HandleMessage = (\<lambda>m. vd_HandleMessage (Some m))\<rparr>"

definition vd_step :: "udp_event \<Rightarrow> vd_world \<Rightarrow> vd_world run" where
  "vd_step = udp_step VdConversationHandler vd_AddMetaInfo"

section \<open>Operations of the application\<close>

definition VdConversation_Startup :: "asio_udp \<Rightarrow> asio_udp \<Rightarrow> vd_world \<Rightarrow> vd_world run" where
  "VdConversation_Startup bc_io uc_io w =
     bind_run (DoipUdpConnection_Start bc_io uc_io w) (\<lambda>w'. Inr (w'\<lparr>vd_activity_status := kActive\<rparr>))"

definition VdConversation_Shutdown :: "asio_udp \<Rightarrow> asio_udp \<Rightarrow> vd_world \<Rightarrow> vd_world run" where
  "VdConversation_Shutdown bc_io uc_io w =
     (if vd_activity_status w = kActive
      then bind_run (DoipUdpConnection_Stop bc_io uc_io w) (\<lambda>w'. Inr (w'\<lparr>vd_activity_status := kInactive\<rparr>)) else Inr w)"

type_synonym vd_result = "(VehicleAddrInfoResponse list, VehicleInfoResponseError) Result"

definition VehicleInfoMessageImpl :: "(u16 \<times> VehicleAddrInfoResponse) list \<Rightarrow> VehicleAddrInfoResponse list" where
  "VehicleInfoMessageImpl collection = map snd collection"

definition VdConversation_SendVehicleIdentificationRequest ::
    "asio_udp \<Rightarrow> nat \<Rightarrow> udp_event list \<Rightarrow> udp_event list \<Rightarrow> (nat \<times> udp_event list) list \<Rightarrow>
     VehicleAddrInfoRequest \<Rightarrow> vd_world \<Rightarrow>
     (vd_result \<times> nat \<times> vd_world \<times> (nat \<times> udp_event list) list) call" where
  "VdConversation_SendVehicleIdentificationRequest io now win1 win2 evs vehicle_info_request w =
     (let result = FromError kTransmitFailed_VI in
      bind_call (call_of_run (DeserializeVehicleInfoRequest vehicle_info_request)) (\<lambda>(mode, val).
        if VerifyVehicleInfoRequest mode (word_of_nat (length val)) then
          bind_call
            (DoipUdpConnection_Transmit io vd_step now win1 win2 evs
               (vd_message_down (new_VdMessage mode val (broadcast_address w))) w)
            (\<lambda>(transmission_result, t, w', rest).
               if transmission_result \<noteq> kTransmitFailed then
                 (if vehicle_info_collection w' = []
                  then Returns (EmplaceError kNoResponseReceived result, t, w', rest)
                  else Returns (EmplaceValue (VehicleInfoMessageImpl (vehicle_info_collection w')) result, t,
                                w'\<lparr>vehicle_info_collection := []\<rparr>, rest))
               else Returns (result, t, w', rest))
        else Returns (EmplaceError kInvalidParameters result, now, w, evs)))"

definition GetDiagnosticServerList :: "vd_world \<Rightarrow> VehicleAddrInfoResponse list option" where
  "GetDiagnosticServerList w = None"

section \<open>Facts: the conversion of a response\<close>

text \<open>
  The text of a byte and of a sequence of bytes, and the entry a payload stands for: VIN, logical
  address, EID and GID at the offsets of a vehicle announcement.
\<close>

definition byte_text :: "u8 \<Rightarrow> string" where
  "byte_text b = [hex_digit (unat b div 16), hex_digit (unat b mod 16)]"

fun colon_text :: "bytes \<Rightarrow> string" where
  "colon_text [] = ''''"
| "colon_text [b] = byte_text b"
| "colon_text (b # c # bs) = byte_text b @ '':'' @ colon_text (c # bs)"

definition announced :: "string \<Rightarrow> bytes \<Rightarrow> u16 \<times> VehicleAddrInfoResponse" where
  "announced ip p =
     (u16_join (p ! 17) (p ! 18),
      \<lparr>ip_address = ip, logical_address = u16_join (p ! 17) (p ! 18),
       vin = map (\<lambda>b. char_of (unat b)) (take 17 p),
       eid = colon_text (take 6 (drop 19 p)), gid = colon_text (take 6 (drop 25 p))\<rparr>)"

lemma to_hex_byte:
  "(if unat (b :: u8) \<le> 15 then ''0'' else '''') @ to_hex (unat b) @ '':'' = byte_text b @ '':''"
proof -
  have "unat b < 2 ^ LENGTH(8)" by (rule unsigned_less)
  then have "unat b div 16 < 16" by simp
  then show ?thesis
    by (cases "unat b < 16") (simp_all add: byte_text_def to_hex.simps [of "unat b"] to_hex.simps [of "unat b div 16"] hex_digit_def)
qed

lemma colon_text_concat: "bs \<noteq> [] \<Longrightarrow> concat (map (\<lambda>b. byte_text b @ '':'') bs) = colon_text bs @ '':''"
  by (induction bs rule: colon_text.induct) simp_all

lemma ConvertToHexString_eq:
  assumes "unat st + unat n \<le> length p" and "0 < unat n" and "unat st + unat n < 256"
  shows "ConvertToHexString st n p = Inr (colon_text (take (unat n) (drop (unat st) p)))"
proof -
  have t: "unat (st + n) = unat st + unat n" using assms(3) by (simp add: unat_word_ariths)
  let ?bs = "take (unat n) (drop (unat st) p)"
  have "?bs \<noteq> []" using assms(1,2) by auto
  then have "concat (map (\<lambda>b. byte_text b @ '':'') ?bs) = colon_text ?bs @ '':''" by (rule colon_text_concat)
  with assms(1,2) show ?thesis
    by (simp only: ConvertToHexString_def Let_def to_hex_byte t map_run_vector_at) auto
qed

lemma ConvertToAsciiString_eq:
  assumes "unat st + unat n \<le> length p" and "unat st + unat n < 256"
  shows "ConvertToAsciiString st n p = Inr (map (\<lambda>b. char_of (unat b)) (take (unat n) (drop (unat st) p)))"
proof -
  have t: "unat (st + n) = unat st + unat n" using assms(2) by (simp add: unat_word_ariths)
  with assms(1) show ?thesis by (simp add: ConvertToAsciiString_def Let_def map_run_vector_at)
qed

lemma Convert_fault:
  assumes "length p < unat st + unat n" and "0 < unat n" and "unat st + unat n < 256"
  shows "ConvertToHexString st n p = Inl Vector_Out_Of_Bounds"
    and "ConvertToAsciiString st n p = Inl Vector_Out_Of_Bounds"
proof -
  have t: "unat (st + n) = unat st + unat n" using assms(3) by (simp add: unat_word_ariths)
  with assms show "ConvertToHexString st n p = Inl Vector_Out_Of_Bounds"
    and "ConvertToAsciiString st n p = Inl Vector_Out_Of_Bounds"
    by (simp_all add: ConvertToHexString_def ConvertToAsciiString_def Let_def map_run_vector_at_fault)
qed

lemma DeserializeVehicleInfoResponse_eq:
  "DeserializeVehicleInfoResponse m =
     (if 31 \<le> length (vdm_payload m) then Inr (announced (vdm_host_ip_address m) (vdm_payload m))
      else Inl Vector_Out_Of_Bounds)"
proof (cases "31 \<le> length (vdm_payload m)")
  case True
  then show ?thesis
    by (simp add: DeserializeVehicleInfoResponse_def Let_def ConvertToHexString_eq ConvertToAsciiString_eq
        vector_at_def announced_def)
next
  case False
  let ?p = "vdm_payload m"
  have g: "ConvertToHexString 25 6 ?p = Inl Vector_Out_Of_Bounds"
    using False by (simp add: Convert_fault)
  have e: "ConvertToHexString 19 6 ?p = Inl Vector_Out_Of_Bounds \<or> (\<exists>s. ConvertToHexString 19 6 ?p = Inr s)"
    by (cases "25 \<le> length ?p") (simp_all add: ConvertToHexString_eq Convert_fault)
  have v: "ConvertToAsciiString 0 17 ?p = Inl Vector_Out_Of_Bounds \<or> (\<exists>s. ConvertToAsciiString 0 17 ?p = Inr s)"
    by (cases "17 \<le> length ?p") (simp_all add: ConvertToAsciiString_eq Convert_fault)
  from g e v False show ?thesis by (auto simp: DeserializeVehicleInfoResponse_def Let_def)
qed

end
