(* ===== verification/Protocol_Handler.thy ===== *)
theory Protocol_Handler
  imports Doip_Udp_Connection Utility_Logger
begin

text \<open>
  Where connections come from: the DoIP transport protocol handler (\<open>doip_transport_protocol_handler.cpp\<close>) asks
  the connection manager (\<open>connection/connection_manager.cpp\<close>) for a connection, whose constructors build the
  clients and sockets. The local IP address is read on the way, by constructors that are \<open>noexcept\<close>.
\<close>

section \<open>Names\<close>

definition kDoipTcpConnectionName :: string where "kDoipTcpConnectionName = ''DTcpCntn_''"

definition kDoipUdpConnectionName :: string where "kDoipUdpConnectionName = ''DUdpCntn_''"

definition CreateConnectionName :: "string \<Rightarrow> u8 \<Rightarrow> string" where
  "CreateConnectionName connection_name connection_id = connection_name @ to_string (unat connection_id)"

record Connection =
  connection_id :: u8
  connection_name :: string

definition new_Connection :: "string \<Rightarrow> u8 \<Rightarrow> Connection" where
  "new_Connection name cid = \<lparr>connection_id = cid, connection_name = CreateConnectionName name cid\<rparr>"

definition GetConnectionId :: "Connection \<Rightarrow> u8" where
  "GetConnectionId c = connection_id c"

definition GetConnectionName :: "Connection \<Rightarrow> string" where
  "GetConnectionName c = connection_name c"

text \<open>The name the TCP client gives the thread of its connection.\<close>

definition tcp_AppendIpAddressAndPort :: "string \<Rightarrow> string \<Rightarrow> u16 \<Rightarrow> string" where
  "tcp_AppendIpAddressAndPort client_name ip_address port_num =
     client_name @ ''_'' @ ip_address @ ''_'' @ to_string (unat port_num)"

section \<open>Constructors\<close>

text \<open>\<open>make_address\<close> throws for a text that is no IP address.\<close>

definition new_TcpSocket :: "asio_io \<Rightarrow> string \<Rightarrow> u16 \<Rightarrow> (string \<times> u16) run" where
  "new_TcpSocket io local_ip_address local_port_num =
     bind_run (no_throw (asio_address io local_ip_address)) (\<lambda>_. Inr (local_ip_address, local_port_num))"

record TcpClientNames =
  client_name :: string
  client_endpoint :: "string \<times> u16"

definition new_TcpClient :: "asio_io \<Rightarrow> string \<Rightarrow> string \<Rightarrow> u16 \<Rightarrow> TcpClientNames run" where
  "new_TcpClient io name local_ip_address local_port_num =
     bind_run (new_TcpSocket io local_ip_address local_port_num) (\<lambda>endpoint.
       Inr \<lparr>client_name = tcp_AppendIpAddressAndPort name local_ip_address local_port_num, client_endpoint = endpoint\<rparr>)"

definition new_UdpClient :: "asio_udp \<Rightarrow> string \<Rightarrow> u16 \<Rightarrow> udp_socket run" where
  "new_UdpClient io local_ip_address local_port_num =
     bind_run (no_throw (udp_address io local_ip_address)) (\<lambda>_. Inr (new_UdpSocket local_ip_address))"

definition new_DoipTcpConnection :: "asio_io \<Rightarrow> string \<Rightarrow> u16 \<Rightarrow> (Connection \<times> TcpClientNames) run" where
  "new_DoipTcpConnection io tcp_ip_address port_num =
     (let c = new_Connection kDoipTcpConnectionName 1 in
      bind_run (new_TcpClient io (GetConnectionName c) tcp_ip_address port_num) (\<lambda>client. Inr (c, client)))"

text \<open>The connection for discovery has two clients, for broadcasts and for single entities.\<close>

definition new_DoipUdpConnection ::
    "asio_udp \<Rightarrow> asio_udp \<Rightarrow> string \<Rightarrow> u16 \<Rightarrow> (Connection \<times> udp_socket \<times> udp_socket) run" where
  "new_DoipUdpConnection bc_io uc_io udp_ip_address port_num =
     (let c = new_Connection kDoipUdpConnectionName 1 in
      bind_run (new_UdpClient bc_io udp_ip_address port_num) (\<lambda>bc.
      bind_run (new_UdpClient uc_io udp_ip_address port_num) (\<lambda>uc. Inr (c, bc, uc))))"

section \<open>Connection manager and transport protocol handler\<close>

definition ConnectionManager_CreateTcpConnection ::
    "asio_io \<Rightarrow> string \<Rightarrow> u16 \<Rightarrow> (Connection \<times> TcpClientNames) run" where
  "ConnectionManager_CreateTcpConnection io tcp_ip_address port_num = new_DoipTcpConnection io tcp_ip_address port_num"

definition ConnectionManager_CreateUdpConnection ::
    "asio_udp \<Rightarrow> asio_udp \<Rightarrow> string \<Rightarrow> u16 \<Rightarrow> (Connection \<times> udp_socket \<times> udp_socket) run" where
  "ConnectionManager_CreateUdpConnection bc_io uc_io udp_ip_address port_num =
     new_DoipUdpConnection bc_io uc_io udp_ip_address port_num"

record DoipTransportProtocolHandler =
  handler_id :: u8

definition new_DoipTransportProtocolHandler :: "u8 \<Rightarrow> DoipTransportProtocolHandler" where
  "new_DoipTransportProtocolHandler hid = \<lparr>handler_id = hid\<rparr>"

definition GetHandlerID :: "DoipTransportProtocolHandler \<Rightarrow> u8" where
  "GetHandlerID h = handler_id h"

definition DoipTransportProtocolHandler_Initialize ::
    "DoipTransportProtocolHandler \<Rightarrow> InitializationResult \<times> DoipTransportProtocolHandler" where
  "DoipTransportProtocolHandler_Initialize h = (kInitializeOk, h)"

definition DoipTransportProtocolHandler_Start :: "DoipTransportProtocolHandler \<Rightarrow> DoipTransportProtocolHandler" where
  "DoipTransportProtocolHandler_Start h = h"

definition DoipTransportProtocolHandler_Stop :: "DoipTransportProtocolHandler \<Rightarrow> DoipTransportProtocolHandler" where
  "DoipTransportProtocolHandler_Stop h = h"

definition DoipTransportProtocolHandler_CreateTcpConnection ::
    "asio_io \<Rightarrow> string \<Rightarrow> u16 \<Rightarrow> (Connection \<times> TcpClientNames) run" where
  "DoipTransportProtocolHandler_CreateTcpConnection io tcp_ip_address port_num =
     ConnectionManager_CreateTcpConnection io tcp_ip_address port_num"

definition DoipTransportProtocolHandler_CreateUdpConnection ::
    "asio_udp \<Rightarrow> asio_udp \<Rightarrow> string \<Rightarrow> u16 \<Rightarrow> (Connection \<times> udp_socket \<times> udp_socket) run" where
  "DoipTransportProtocolHandler_CreateUdpConnection bc_io uc_io udp_ip_address port_num =
     ConnectionManager_CreateUdpConnection bc_io uc_io udp_ip_address port_num"

lemmas connection_constructors = DoipTransportProtocolHandler_CreateTcpConnection_def
  DoipTransportProtocolHandler_CreateUdpConnection_def ConnectionManager_CreateTcpConnection_def
  ConnectionManager_CreateUdpConnection_def new_DoipTcpConnection_def new_DoipUdpConnection_def new_TcpClient_def
  new_UdpClient_def new_TcpSocket_def new_Connection_def GetConnectionName_def GetConnectionId_def

lemma to_string_one: "to_string (Suc 0) = ''1''"
  by (simp add: to_string.simps [of "Suc 0"] digit_def) code_simp

lemma CreateTcpConnection_eq:
  "DoipTransportProtocolHandler_CreateTcpConnection io ip port =
     (if asio_address io ip then
        Inr (\<lparr>connection_id = 1, connection_name = ''DTcpCntn_1''\<rparr>,
             \<lparr>client_name = ''DTcpCntn_1_'' @ ip @ ''_'' @ to_string (unat port), client_endpoint = (ip, port)\<rparr>)
      else Inl Uncaught_Exception)"
  by (cases "asio_address io ip")
    (simp_all add: connection_constructors CreateConnectionName_def kDoipTcpConnectionName_def
      tcp_AppendIpAddressAndPort_def to_string_one Let_def)

lemma CreateUdpConnection_eq:
  "DoipTransportProtocolHandler_CreateUdpConnection bc_io uc_io ip port =
     (if udp_address bc_io ip \<and> udp_address uc_io ip then
        Inr (\<lparr>connection_id = 1, connection_name = ''DUdpCntn_1''\<rparr>, new_UdpSocket ip, new_UdpSocket ip)
      else Inl Uncaught_Exception)"
  by (cases "udp_address bc_io ip"; cases "udp_address uc_io ip")
    (simp_all add: connection_constructors CreateConnectionName_def kDoipUdpConnectionName_def to_string_one Let_def)

text \<open>All connections have the identifier 1, and so all of a kind the same name.\<close>

lemma connections_share_their_name:
  assumes "DoipTransportProtocolHandler_CreateTcpConnection io1 ip1 port1 = Inr (c1, t1)"
    and "DoipTransportProtocolHandler_CreateTcpConnection io2 ip2 port2 = Inr (c2, t2)"
  shows "GetConnectionName c1 = GetConnectionName c2 \<and> GetConnectionId c1 = GetConnectionId c2"
  using assms by (auto simp: CreateTcpConnection_eq split: if_splits)

end
