(* ===== verification/Simulated_Vehicle.thy ===== *)
theory Simulated_Vehicle
  imports Span_Views Tls_Transport Vd_Conversation Protocol_Handler
begin

text \<open>
  The vehicle the component tests run the client against (\<open>src/test/component/common\<close>): its own parser of DoIP
  messages (\<open>message/doip_message.cpp\<close>), the handler of the TCP connection (\<open>handler/doip_tcp_handler.cpp\<close>) and
  the handler of the UDP sockets (\<open>handler/doip_udp_handler.cpp\<close>). What a mocked function is called with is the
  result of a handler; a failed expectation of the test is \<open>False\<close> in the list of expectations.
\<close>

section \<open>Bytes\<close>

definition sim_kDoipProtocolVersion :: u8 where [doip_consts]: "sim_kDoipProtocolVersion = 0x03"
definition sim_kDoipRoutingActivationReqType :: u16 where [doip_consts]: "sim_kDoipRoutingActivationReqType = 0x0005"
definition sim_kDoipRoutingActivationResType :: u16 where [doip_consts]: "sim_kDoipRoutingActivationResType = 0x0006"
definition sim_kDoipRoutingActivationResMinLen :: u32 where [doip_consts]: "sim_kDoipRoutingActivationResMinLen = 9"
definition sim_kDoipDiagMessage :: u16 where [doip_consts]: "sim_kDoipDiagMessage = 0x8001"
definition sim_kDoipDiagMessagePosAck :: u16 where [doip_consts]: "sim_kDoipDiagMessagePosAck = 0x8002"
definition sim_kDoipDiagMessageNegAck :: u16 where [doip_consts]: "sim_kDoipDiagMessageNegAck = 0x8003"
definition sim_kDoipDiagMessageReqResMinLen :: u8 where [doip_consts]: "sim_kDoipDiagMessageReqResMinLen = 4"
definition sim_kDoipDiagMessageAckResMinLen :: u8 where [doip_consts]: "sim_kDoipDiagMessageAckResMinLen = 5"
definition sim_kDoip_VehicleIdentification_ReqType :: u16 where
  [doip_consts]: "sim_kDoip_VehicleIdentification_ReqType = 0x0001"
definition sim_kDoip_VehicleIdentificationEID_ReqType :: u16 where
  [doip_consts]: "sim_kDoip_VehicleIdentificationEID_ReqType = 0x0002"
definition sim_kDoip_VehicleIdentificationVIN_ReqType :: u16 where
  [doip_consts]: "sim_kDoip_VehicleIdentificationVIN_ReqType = 0x0003"
definition sim_kDoip_VehicleAnnouncement_ResType :: u16 where
  [doip_consts]: "sim_kDoip_VehicleAnnouncement_ResType = 0x0004"

text \<open>Both handlers have a copy of this function.\<close>

definition sim_CreateDoipGenericHeader :: "u16 \<Rightarrow> u32 \<Rightarrow> bytes" where
  "sim_CreateDoipGenericHeader ty len =
     [sim_kDoipProtocolVersion,
      NOT sim_kDoipProtocolVersion,
      u16_hi ty, u16_lo ty,
      u32_b3 len, u32_b2 len, u32_b1 len, u32_b0 len]"

text \<open>An element of a span, read through the reference to it; \<open>arr\<close> is the vector the span is a view of.\<close>

definition view_read :: "'a list \<Rightarrow> span_view \<Rightarrow> size_t \<Rightarrow> 'a run" where
  "view_read arr v i = bind_run (view_at v i) (deref arr)"

definition sim_ConvertToAddr :: "bytes \<Rightarrow> span_view \<Rightarrow> u16 run" where
  "sim_ConvertToAddr arr p =
     bind_run (view_read arr p 0) (\<lambda>b0. bind_run (view_read arr p 1) (\<lambda>b1. Inr (u16_join b0 b1)))"

definition sim_GetVmSpecific :: "bytes \<Rightarrow> span_view \<Rightarrow> u32 run" where
  "sim_GetVmSpecific arr p =
     bind_run (view_read arr p 7) (\<lambda>b7. bind_run (view_read arr p 8) (\<lambda>b8.
     bind_run (view_read arr p 9) (\<lambda>b9. bind_run (view_read arr p 10) (\<lambda>b10. Inr (u32_join b7 b8 b9 b10)))))"

section \<open>Messages\<close>

record sim_DoipMessage =
  sim_host_ip_address :: string
  sim_host_port_number :: u16
  sim_protocol_version :: u8
  sim_protocol_version_inv :: u8
  sim_payload_type :: u16
  sim_payload_length :: u32
  sim_payload :: span_view

definition sim_GetDoIPPayloadType :: "bytes \<Rightarrow> span_view \<Rightarrow> u16 run" where
  "sim_GetDoIPPayloadType arr p =
     bind_run (view_read arr p 2) (\<lambda>b2. bind_run (view_read arr p 3) (\<lambda>b3. Inr (u16_join b2 b3)))"

definition sim_GetDoIPPayloadLength :: "bytes \<Rightarrow> span_view \<Rightarrow> u32 run" where
  "sim_GetDoIPPayloadLength arr p =
     bind_run (view_read arr p 4) (\<lambda>b4. bind_run (view_read arr p 5) (\<lambda>b5.
     bind_run (view_read arr p 6) (\<lambda>b6. bind_run (view_read arr p 7) (\<lambda>b7. Inr (u32_join b4 b5 b6 b7)))))"

text \<open>The span of the payload has the length the header states, whatever the vector holds.\<close>

definition new_sim_DoipMessage :: "string \<Rightarrow> u16 \<Rightarrow> bytes \<Rightarrow> span_view \<Rightarrow> sim_DoipMessage run" where
  "new_sim_DoipMessage ip port arr p =
     bind_run (view_read arr p 0) (\<lambda>version.
     bind_run (view_read arr p 1) (\<lambda>version_inv.
     bind_run (sim_GetDoIPPayloadType arr p) (\<lambda>ty.
     bind_run (sim_GetDoIPPayloadLength arr p) (\<lambda>len.
     bind_run (if len \<noteq> 0 then bind_run (view_at p 8) (\<lambda>start. new_Span dynamic_extent start (ucast len))
               else Inr (empty_span dynamic_extent)) (\<lambda>rest.
     Inr \<lparr>sim_host_ip_address = ip, sim_host_port_number = port, sim_protocol_version = version,
          sim_protocol_version_inv = version_inv, sim_payload_type = ty, sim_payload_length = len,
          sim_payload = rest\<rparr>)))))"

section \<open>The TCP connection\<close>

datatype vehicle_call =
    RoutingActivationRequest u16 u8 "u8 option"
  | DiagnosticRequest u16 u16 bytes

text \<open>
  The manufacturer specific data has 32 bits and is stored in an optional byte. The span of the request is read
  by the mocked function.
\<close>

definition sim_ProcessReceivedTcpMessage :: "tcp_message \<Rightarrow> (bool list \<times> vehicle_call option) run" where
  "sim_ProcessReceivedTcpMessage tcp_message =
     (case tcp_message of (ip, port, arr) \<Rightarrow>
      bind_run (new_sim_DoipMessage ip port arr (span_of_container arr)) (\<lambda>m.
      let p = sim_payload m in
      if sim_payload_type m = sim_kDoipRoutingActivationReqType then
        bind_run (sim_ConvertToAddr arr p) (\<lambda>client_source_address.
        bind_run (view_read arr p 2) (\<lambda>activation_type.
        bind_run (map_run (\<lambda>i. bind_run (view_read arr p i) (\<lambda>b. Inr (b = 0))) [3, 4, 5, 6]) (\<lambda>expectations.
        bind_run (if view_size p > 7 then bind_run (sim_GetVmSpecific arr p) (\<lambda>vm. Inr (Some (ucast vm))) else Inr None)
          (\<lambda>vm_specific.
        Inr (expectations, Some (RoutingActivationRequest client_source_address activation_type vm_specific))))))
      else if sim_payload_type m = sim_kDoipDiagMessage then
        bind_run (sim_ConvertToAddr arr p) (\<lambda>client_source_address.
        bind_run (view_at p 2) (\<lambda>target. bind_run (new_Span dynamic_extent target 2) (\<lambda>ta.
        bind_run (sim_ConvertToAddr arr ta) (\<lambda>server_target_address.
        bind_run (view_at p 4) (\<lambda>data. bind_run (new_Span dynamic_extent data (view_size p - 4)) (\<lambda>diag_request.
        bind_run (view_elements arr diag_request) (\<lambda>request.
        Inr ([], Some (DiagnosticRequest client_source_address server_target_address request)))))))))
      else Inr ([], None)))"

text \<open>The messages the vehicle answers with; they have no address of their own. The manufacturer specific data is not sent.\<close>

definition ComposeRoutingActivationResponse :: "u16 \<Rightarrow> u16 \<Rightarrow> u8 \<Rightarrow> u32 option \<Rightarrow> tcp_message" where
  "ComposeRoutingActivationResponse client_logical_address server_logical_address activation_response_code vm_specific =
     ('''', 0,
      sim_CreateDoipGenericHeader sim_kDoipRoutingActivationResType sim_kDoipRoutingActivationResMinLen @
      [u16_hi client_logical_address, u16_lo client_logical_address] @
      [u16_hi server_logical_address, u16_lo server_logical_address] @
      [activation_response_code] @ [0x00, 0x00, 0x00, 0x00])"

definition ComposeDiagnosticPositiveAcknowledgementMessage :: "u16 \<Rightarrow> u16 \<Rightarrow> u8 \<Rightarrow> tcp_message" where
  "ComposeDiagnosticPositiveAcknowledgementMessage src_address dst_address ack_code =
     ('''', 0,
      sim_CreateDoipGenericHeader sim_kDoipDiagMessagePosAck (ucast sim_kDoipDiagMessageAckResMinLen) @
      [u16_hi src_address, u16_lo src_address] @ [u16_hi dst_address, u16_lo dst_address] @ [ack_code])"

definition ComposeDiagnosticNegativeAcknowledgementMessage :: "u16 \<Rightarrow> u16 \<Rightarrow> u8 \<Rightarrow> tcp_message" where
  "ComposeDiagnosticNegativeAcknowledgementMessage src_address dst_address ack_code =
     ('''', 0,
      sim_CreateDoipGenericHeader sim_kDoipDiagMessageNegAck (ucast sim_kDoipDiagMessageAckResMinLen) @
      [u16_hi src_address, u16_lo src_address] @ [u16_hi dst_address, u16_lo dst_address] @ [ack_code])"

text \<open>The vector grows at an iterator within it.\<close>

definition insert_at :: "nat \<Rightarrow> 'a list \<Rightarrow> 'a list \<Rightarrow> 'a list run" where
  "insert_at n ys xs = (if n \<le> length xs then Inr (take n xs @ ys @ drop n xs) else Inl Vector_Out_Of_Bounds)"

definition ComposeDiagnosticResponseMessage :: "u16 \<Rightarrow> u16 \<Rightarrow> bytes \<Rightarrow> (bool list \<times> tcp_message) run" where
  "ComposeDiagnosticResponseMessage src_address dst_address diag_response =
     (let response_buffer =
            sim_CreateDoipGenericHeader sim_kDoipDiagMessage
              (word_of_nat (unat sim_kDoipDiagMessageReqResMinLen + length diag_response)) @
            [u16_hi src_address, u16_lo src_address] @ [u16_hi dst_address, u16_lo dst_address] in
      bind_run (insert_at (8 + 4) diag_response response_buffer) (\<lambda>response_buffer'.
        Inr ([1 < length diag_response], ('''', 0, response_buffer'))))"

text \<open>The handler owns the server of the connection, whose read handler it is.\<close>

definition DoipTcpHandler_Initialize :: "tcp_server \<Rightarrow> tcp_server" where
  "DoipTcpHandler_Initialize s = TcpServer_Initialize s"

definition DoipTcpHandler_DeInitialize :: "('e, 'f) Result run \<Rightarrow> tcp_server \<Rightarrow> tcp_server run" where
  "DoipTcpHandler_DeInitialize socket_close s = TcpServer_DeInitialize socket_close s"

definition SendTcpMessage ::
    "(bytes \<Rightarrow> (unit, 'e) Result run) \<Rightarrow> tcp_message \<Rightarrow> tcp_server \<Rightarrow> (bool \<times> tcp_server) run" where
  "SendTcpMessage socket_transmit m s =
     (case m of (ip, port, frame) \<Rightarrow>
        bind_run (TcpServer_Transmit socket_transmit frame s) (\<lambda>(r, s'). Inr (HasValue r, s')))"

section \<open>Text\<close>

text \<open>
  The start of every substring these loops take. The counter is a byte, and so is the length it is compared
  with: a step over the largest byte starts again at zero, and then the loop does not end.
\<close>

partial_function (option) sim_starts :: "u8 \<Rightarrow> u8 \<Rightarrow> u8 \<Rightarrow> nat list option" where
  "sim_starts char_count string_length substring_range =
     (if char_count < string_length then
        Option.bind (sim_starts (char_count + substring_range) string_length substring_range)
          (\<lambda>starts. Some (unat char_count # starts))
      else Some [])"

definition sim_substrings :: "(string \<Rightarrow> 'a) \<Rightarrow> string \<Rightarrow> u8 \<Rightarrow> 'a list call" where
  "sim_substrings f input_string substring_range =
     (case sim_starts 0 (word_of_nat (length input_string)) substring_range of
        None \<Rightarrow> Blocks
      | Some starts \<Rightarrow>
          call_of_run
            (map_run (\<lambda>c. bind_run (str_substr input_string c (unat substring_range)) (\<lambda>t. Inr (f t))) starts))"

text \<open>\<open>get\<close> yields the first character; \<open>>> std::hex\<close> leaves the zero the variable has if there is nothing to read.\<close>

definition sim_SerializeToByteVectorFromString :: "string \<Rightarrow> u8 \<Rightarrow> bytes call" where
  "sim_SerializeToByteVectorFromString input_string substring_range =
     sim_substrings (\<lambda>t. word_of_int (case t of [] \<Rightarrow> -1 | c # cs \<Rightarrow> int (of_char c))) input_string substring_range"

definition sim_SerializeToHexVectorFromString :: "string \<Rightarrow> u8 \<Rightarrow> bytes call" where
  "sim_SerializeToHexVectorFromString input_string substring_range =
     sim_substrings (\<lambda>t. word_of_int (case read_hex_int t of None \<Rightarrow> 0 | Some n \<Rightarrow> n)) input_string substring_range"

definition RemoveCharFromString :: "string \<Rightarrow> char \<Rightarrow> string" where
  "RemoveCharFromString input_string removal_type = filter (\<lambda>c. c \<noteq> removal_type) input_string"

definition AddCharToString :: "string \<Rightarrow> char \<Rightarrow> u8 \<Rightarrow> string call" where
  "AddCharToString input_string character substring_range =
     bind_call (sim_substrings (\<lambda>t. t @ [character]) input_string substring_range) (\<lambda>parts.
       let result = concat parts in if result = [] then Crashes Vector_Out_Of_Bounds else Returns (butlast result))"

definition sim_ConvertToAsciiString :: "bytes \<Rightarrow> span_view \<Rightarrow> string run" where
  "sim_ConvertToAsciiString arr container =
     bind_run (view_elements arr container) (\<lambda>bs. Inr (map (\<lambda>b. char_of (unat b)) bs))"

definition sim_ConvertToHexString :: "bytes \<Rightarrow> span_view \<Rightarrow> string run" where
  "sim_ConvertToHexString arr container =
     bind_run (view_elements arr container) (\<lambda>bs.
       Inr (concat (map (\<lambda>b. let t = to_hex (unat b) in replicate (2 - length t) CHR ''0'' @ t) bs)))"

section \<open>The UDP sockets\<close>

datatype identification_call = VehicleIdentificationRequest string u16 string string

definition sim_ProcessReceivedUdpMessage :: "udp_message \<Rightarrow> identification_call option call" where
  "sim_ProcessReceivedUdpMessage udp_message =
     (case udp_message of (ip, port, arr) \<Rightarrow>
      bind_call (call_of_run (new_sim_DoipMessage ip port arr (span_of_container arr))) (\<lambda>m.
      let ty = sim_payload_type m in
      if ty = sim_kDoip_VehicleIdentification_ReqType then
        Returns (Some (VehicleIdentificationRequest (sim_host_ip_address m) (sim_host_port_number m) '''' ''''))
      else if ty = sim_kDoip_VehicleIdentificationEID_ReqType then
        bind_call (call_of_run (sim_ConvertToHexString arr (sim_payload m))) (\<lambda>t.
        bind_call (AddCharToString t CHR '':'' 2) (\<lambda>e.
        Returns (Some (VehicleIdentificationRequest (sim_host_ip_address m) (sim_host_port_number m) e ''''))))
      else if ty = sim_kDoip_VehicleIdentificationVIN_ReqType then
        bind_call (call_of_run (sim_ConvertToAsciiString arr (sim_payload m))) (\<lambda>v.
        Returns (Some (VehicleIdentificationRequest (sim_host_ip_address m) (sim_host_port_number m) '''' v)))
      else Returns None))"

text \<open>The length in the header is that of an announcement without the synchronisation status.\<close>

definition ComposeVehicleIdentificationResponse ::
    "string \<Rightarrow> u16 \<Rightarrow> string \<Rightarrow> u16 \<Rightarrow> string \<Rightarrow> string \<Rightarrow> u8 \<Rightarrow> u8 option \<Rightarrow> udp_message call" where
  "ComposeVehicleIdentificationResponse remote_ip_address remote_port_number v address e g action_byte sync_status =
     (let response_buffer = sim_CreateDoipGenericHeader sim_kDoip_VehicleAnnouncement_ResType 32 in
      bind_call (sim_SerializeToByteVectorFromString v 1) (\<lambda>vin_in_bytes.
      bind_call (call_of_run (insert_at 8 vin_in_bytes response_buffer)) (\<lambda>b1.
      let b2 = b1 @ [u16_hi address, u16_lo address] in
      bind_call (sim_SerializeToHexVectorFromString (RemoveCharFromString e CHR '':'') 2) (\<lambda>eid_in_bytes.
      bind_call (call_of_run (insert_at (8 + 19) eid_in_bytes b2)) (\<lambda>b3.
      bind_call (sim_SerializeToHexVectorFromString (RemoveCharFromString g CHR '':'') 2) (\<lambda>gid_in_bytes.
      bind_call (call_of_run (insert_at (8 + 25) gid_in_bytes b3)) (\<lambda>b4.
      let b5 = b4 @ [action_byte] in
      Returns (remote_ip_address, remote_port_number,
        case sync_status of Some s \<Rightarrow> b5 @ [s] | None \<Rightarrow> b5))))))))"

record DoipUdpHandler =
  udp_broadcast_server :: udp_socket
  udp_unicast_server :: udp_socket

definition new_DoipUdpHandler :: "asio_udp \<Rightarrow> asio_udp \<Rightarrow> string \<Rightarrow> string \<Rightarrow> u16 \<Rightarrow> DoipUdpHandler run" where
  "new_DoipUdpHandler bc_io uc_io broadcast_ip_address unicast_ip_address local_port_number =
     bind_run (new_UdpClient bc_io broadcast_ip_address local_port_number) (\<lambda>bc.
     bind_run (new_UdpClient uc_io unicast_ip_address local_port_number) (\<lambda>uc.
     Inr \<lparr>udp_broadcast_server = bc, udp_unicast_server = uc\<rparr>))"

definition DoipUdpHandler_Initialize :: "asio_udp \<Rightarrow> asio_udp \<Rightarrow> DoipUdpHandler \<Rightarrow> DoipUdpHandler run" where
  "DoipUdpHandler_Initialize bc_io uc_io h =
     bind_run (UdpClient_Initialize bc_io (udp_broadcast_server h)) (\<lambda>bc.
     bind_run (UdpClient_Initialize uc_io (udp_unicast_server h)) (\<lambda>uc.
     Inr \<lparr>udp_broadcast_server = bc, udp_unicast_server = uc\<rparr>))"

definition DoipUdpHandler_DeInitialize :: "asio_udp \<Rightarrow> asio_udp \<Rightarrow> DoipUdpHandler \<Rightarrow> DoipUdpHandler run" where
  "DoipUdpHandler_DeInitialize bc_io uc_io h =
     bind_run (UdpClient_DeInitialize bc_io (udp_broadcast_server h)) (\<lambda>bc.
     bind_run (UdpClient_DeInitialize uc_io (udp_unicast_server h)) (\<lambda>uc.
     Inr \<lparr>udp_broadcast_server = bc, udp_unicast_server = uc\<rparr>))"

definition SendUdpMessage :: "asio_udp \<Rightarrow> udp_message \<Rightarrow> DoipUdpHandler \<Rightarrow> (bool \<times> DoipUdpHandler) run" where
  "SendUdpMessage io m h =
     bind_run (UdpClient_Transmit io m (udp_unicast_server h)) (\<lambda>(r, uc).
       Inr (HasValue r, h\<lparr>udp_unicast_server := uc\<rparr>))"

end
