(* ===== verification/Vd_Correct.thy ===== *)
theory Vd_Correct
  imports Vd_Conversation
begin

text \<open>
  The vehicle discovery conversation on top of its channel: the contract of the channel is
  discharged, reception is put into one equation, and the identification request is followed from
  the call to the list of responses.
\<close>

section \<open>The conversation keeps to the contract of the channel\<close>

definition vd_valid :: "VdMessage \<Rightarrow> nat \<Rightarrow> vd_world \<Rightarrow> bool" where
  "vd_valid m n w \<longleftrightarrow> length (vdm_payload m) = n"

lemma vd_handler_calls [simp]:
  "IndicateMessage VdConversationHandler = vd_IndicateMessage"
  "message_copy VdConversationHandler = vd_message_copy"
  "HandleMessage VdConversationHandler = (\<lambda>m. vd_HandleMessage (Some m))"
  by (simp_all add: VdConversationHandler_def)

lemma vd_truncate_collection [simp]:
  "udp_channel.truncate (w\<lparr>vehicle_info_collection := c\<rparr>) = udp_channel.truncate w"
  by (simp add: udp_channel.defs)

interpretation vd_chan: udp_conversation VdConversationHandler vd_valid vd_AddMetaInfo
  by unfold_locales
     (auto simp: vd_IndicateMessage_def vd_message_copy_def vd_HandleMessage_def vd_valid_def vd_AddMetaInfo_def
       bind_run_Inr_iff copy_to_def split: if_splits)

lemmas vd_step_ok = vd_chan.udp_step_ok [folded vd_step_def]
  and vd_deliver_ok = vd_chan.deliver_all_ok [folded vd_step_def]
  and vd_request_cases = vd_chan.identification_request_cases [folded vd_step_def]

section \<open>Reception\<close>

text \<open>A datagram that the header check lets through, in terms of its bytes.\<close>

definition announcement_frame :: "bytes \<Rightarrow> bool" where
  "announcement_frame p \<longleftrightarrow>
     (p ! 0, p ! 1) \<in> {(0x03, 0xFC), (0xFF, 0x00)} \<and> u16_join (p ! 2) (p ! 3) = 0x0004 \<and>
     u32_join (p ! 4) (p ! 5) (p ! 6) (p ! 7) \<le> 33"

lemma announcement_frame_iff:
  assumes "new_DoipMessage kUdp ip port p = Inr m"
  shows "is_announcement m \<longleftrightarrow> announcement_frame p"
    and "payload m = drop 8 p" and "host_ip_address m = ip"
proof -
  have "9 \<le> length p" using new_DoipMessage_udp_payload [OF assms] by simp
  obtain b0 b1 b2 b3 b4 b5 b6 b7 x xs where p: "p = b0 # b1 # b2 # b3 # b4 # b5 # b6 # b7 # x # xs"
    using udp_frame_split [OF \<open>9 \<le> length p\<close>] by blast
  with assms show "is_announcement m \<longleftrightarrow> announcement_frame p" "payload m = drop 8 p" "host_ip_address m = ip"
    by (auto simp: codec_simps is_announcement_def announcement_frame_def numeral_eq_Suc)
qed

definition collect :: "string \<Rightarrow> bytes \<Rightarrow> vd_world \<Rightarrow> vd_world" where
  "collect ip p w =
     (case announced ip (drop 8 p) of (address, info) \<Rightarrow>
        w\<lparr>vehicle_info_collection := map_emplace address info (vehicle_info_collection w)\<rparr>)"

text \<open>
  What a datagram that reached a read handler does: it must have nine bytes; an announcement that
  arrives while a request is waiting must have thirty-nine.
\<close>

lemma vd_response_eq:
  assumes "payload m \<noteq> []"
  shows "ProcessVehicleIdentificationResponse VdConversationHandler vd_AddMetaInfo m w =
    (if vi_in vi_kWaitForVehicleIdentificationRes w then
       bind_run (DeserializeVehicleInfoResponse \<lparr>vdm_host_ip_address = host_ip_address m, vdm_payload = payload m\<rparr>)
         (\<lambda>(address, info).
            Inr (w\<lparr>vehicle_info_collection := map_emplace address info (vehicle_info_collection w)\<rparr>))
     else Inr w)"
  using assms
  by (simp add: ProcessVehicleIdentificationResponse_def vd_IndicateMessage_def vd_message_copy_def
      vd_HandleMessage_def vd_AddMetaInfo_def empty_VdMessage_def)

lemma vd_unicast_eq:
  "HandleMessageUnicast VdConversationHandler vd_AddMetaInfo (ip, port, p) w =
     (if length p < 9 then Inl Span_Abort
      else if announcement_frame p \<and> vi_in vi_kWaitForVehicleIdentificationRes w then
        (if length p < 39 then Inl Vector_Out_Of_Bounds else Inr (collect ip p w))
      else Inr w)"
proof (cases "length p < 9")
  case True
  then show ?thesis by (simp add: HandleMessageUnicast_eq new_DoipMessage_udp_fault)
next
  case False
  then obtain m where m: "new_DoipMessage kUdp ip port p = Inr m"
    using new_DoipMessage_udp_total [of p ip port] by auto
  note f = announcement_frame_iff [OF m]
  have "payload m \<noteq> []" using False f by simp
  note r = vd_response_eq [OF this]
  show ?thesis
    using False by (auto simp: HandleMessageUnicast_eq m f r DeserializeVehicleInfoResponse_eq collect_def split: prod.splits)
qed

lemma collect_fields [simp]:
  "udp_channel.truncate (collect ip p w) = udp_channel.truncate w"
  "uc_socket (collect ip p w) = uc_socket w" "vi_in s (collect ip p w) = vi_in s w"
  "vi_timer (collect ip p w) = vi_timer w" "udp_sent (collect ip p w) = udp_sent w"
  "udp_chan_ok (collect ip p w) = udp_chan_ok w"
  "vd_activity_status (collect ip p w) = vd_activity_status w" "broadcast_address (collect ip p w) = broadcast_address w"
  by (simp_all add: collect_def vi_in_def udp_chan_ok_def vi_known_def split: prod.splits)

lemma collect_collection [simp]:
  "vehicle_info_collection (collect ip p w) =
     map_emplace (fst (announced ip (drop 8 p))) (snd (announced ip (drop 8 p))) (vehicle_info_collection w)"
  by (simp add: collect_def split: prod.splits)

text \<open>Only the first thirty-one bytes of the payload matter, so the cut at forty bytes does no harm.\<close>

lemma announced_take: "31 \<le> n \<Longrightarrow> announced ip (take n p) = announced ip p"
  by (simp add: announced_def drop_take min_def)

lemma announcement_frame_take: "8 \<le> n \<Longrightarrow> announcement_frame (take n p) = announcement_frame p"
  by (simp add: announcement_frame_def)

lemma collect_take: "39 \<le> n \<Longrightarrow> collect ip (take n p) w = collect ip p w"
  by (simp add: collect_def drop_take announced_take)

section \<open>Responses that are handled as they come\<close>

text \<open>
  A response whose handler runs before the next datagram is received; what it leaves of the socket.
\<close>

definition prompt :: "string \<times> u16 \<times> bytes \<Rightarrow> udp_event list" where
  "prompt r = (case r of (ip, port, dg) \<Rightarrow> [Datagram kUnicast ip port dg, Completion kUnicast])"

definition proper_response :: "vd_world \<Rightarrow> string \<times> u16 \<times> bytes \<Rightarrow> bool" where
  "proper_response w r \<longleftrightarrow>
     (case r of (ip, port, dg) \<Rightarrow> announcement_frame dg \<and> 39 \<le> length dg \<and> ip \<noteq> local_address (uc_socket w))"

definition ready :: "vd_world \<Rightarrow> bool" where
  "ready w \<longleftrightarrow> udp_chan_ok w \<and> completions (uc_socket w) = [] \<and> 0 < outstanding (uc_socket w)"

text \<open>What the responses \<open>rs\<close> add to the collection.\<close>

definition entry :: "string \<times> u16 \<times> bytes \<Rightarrow> u16 \<times> VehicleAddrInfoResponse" where
  "entry r = (case r of (ip, port, dg) \<Rightarrow> announced ip (drop 8 dg))"

definition same_but_collection :: "vd_world \<Rightarrow> vd_world \<Rightarrow> bool" where
  "same_but_collection w' w \<longleftrightarrow>
     local_address (uc_socket w') = local_address (uc_socket w) \<and>
     outstanding (uc_socket w') = outstanding (uc_socket w) \<and>
     vi_timer w' = vi_timer w \<and> udp_sent w' = udp_sent w \<and> (\<forall>s. vi_in s w' = vi_in s w)"

lemma same_but_collection_refl [simp]: "same_but_collection w w"
  by (simp add: same_but_collection_def)

lemma same_but_collection_trans:
  "same_but_collection w'' w' \<Longrightarrow> same_but_collection w' w \<Longrightarrow> same_but_collection w'' w"
  by (simp add: same_but_collection_def)

lemma prompt_delivered:
  assumes "ready w" and "vi_in vi_kWaitForVehicleIdentificationRes w" and "proper_response w r"
  shows "\<exists>w'. deliver_all vd_step (prompt r) w = Inr w' \<and> ready w' \<and> same_but_collection w' w \<and>
    vehicle_info_collection w' = std_map.emplace_all [entry r] (vehicle_info_collection w)"
proof -
  obtain ip port dg where r: "r = (ip, port, dg)" by (cases r)
  from assms have u: "udp_ok (uc_socket w)" "completions (uc_socket w) = []" "0 < outstanding (uc_socket w)"
    "ip \<noteq> local_address (uc_socket w)"
    by (simp_all add: ready_def proper_response_def r udp_chan_ok_def)
  from datagram_then_handler [OF this] obtain s where
    s: "receive_completes (datagram_arrives ip port dg (uc_socket w)) = Inr (Some (ip, port, take 40 dg), s)"
      "udp_ok s" "completions s = []" "outstanding s = outstanding (uc_socket w)"
      "local_address s = local_address (uc_socket w)" by blast
  let ?v = "w\<lparr>uc_socket := s\<rparr>"
  have v: "vi_in t ?v = vi_in t w" "udp_chan_ok ?v" for t
    using assms s by (simp_all add: vi_in_def ready_def)
  have "vd_step (Completion kUnicast) (w\<lparr>uc_socket := datagram_arrives ip port dg (uc_socket w)\<rparr>)
      = Inr (collect ip dg ?v)"
    using assms s(1) v
    by (simp add: vd_step_def socket_of_def set_socket_def udp_receive_def vd_unicast_eq r proper_response_def
        announcement_frame_take collect_take min_def)
  then have "deliver_all vd_step (prompt r) w = Inr (collect ip dg ?v)"
    by (simp add: r prompt_def vd_step_def socket_of_def set_socket_def)
  moreover have "ready (collect ip dg ?v)" using s v assms(1) by (simp add: ready_def)
  moreover have "same_but_collection (collect ip dg ?v) w" using s v by (simp add: same_but_collection_def)
  ultimately show ?thesis
    by (auto simp: r entry_def std_map.emplace_all_def split: prod.splits)
qed

lemma prompts_delivered:
  assumes "ready w" and "vi_in vi_kWaitForVehicleIdentificationRes w" and "\<forall>r \<in> set rs. proper_response w r"
  shows "\<exists>w'. deliver_all vd_step (concat (map prompt rs)) w = Inr w' \<and> ready w' \<and> same_but_collection w' w \<and>
    vehicle_info_collection w' = std_map.emplace_all (map entry rs) (vehicle_info_collection w)"
  using assms
proof (induction rs arbitrary: w)
  case (Cons r rs)
  then obtain v where v: "deliver_all vd_step (prompt r) w = Inr v" "ready v" "same_but_collection v w"
    "vehicle_info_collection v = std_map.emplace_all [entry r] (vehicle_info_collection w)"
    using prompt_delivered [of w r] by auto
  moreover from v Cons.prems have "vi_in vi_kWaitForVehicleIdentificationRes v" "\<forall>r \<in> set rs. proper_response v r"
    by (simp_all add: same_but_collection_def proper_response_def)
  ultimately obtain w' where "deliver_all vd_step (concat (map prompt rs)) v = Inr w'" "ready w'"
    "same_but_collection w' v"
    "vehicle_info_collection w' = std_map.emplace_all (map entry rs) (vehicle_info_collection v)"
    using Cons.IH [of v] by blast
  with v show ?case
    by (auto simp: deliver_all_append std_map.emplace_all_def split: prod.splits intro: same_but_collection_trans)
qed simp

text \<open>The wait over batches of such responses, up to the first clock reading past the window.\<close>

lemma wait_collects:
  assumes "ready w" and "vi_in vi_kWaitForVehicleIdentificationRes w" and "start_running (vi_timer w)"
    and "\<forall>(t, rs) \<in> set trs. t < expiry \<and> (\<forall>r \<in> set rs. proper_response w r)"
    and "now < expiry" and "expiry \<le> t_end"
  shows "\<exists>w'. wait_until vi_timer vd_step expiry now w
        (map (\<lambda>(t, rs). (t, concat (map prompt rs))) trs @ (t_end, []) # rest) = Returns (kTimeout, t_end, w', rest) \<and>
      ready w' \<and> same_but_collection w' w \<and>
      vehicle_info_collection w' = std_map.emplace_all (map entry (concat (map snd trs))) (vehicle_info_collection w)"
  using assms
proof (induction trs arbitrary: w now)
  case Nil
  have "\<not> exit_request (vi_timer w)" using Nil.prems(1) by (simp add: ready_def udp_chan_ok_def)
  with Nil.prems show ?case
    by (cases rest) (auto simp: wait_predicate_def)
next
  case (Cons b trs)
  obtain t rs where b: "b = (t, rs)" by (cases b)
  have ex: "\<not> exit_request (vi_timer w)" using Cons.prems(1) by (simp add: ready_def udp_chan_ok_def)
  from Cons.prems b have "\<forall>r \<in> set rs. proper_response w r" by auto
  with Cons.prems(1,2) obtain v where v: "deliver_all vd_step (concat (map prompt rs)) w = Inr v" "ready v"
    "same_but_collection v w" "vehicle_info_collection v = std_map.emplace_all (map entry rs) (vehicle_info_collection w)"
    using prompts_delivered [of w rs] by blast
  from v Cons.prems b have "vi_in vi_kWaitForVehicleIdentificationRes v" "start_running (vi_timer v)" "t < expiry"
    "\<forall>(t, rs) \<in> set trs. t < expiry \<and> (\<forall>r \<in> set rs. proper_response v r)"
    by (auto simp: same_but_collection_def proper_response_def)
  with Cons.IH [of v t] v(2) Cons.prems(6) obtain w' where
    w': "wait_until vi_timer vd_step expiry t v
        (map (\<lambda>(t, rs). (t, concat (map prompt rs))) trs @ (t_end, []) # rest) = Returns (kTimeout, t_end, w', rest)"
      "ready w'" "same_but_collection w' v"
      "vehicle_info_collection w' = std_map.emplace_all (map entry (concat (map snd trs))) (vehicle_info_collection v)"
    by blast
  have "\<not> fst (wait_predicate (vi_timer w) now expiry)"
    using ex Cons.prems(3,5) by (simp add: wait_predicate_def)
  with w' v show ?case
    by (auto simp: b std_map.emplace_all_def intro: same_but_collection_trans)
qed

section \<open>The request\<close>

lemma substring_starts_1: "substring_starts c n (Suc 0) = [c..<n]"
proof (induction "n - c" arbitrary: c)
  case 0
  then show ?case by (simp add: substring_starts.simps [of c])
next
  case (Suc x)
  then show ?case by (simp add: substring_starts.simps [of c] upt_rec [of c])
qed

lemma length_substring_starts_2: "length (substring_starts c n 2) = (n - c + 1) div 2"
proof (induction "n - c" arbitrary: c rule: less_induct)
  case less
  show ?case
  proof (cases "c < n")
    case True
    then obtain d where "n = c + Suc d" by (auto dest: less_imp_Suc_add)
    with less [of "c + 2"] show ?thesis by (cases d) (simp_all add: substring_starts.simps [of c] substring_starts.simps [of "Suc (Suc c)" "Suc c"])
  qed (simp add: substring_starts.simps [of c n 2])
qed

lemma substring_starts_less: "0 < r \<Longrightarrow> i \<in> set (substring_starts c n r) \<Longrightarrow> i < n"
  by (induction c n r rule: substring_starts.induct) (subst (asm) (2) substring_starts.simps, auto split: if_splits)

lemma take_one_drop: "i < length xs \<Longrightarrow> take (Suc 0) (drop i xs) = [xs ! i]"
  by (simp add: Cons_nth_drop_Suc [symmetric])

lemma SerializeVINFromString_eq:
  assumes "unat n \<le> length s"
  shows "SerializeVINFromString s out n 1 = Inr (out @ map (\<lambda>c. word_of_nat (of_char c)) (take (unat n) s))"
proof -
  have "map_run (\<lambda>char_count.
          bind_run (str_substr s char_count (unat (1::u8))) (\<lambda>input_string_new.
            let get_byte = (case input_string_new of [] \<Rightarrow> -1 | c # cs \<Rightarrow> int (of_char c)) in
            Inr (word_of_int get_byte)))
         (substring_starts 0 (unat n) (unat (1::u8)))
      = Inr (map (\<lambda>i. word_of_nat (of_char (s ! i)) :: u8) [0..<unat n])"
    using assms
    by (intro map_run_Inr [THEN trans]) (auto simp: str_substr_def substring_starts_1 take_one_drop Let_def)
  moreover have "map (\<lambda>i. word_of_nat (of_char (s ! i)) :: u8) [0..<unat n] = map (\<lambda>c. word_of_nat (of_char c)) (take (unat n) s)"
    using assms by (intro nth_equalityI) auto
  ultimately show ?thesis by (simp only: SerializeVINFromString_def bind_run_simps)
qed

text \<open>
  Which requests pass the check. The lengths are taken modulo 256, an odd number of hexadecimal
  digits counts as one more, and without preselection the value is ignored.
\<close>

definition request_accepted :: "VehicleAddrInfoRequest \<Rightarrow> bool" where
  "request_accepted r \<longleftrightarrow>
     preselection_mode r = 0 \<or>
     preselection_mode r = 1 \<and> length (preselection_value r) mod 256 = 17 \<or>
     preselection_mode r = 2 \<and> length (filter (\<lambda>c. c \<noteq> CHR '':'') (preselection_value r)) mod 256 \<in> {11, 12}"

lemma unat_u8_length: "unat (word_of_nat n :: u8) = n mod 256"
  by (simp add: unat_of_nat)

lemma Deserialize_Inl:
  assumes "DeserializeVehicleInfoRequest r = Inl e"
  shows "preselection_mode r = 2 \<and> e = Indeterminate_Value"
proof -
  have vin: "SerializeVINFromString s [] (word_of_nat (length s)) 1 \<noteq> Inl e" for s
    by (simp add: SerializeVINFromString_eq unat_u8_length)
  have "SerializeEIDGIDFromString s [] (word_of_nat (length s)) 2 = Inl e \<Longrightarrow> e = Indeterminate_Value" for s
    by (auto simp: SerializeEIDGIDFromString_def bind_run_def unat_u8_length str_substr_def
        split: sum.splits option.splits if_splits dest!: map_run_Inl substring_starts_less [rotated])
  with assms vin show ?thesis
    by (auto simp: DeserializeVehicleInfoRequest_def Let_def bind_run_def split: if_splits sum.splits)
qed

lemma Deserialize_Inr:
  assumes "DeserializeVehicleInfoRequest r = Inr (mode, val)"
  shows "mode = preselection_mode r \<and> (VerifyVehicleInfoRequest mode (word_of_nat (length val)) \<longleftrightarrow> request_accepted r)"
proof -
  have vin: "length bs = length s mod 256" if "SerializeVINFromString s [] (word_of_nat (length s)) 1 = Inr bs" for s bs
    using that by (auto simp: SerializeVINFromString_eq unat_u8_length)
  have eid: "length bs = (length s mod 256 + 1) div 2"
    if "SerializeEIDGIDFromString s [] (word_of_nat (length s)) 2 = Inr bs" for s bs
    using that by (auto simp: SerializeEIDGIDFromString_def bind_run_Inr_iff unat_u8_length length_substring_starts_2
        dest!: length_map_run)
  have num: "(word_of_nat n :: u8) = word_of_nat k \<longleftrightarrow> n mod 256 = k mod 256" for n k
    by (simp add: word_of_nat_eq_iff take_bit_eq_mod)
  show ?thesis
    using assms num [of _ 17] num [of _ 6]
    by (auto simp: DeserializeVehicleInfoRequest_def VerifyVehicleInfoRequest_def request_accepted_def Let_def
        bind_run_Inr_iff split: if_splits dest!: vin eid)
qed

text \<open>An EID as it is reported in a response is read back to the same bytes.\<close>

lemma nat_less_16: "(n::nat) < 16 \<longleftrightarrow> n \<in> {0, 1, 2, 3, 4, 5, 6, 7, 8, 9, 10, 11, 12, 13, 14, 15}"
  by (simp, presburger)

lemma hex_digit_facts:
  assumes "n < 16"
  shows "hex_value (hex_digit n) = Some n" "\<not> is_space (hex_digit n)"
    "hex_digit n \<notin> {CHR ''-'', CHR ''+'', CHR ''x'', CHR ''X'', CHR '':''}"
  using assms unfolding nat_less_16
  by (auto simp: hex_value_def hex_digit_def is_space_def)

lemma byte_nibbles: "unat (b :: u8) div 16 < 16" "unat b mod 16 < 16"
proof -
  have "unat b < 2 ^ LENGTH(8)" by (rule unsigned_less)
  then show "unat b div 16 < 16" by simp
qed simp

lemma read_byte_text: "read_hex_int (byte_text b) = Some (int (unat b))"
proof -
  note h = hex_digit_facts [OF byte_nibbles(1) [of b]] and l = hex_digit_facts [OF byte_nibbles(2) [of b]]
  have "unat b < 2 ^ LENGTH(8)" by (rule unsigned_less)
  then show ?thesis
    using h l by (simp add: read_hex_int_def byte_text_def drop_prefix_0x_def min_def)
qed

lemma filter_colon_text: "filter (\<lambda>c. c \<noteq> CHR '':'') (colon_text bs) = concat (map byte_text bs)"
proof -
  have "filter (\<lambda>c. c \<noteq> CHR '':'') (byte_text b) = byte_text b" for b
    using hex_digit_facts(3) [OF byte_nibbles(1) [of b]] hex_digit_facts(3) [OF byte_nibbles(2) [of b]]
    by (simp add: byte_text_def)
  then show ?thesis by (induction bs rule: colon_text.induct) simp_all
qed

lemma length_byte_texts: "length (concat (map byte_text bs)) = 2 * length bs"
  by (induction bs) (simp_all add: byte_text_def)

lemma byte_texts_nth: "i < length bs \<Longrightarrow> take 2 (drop (2 * i) (concat (map byte_text bs))) = byte_text (bs ! i)"
proof (induction bs arbitrary: i)
  case (Cons b bs)
  then show ?case by (cases i) (simp_all add: byte_text_def)
qed simp

lemma substring_starts_2: "substring_starts (2 * a) (2 * b) 2 = map (\<lambda>i. 2 * i) [a..<b]"
proof (induction "b - a" arbitrary: a)
  case 0
  then show ?case by (simp add: substring_starts.simps [of "2 * a"])
next
  case (Suc x)
  from Suc(1) [of "Suc a"] Suc(2) show ?case
    by (simp add: substring_starts.simps [of "2 * a"] upt_rec [of a])
qed

lemma map_run_map: "map_run f (map g xs) = map_run (\<lambda>x. f (g x)) xs"
  by (induction xs) simp_all

lemma SerializeEIDGIDFromString_bytes:
  assumes "length bs < 128"
  shows "SerializeEIDGIDFromString (concat (map byte_text bs)) [] (word_of_nat (2 * length bs)) 2 = Inr bs"
proof -
  have n: "unat (word_of_nat (2 * length bs) :: u8) = 2 * length bs" using assms by (simp only: unat_u8_length) simp
  have "map_run (\<lambda>char_count.
          bind_run (str_substr (concat (map byte_text bs)) char_count (unat (2::u8))) (\<lambda>input_string_new.
            case read_hex_int input_string_new of
              Some get_byte \<Rightarrow> Inr (word_of_int get_byte)
            | None \<Rightarrow> Inl Indeterminate_Value))
         (substring_starts (2 * 0) (2 * length bs) 2) = Inr (map (\<lambda>i. bs ! i) [0..<length bs])"
    unfolding substring_starts_2 map_run_map
    by (intro map_run_Inr) (simp add: str_substr_def length_byte_texts byte_texts_nth read_byte_text)
  then show ?thesis
    unfolding SerializeEIDGIDFromString_def n by (simp add: map_nth)
qed

section \<open>The frame that is sent\<close>

definition request_frame :: "u8 \<Rightarrow> bytes \<Rightarrow> bytes" where
  "request_frame mode val =
     (case GetVehicleIdentificationPayloadType mode of (ty, len) \<Rightarrow>
        CreateDoipGenericHeader ty (ucast len) @ (if mode = 0 then [] else val))"

lemma compose_request_eq:
  assumes "VerifyVehicleInfoRequest mode n"
  shows "compose_vehicle_identification_req (vdm_payload (new_VdMessage mode val host)) = Inr (request_frame mode val)"
  using assms
  by (auto simp: compose_vehicle_identification_req_def new_VdMessage_def SerializeVehicleInfoList_def vector_at_def
      request_frame_def vi_CreateDoipGenericHeader_eq VerifyVehicleInfoRequest_def doip_consts split: if_splits)

section \<open>What the io context does to the collection\<close>

lemma udp_more_fields:
  assumes "udp_channel.more v = udp_channel.more (w :: vd_world)"
  shows "vehicle_info_collection v = vehicle_info_collection w" "broadcast_address v = broadcast_address w"
    "vd_activity_status v = vd_activity_status w"
  using assms by (cases v, cases w, simp)+

lemma set_socket_vd [simp]:
  "vehicle_info_collection (set_socket rx s w) = vehicle_info_collection w"
  "broadcast_address (set_socket rx s w) = broadcast_address w"
  "vd_activity_status (set_socket rx s w) = vd_activity_status w"
  by (cases rx; simp add: set_socket_def)+

lemma vd_step_collection:
  assumes "vd_step e w = Inr w'" and "udp_chan_ok w"
  obtains (Same) "udp_channel.more w' = udp_channel.more w"
  | (Added) ip p where "vi_in vi_kWaitForVehicleIdentificationRes w" "announcement_frame p" "39 \<le> length p"
      "broadcast_address w' = broadcast_address w" "vd_activity_status w' = vd_activity_status w"
      "vehicle_info_collection w' =
        map_emplace (fst (announced ip (drop 8 p))) (snd (announced ip (drop 8 p))) (vehicle_info_collection w)"
proof (cases e)
  case (Datagram rx ip port dg)
  with assms(1) show thesis by (intro Same) (auto simp: vd_step_def)
next
  case (Receive_Error rx)
  with assms(1) show thesis by (intro Same) (auto simp: vd_step_def)
next
  case (Completion rx)
  with assms(1) obtain mo s where r: "receive_completes (socket_of rx w) = Inr (mo, s)"
    and c: "(case mo of None \<Rightarrow> Inr (set_socket rx s w)
      | Some m \<Rightarrow> udp_receive VdConversationHandler vd_AddMetaInfo rx m (set_socket rx s w)) = Inr w'"
    by (auto simp: vd_step_def bind_run_Inr_iff)
  show thesis
  proof (cases mo)
    case None
    with c show thesis by (intro Same) auto
  next
    case (Some m)
    obtain ip port p where m: "m = (ip, port, p)" by (cases m)
    show thesis
    proof (cases rx)
      case kBroadcast
      with c Some m show thesis
        by (intro Same) (auto simp: udp_receive_def HandleMessageBroadcast_eq split: if_splits)
    next
      case kUnicast
      show thesis
      proof (cases "announcement_frame p \<and> vi_in vi_kWaitForVehicleIdentificationRes w")
        case True
        with c Some m kUnicast show thesis
          by (intro Added [of p ip]) (auto simp: udp_receive_def vd_unicast_eq split: if_splits)
      next
        case False
        with c Some m kUnicast show thesis
          by (intro Same) (auto simp: udp_receive_def vd_unicast_eq split: if_splits)
      qed
    qed
  qed
qed

text \<open>
  The invariant of the collection: the entries are in the order of their logical addresses, without
  two for one address, and have the shape of an announcement.
\<close>

definition collection_ok :: "(u16 \<times> VehicleAddrInfoResponse) list \<Rightarrow> bool" where
  "collection_ok c \<longleftrightarrow> map_sorted c \<and>
     (\<forall>(k, i) \<in> set c. logical_address i = k \<and> length (vin i) = 17 \<and> length (eid i) = 17 \<and> length (gid i) = 17)"

lemma length_colon_text: "bs \<noteq> [] \<Longrightarrow> length (colon_text bs) = 3 * length bs - 1"
  by (induction bs rule: colon_text.induct) (auto simp: byte_text_def)

lemma collection_ok_emplace:
  assumes "collection_ok c" and "31 \<le> length p"
  shows "collection_ok (map_emplace (fst (announced ip p)) (snd (announced ip p)) c)"
proof -
  have ne: "take 6 (drop 19 p) \<noteq> []" "take 6 (drop 25 p) \<noteq> []" using assms(2) by auto
  then have "length (colon_text (take 6 (drop 19 p))) = 17" "length (colon_text (take 6 (drop 25 p))) = 17"
    using assms(2) by (simp_all add: length_colon_text)
  then have new: "logical_address (snd (announced ip p)) = fst (announced ip p) \<and> length (vin (snd (announced ip p))) = 17 \<and>
      length (eid (snd (announced ip p))) = 17 \<and> length (gid (snd (announced ip p))) = 17"
    using assms(2) by (simp add: announced_def)
  obtain k' i' where a: "announced ip p = (k', i')" by (cases "announced ip p")
  from new set_map_emplace [of k' i' c] assms(1) show ?thesis
    by (auto simp: a collection_ok_def map_sorted_emplace dest!: subsetD)
qed

lemma vd_step_collection_ok:
  assumes "vd_step e w = Inr w'" and "udp_chan_ok w" and "collection_ok (vehicle_info_collection w)"
  shows "collection_ok (vehicle_info_collection w')"
  using assms(1,2)
proof (cases rule: vd_step_collection)
  case Same
  with assms(3) show ?thesis by (simp add: udp_more_fields(1) [OF Same])
next
  case (Added ip p)
  with assms(3) show ?thesis by (simp add: collection_ok_emplace)
qed

end
