(* ===== verification/Vehicle_Correct.thy ===== *)
theory Vehicle_Correct
  imports Simulated_Vehicle Vd_Correct
begin

text \<open>
  Facts about the simulated vehicle: what its parser yields for a well-framed message, and its messages as the
  client's own layout of frames.
\<close>

section \<open>Parsing\<close>

lemma sim_header_eq: "sim_CreateDoipGenericHeader = CreateDoipGenericHeader"
  by (simp add: fun_eq_iff sim_CreateDoipGenericHeader_def CreateDoipGenericHeader_def doip_consts)

lemma view_read_refines: "view_ok arr v \<Longrightarrow> view_read arr v i = span_at (view_list arr v) (unat i)"
  by (simp add: view_read_def view_at_refines)

text \<open>A span that starts at an element.\<close>

lemma span_at_element:
  assumes "view_ok arr v" and "i < view_size v" and "unat i + unat n \<le> unat (view_size v)"
  shows "\<exists>p v'. view_at v i = Inr p \<and> new_Span dynamic_extent p n = Inr v' \<and> view_ok arr v' \<and>
    view_list arr v' = take (unat n) (drop (unat i) (view_list arr v))"
  using new_Span_part [OF assms(1,3)] assms(2) by (auto simp: view_at_def)

lemma container_size: "length cont < 2 ^ 64 \<Longrightarrow> unat (view_size (span_of_container cont)) = length cont"
  using length_view_list [of cont "span_of_container cont"] view_of_container [of cont] by simp

lemma u32_bound: "unat (len :: u32) < 4294967296"
proof -
  have "unat len < 2 ^ LENGTH(32)" by (rule unsigned_less)
  then show ?thesis by simp
qed

lemma unat_size_of_u32: "unat (ucast (len :: u32) :: size_t) = unat len"
  using u32_bound [of len] by (simp add: unsigned_ucast_eq take_bit_nat_eq_self)

lemma header_length_bound: "unat (len :: u32) = length data \<Longrightarrow> length data + 8 < 2 ^ 64"
  using u32_bound [of len] by simp

lemma sim_parse:
  assumes "unat len = length data"
  shows "\<exists>v. new_sim_DoipMessage ip port (CreateDoipGenericHeader ty len @ data)
        (span_of_container (CreateDoipGenericHeader ty len @ data)) =
      Inr \<lparr>sim_host_ip_address = ip, sim_host_port_number = port, sim_protocol_version = kDoip_ProtocolVersion,
        sim_protocol_version_inv = NOT kDoip_ProtocolVersion, sim_payload_type = ty, sim_payload_length = len,
        sim_payload = v\<rparr> \<and>
    view_ok (CreateDoipGenericHeader ty len @ data) v \<and> view_list (CreateDoipGenericHeader ty len @ data) v = data"
proof -
  let ?arr = "CreateDoipGenericHeader ty len @ data"
  let ?c = "span_of_container ?arr"
  have small: "length ?arr < 2 ^ 64" using header_length_bound [OF assms] by (simp add: doip_consts)
  note c = view_of_container [OF small, THEN conjunct1] view_of_container [OF small, THEN conjunct2]
  have sz: "unat (view_size ?c) = 8 + length data" using container_size [OF small] by (simp add: doip_consts)
  have rd: "view_read ?arr ?c i = span_at ?arr (unat i)" for i by (simp add: view_read_refines c)
  have "\<exists>v. (if len \<noteq> 0 then bind_run (view_at ?c 8) (\<lambda>start. new_Span dynamic_extent start (ucast len))
               else Inr (empty_span dynamic_extent)) = Inr v \<and> view_ok ?arr v \<and> view_list ?arr v = data"
  proof (cases "len = 0")
    case True
    then have "data = []" using assms by simp
    with True show ?thesis by (simp add: empty_span_def view_ok_def view_list_def)
  next
    case False
    then have "0 < length data" using assms by (simp add: unat_gt_0 [symmetric])
    then have "8 < view_size ?c" by (simp add: word_less_nat_alt sz)
    moreover have "unat (8 :: size_t) + unat (ucast len :: size_t) \<le> unat (view_size ?c)"
      by (simp add: sz unat_size_of_u32 assms)
    ultimately obtain p v where "view_at ?c 8 = Inr p" "new_Span dynamic_extent p (ucast len) = Inr v" "view_ok ?arr v"
        "view_list ?arr v = take (unat (ucast len :: size_t)) (drop (unat (8 :: size_t)) (view_list ?arr ?c))"
      using span_at_element [OF c(1)] by blast
    moreover from this(4) have "view_list ?arr v = data"
      by (simp only: c(2)) (simp add: unat_size_of_u32 assms CreateDoipGenericHeader_def)
    ultimately show ?thesis using False by auto
  qed
  then obtain v where "(if len \<noteq> 0 then bind_run (view_at ?c 8) (\<lambda>start. new_Span dynamic_extent start (ucast len))
               else Inr (empty_span dynamic_extent)) = Inr v" "view_ok ?arr v" "view_list ?arr v = data" by blast
  then show ?thesis
    unfolding new_sim_DoipMessage_def sim_GetDoIPPayloadType_def sim_GetDoIPPayloadLength_def rd
    unfolding c(2) by (simp add: CreateDoipGenericHeader_def span_at_def)
qed

section \<open>What the vehicle makes of the client's requests\<close>

lemma view_prefix_reads:
  assumes "view_ok arr v" and "view_list arr v = b0 # b1 # xs"
  shows "sim_ConvertToAddr arr v = Inr (u16_join b0 b1)"
  using assms by (simp add: sim_ConvertToAddr_def view_read_refines)

lemma sim_parse_of:
  assumes "arr = CreateDoipGenericHeader ty len @ data" and "unat len = length data"
  obtains m v where "new_sim_DoipMessage ip port arr (span_of_container arr) = Inr m" "sim_payload_type m = ty"
    "sim_host_ip_address m = ip" "sim_host_port_number m = port" "sim_payload m = v" "view_ok arr v" "view_list arr v = data"
    "unat (view_size v) = length data"
  using sim_parse [OF assms(2), of ip port ty, folded assms(1)] length_view_list [of arr] by fastforce

lemma vehicle_reads_diagnostic_request:
  assumes "data \<noteq> []" and "length data < 2 ^ 32 - 4"
  shows "sim_ProcessReceivedTcpMessage (ip, port, tcp_frame kDoipDiagMessage (word_of_nat (4 + length data)) a b data) =
    Inr ([], Some (DiagnosticRequest a b data))"
proof -
  let ?len = "word_of_nat (4 + length data) :: u32"
  let ?rest = "u16_hi a # u16_lo a # u16_hi b # u16_lo b # data"
  define arr where "arr = tcp_frame kDoipDiagMessage ?len a b data"
  have arr: "arr = CreateDoipGenericHeader kDoipDiagMessage ?len @ ?rest" by (simp add: arr_def tcp_frame_def)
  have "unat ?len = length ?rest" unfolding unat_of_nat using assms(2) by simp
  from sim_parse_of [OF arr this, of ip port] obtain m v
    where m: "new_sim_DoipMessage ip port arr (span_of_container arr) = Inr m" "sim_payload_type m = kDoipDiagMessage"
      "sim_payload m = v" and v: "view_ok arr v" "view_list arr v = ?rest" "unat (view_size v) = length ?rest" by metis
  have pos: "0 < length data" using assms(1) by simp
  obtain p ta where ta: "view_at v 2 = Inr p" "new_Span dynamic_extent p 2 = Inr ta" "view_ok arr ta"
      "view_list arr ta = take (unat (2 :: size_t)) (drop (unat (2 :: size_t)) (view_list arr v))"
    using span_at_element [OF v(1), of 2 2] v(3) pos by (auto simp: word_less_nat_alt)
  have n: "unat (view_size v - 4) = length data" using v(3) by (simp add: unat_sub word_le_nat_alt)
  obtain q d where d: "view_at v 4 = Inr q" "new_Span dynamic_extent q (view_size v - 4) = Inr d" "view_ok arr d"
      "view_list arr d = take (unat (view_size v - 4)) (drop (unat (4 :: size_t)) (view_list arr v))"
    using span_at_element [OF v(1), of 4 "view_size v - 4"] v(3) n pos by (auto simp: word_less_nat_alt)
  have l: "view_list arr ta = [u16_hi b, u16_lo b]" "view_list arr d = data"
    unfolding ta(4) d(4) v(2) n by simp_all
  have "kDoipDiagMessage \<noteq> sim_kDoipRoutingActivationReqType" "kDoipDiagMessage = sim_kDoipDiagMessage"
    by (simp_all add: doip_consts)
  with m ta(1,2) d(1,2) l
  have "sim_ProcessReceivedTcpMessage (ip, port, arr) = Inr ([], Some (DiagnosticRequest a b data))"
    by (simp add: sim_ProcessReceivedTcpMessage_def view_prefix_reads [OF v(1,2)]
        view_prefix_reads [OF ta(3)] view_elements_refines [OF d(3)])
  then show ?thesis by (simp add: arr_def)
qed

lemma vehicle_reads_activation_request:
  "sim_ProcessReceivedTcpMessage (ip, port, compose_routing_activation_req msg) =
    Inr ([True, True, True, True], Some (RoutingActivationRequest (uds_sa msg) kDoip_RoutingActivation_ReqActType_Default None))"
proof -
  let ?rest = "u16_hi (uds_sa msg) # u16_lo (uds_sa msg) # kDoip_RoutingActivation_ReqActType_Default # [0, 0, 0, 0 :: u8]"
  define arr where "arr = compose_routing_activation_req msg"
  have arr: "arr = CreateDoipGenericHeader kDoip_RoutingActivation_ReqType kDoipRoutingActivationReqMinLen @ ?rest"
    by (simp add: arr_def compose_routing_activation_req_def ra_header_eq)
  have "unat kDoipRoutingActivationReqMinLen = length ?rest" by (simp add: doip_consts)
  from sim_parse_of [OF arr this, of ip port] obtain m v
    where m: "new_sim_DoipMessage ip port arr (span_of_container arr) = Inr m"
      "sim_payload_type m = kDoip_RoutingActivation_ReqType" "sim_payload m = v"
      and v: "view_ok arr v" "view_list arr v = ?rest" "unat (view_size v) = length ?rest" by metis
  have sz: "\<not> 7 < view_size v" using v(3) by (simp add: word_less_nat_alt)
  have rd: "view_read arr v i = span_at ?rest (unat i)" for i using view_read_refines [OF v(1)] v(2) by simp
  have "kDoip_RoutingActivation_ReqType = sim_kDoipRoutingActivationReqType" by (simp add: doip_consts)
  with m have "sim_ProcessReceivedTcpMessage (ip, port, arr) = Inr ([True, True, True, True],
      Some (RoutingActivationRequest (uds_sa msg) kDoip_RoutingActivation_ReqActType_Default None))"
    by (simp add: sim_ProcessReceivedTcpMessage_def view_prefix_reads [OF v(1,2)] rd sz)
  then show ?thesis by (simp add: arr_def)
qed

section \<open>What the vehicle answers\<close>

lemma vehicle_frames:
  "ComposeDiagnosticResponseMessage a b data =
     Inr ([1 < length data], ('''', 0, tcp_frame kDoipDiagMessage (word_of_nat (4 + length data)) a b data))"
  "ComposeDiagnosticPositiveAcknowledgementMessage a b code = ('''', 0, tcp_frame kDoipDiagMessagePosAck 5 a b [code])"
  "ComposeDiagnosticNegativeAcknowledgementMessage a b code = ('''', 0, tcp_frame kDoipDiagMessageNegAck 5 a b [code])"
  "ComposeRoutingActivationResponse a b code vm = ('''', 0, tcp_frame kDoip_RoutingActivation_ResType 9 a b [code, 0, 0, 0, 0])"
  by (simp_all add: ComposeDiagnosticResponseMessage_def ComposeDiagnosticPositiveAcknowledgementMessage_def
      ComposeDiagnosticNegativeAcknowledgementMessage_def ComposeRoutingActivationResponse_def tcp_frame_def sim_header_eq
      insert_at_def Let_def)
    (simp_all add: doip_consts CreateDoipGenericHeader_def)

section \<open>Text\<close>

text \<open>
  The loop over a text with a byte as the counter is the loop over numbers as long as the counter cannot step over
  the largest byte.
\<close>

lemma sim_starts_eq:
  assumes "0 < unat r" and "unat n + unat r \<le> 256"
  shows "sim_starts c n r = Some (substring_starts (unat c) (unat n) (unat r))"
proof (induction "unat n - unat c" arbitrary: c rule: less_induct)
  case less
  show ?case
  proof (cases "c < n")
    case True
    then have "unat c < unat n" by (simp add: word_less_nat_alt)
    moreover from this assms(2) have "unat (c + r) = unat c + unat r" by (simp add: unat_word_ariths)
    ultimately have "sim_starts (c + r) n r = Some (substring_starts (unat c + unat r) (unat n) (unat r))"
      using less [of "c + r"] assms(1) by simp
    with True \<open>unat c < unat n\<close> assms(1) show ?thesis
      by (simp add: sim_starts.simps [of c] substring_starts.simps [of "unat c"])
  next
    case False
    then show ?thesis
      by (simp add: sim_starts.simps [of c] substring_starts.simps [of "unat c"] word_less_nat_alt)
  qed
qed

text \<open>Otherwise it may not end: with pairs of characters, a text of 255 of them is never finished.\<close>

lemma sim_starts_odd:
  assumes "sim_starts c n r = Some ys"
  shows "n = 255 \<and> r = 2 \<longrightarrow> odd (unat c)"
proof (rule sim_starts.raw_induct [where P = "\<lambda>c n r ys. n = 255 \<and> r = 2 \<longrightarrow> odd (unat c)", OF _ assms],
    intro impI, elim conjE)
  fix starts and c n r :: u8 and ys
  assume IH: "\<And>c n r ys. starts c n r = Some ys \<Longrightarrow> n = 255 \<and> r = 2 \<longrightarrow> odd (unat c)"
    and body: "(if c < n then Option.bind (starts (c + r) n r) (\<lambda>zs. Some (unat c # zs)) else Some []) = Some ys"
    and n: "n = 255" "r = 2"
  have b: "unat c < 256" using unsigned_less [of c, where 'a = nat] by simp
  show "odd (unat c)"
  proof
    assume e: "even (unat c)"
    with b have "unat c < 255" by presburger
    then have "c < 255" by (simp add: word_less_nat_alt)
    with body n obtain zs where "starts (c + 2) 255 2 = Some zs" by (auto split: bind_splits)
    with IH have "odd (unat (c + 2))" by blast
    moreover have "even (unat (c + 2))" using e by (simp add: unat_word_ariths dvd_mod_iff)
    ultimately show False by simp
  qed
qed

lemma sim_starts_loops: "even (unat c) \<Longrightarrow> sim_starts c 255 2 = None"
  using sim_starts_odd [of c 255 2] by (cases "sim_starts c 255 2") auto

lemma sim_substrings_eq:
  assumes "0 < unat r" and "length s + unat r \<le> 256"
  shows "sim_substrings f s r =
    call_of_run (map_run (\<lambda>c. bind_run (str_substr s c (unat r)) (\<lambda>t. Inr (f t))) (substring_starts 0 (length s) (unat r)))"
proof -
  have "unat (word_of_nat (length s) :: u8) = length s" using assms by (simp only: unat_u8_length) simp
  with assms show ?thesis by (simp add: sim_substrings_def sim_starts_eq)
qed

lemma sim_pairs:
  assumes "length bs \<le> 127"
  shows "sim_substrings f (concat (map byte_text bs)) 2 = Returns (map (\<lambda>b. f (byte_text b)) bs)"
proof -
  have "map_run (\<lambda>c. bind_run (str_substr (concat (map byte_text bs)) c 2) (\<lambda>t. Inr (f t)))
      (substring_starts (2 * 0) (2 * length bs) 2) = Inr (map (\<lambda>i. f (byte_text (bs ! i))) [0..<length bs])"
    unfolding substring_starts_2 map_run_map
    by (intro map_run_Inr) (simp add: str_substr_def length_byte_texts byte_texts_nth)
  moreover have "map (\<lambda>i. f (byte_text (bs ! i))) [0..<length bs] = map (\<lambda>b. f (byte_text b)) bs"
    by (rule nth_equalityI) simp_all
  ultimately show ?thesis using assms by (simp add: sim_substrings_eq length_byte_texts)
qed

lemma sim_hex_bytes:
  "length bs \<le> 127 \<Longrightarrow> sim_SerializeToHexVectorFromString (concat (map byte_text bs)) 2 = Returns bs"
  by (simp add: sim_SerializeToHexVectorFromString_def sim_pairs read_byte_text)

lemma sim_text_bytes:
  assumes "length s \<le> 255"
  shows "sim_SerializeToByteVectorFromString s 1 = Returns (map (\<lambda>c. word_of_nat (of_char c)) s)"
proof -
  let ?f = "\<lambda>t. word_of_int (case t of [] \<Rightarrow> -1 | c # cs \<Rightarrow> int (of_char c)) :: u8"
  have "map_run (\<lambda>c. bind_run (str_substr s c 1) (\<lambda>t. Inr (?f t))) [0..<length s] =
      Inr (map (\<lambda>i. word_of_nat (of_char (s ! i))) [0..<length s])"
    by (intro map_run_Inr) (auto simp: str_substr_def take_one_drop)
  moreover have "map (\<lambda>i. word_of_nat (of_char (s ! i)) :: u8) [0..<length s] = map (\<lambda>c. word_of_nat (of_char c)) s"
    by (rule nth_equalityI) simp_all
  ultimately show ?thesis
    using assms by (simp add: sim_SerializeToByteVectorFromString_def sim_substrings_eq substring_starts_1)
qed

lemma AddCharToString_colons:
  assumes "bs \<noteq> []" and "length bs \<le> 127"
  shows "AddCharToString (concat (map byte_text bs)) CHR '':'' 2 = Returns (colon_text bs)"
  using colon_text_concat [OF assms(1)] assms by (simp add: AddCharToString_def sim_pairs Let_def del: concat_eq_Nil_conv)

lemma sim_byte_text: "(let t = to_hex (unat (b :: u8)) in replicate (2 - length t) CHR ''0'' @ t) = byte_text b"
proof -
  have "unat b < 2 ^ LENGTH(8)" by (rule unsigned_less)
  then have "unat b div 16 < 16" by simp
  then show ?thesis
    by (cases "unat b < 16")
      (simp_all add: byte_text_def to_hex.simps [of "unat b"] to_hex.simps [of "unat b div 16"] hex_digit_def Let_def)
qed

lemma sim_ConvertToHexString_eq:
  "view_ok arr v \<Longrightarrow> sim_ConvertToHexString arr v = Inr (concat (map byte_text (view_list arr v)))"
  by (simp add: sim_ConvertToHexString_def view_elements_refines sim_byte_text)

section \<open>Identification requests and announcements\<close>

text \<open>What the vehicle is asked for by a request of the client: everything, one VIN or one EID.\<close>

definition asked_for :: "u8 \<Rightarrow> bytes \<Rightarrow> string \<times> string" where
  "asked_for mode val =
     (if mode = 1 then ('''', map (\<lambda>b. char_of (unat b)) val) else if mode = 2 then (colon_text val, '''') else ('''', ''''))"

lemma vehicle_reads_identification_request:
  assumes "VerifyVehicleInfoRequest mode (word_of_nat (length val))" and "length val < 256"
  shows "sim_ProcessReceivedUdpMessage (ip, port, request_frame mode val) =
    Returns (Some (VehicleIdentificationRequest ip port (fst (asked_for mode val)) (snd (asked_for mode val))))"
proof -
  have "mode = 0 \<and> val = [] \<or> mode = 1 \<and> length val = 17 \<or> mode = 2 \<and> length val = 6"
    using assms unat_u8_length [of "length val"]
    by (auto simp: VerifyVehicleInfoRequest_def split: if_splits dest: arg_cong [where f = unat])
  then consider (all) "mode = 0" "val = []" | (vin) "mode = 1" "length val = 17" | (eid) "mode = 2" "length val = 6" by blast
  then show ?thesis
  proof cases
    case all
    define arr where "arr = request_frame mode val"
    have arr: "arr = CreateDoipGenericHeader kDoip_VehicleIdentification_ReqType 0 @ []"
      using all by (simp add: arr_def request_frame_def GetVehicleIdentificationPayloadType_def doip_consts)
    have "unat (0 :: u32) = length ([] :: bytes)" by simp
    from sim_parse_of [OF arr this, of ip port] obtain m where "new_sim_DoipMessage ip port arr (span_of_container arr) = Inr m"
        "sim_payload_type m = kDoip_VehicleIdentification_ReqType" "sim_host_ip_address m = ip" "sim_host_port_number m = port"
      by metis
    then have "sim_ProcessReceivedUdpMessage (ip, port, arr) = Returns (Some (VehicleIdentificationRequest ip port '''' ''''))"
      by (simp add: sim_ProcessReceivedUdpMessage_def) (simp add: doip_consts)
    with all show ?thesis by (simp add: arr_def asked_for_def)
  next
    case vin
    define arr where "arr = request_frame mode val"
    have arr: "arr = CreateDoipGenericHeader kDoip_VehicleIdentificationVIN_ReqType 17 @ val"
      using vin by (simp add: arr_def request_frame_def GetVehicleIdentificationPayloadType_def doip_consts)
    have "unat (17 :: u32) = length val" using vin by simp
    from sim_parse_of [OF arr this, of ip port] obtain m v
      where m: "new_sim_DoipMessage ip port arr (span_of_container arr) = Inr m"
        "sim_payload_type m = kDoip_VehicleIdentificationVIN_ReqType" "sim_host_ip_address m = ip"
        "sim_host_port_number m = port" "sim_payload m = v" "view_ok arr v" "view_list arr v = val"
      by metis
    have "sim_ConvertToAsciiString arr v = Inr (map (\<lambda>b. char_of (unat b)) val)"
      by (simp add: sim_ConvertToAsciiString_def view_elements_refines m(6,7))
    with m(1-5) have "sim_ProcessReceivedUdpMessage (ip, port, arr) =
        Returns (Some (VehicleIdentificationRequest ip port '''' (map (\<lambda>b. char_of (unat b)) val)))"
      by (simp add: sim_ProcessReceivedUdpMessage_def) (simp add: doip_consts)
    with vin show ?thesis by (simp add: arr_def asked_for_def)
  next
    case eid
    define arr where "arr = request_frame mode val"
    have arr: "arr = CreateDoipGenericHeader kDoip_VehicleIdentificationEID_ReqType 6 @ val"
      using eid by (simp add: arr_def request_frame_def GetVehicleIdentificationPayloadType_def doip_consts)
    have "unat (6 :: u32) = length val" using eid by simp
    from sim_parse_of [OF arr this, of ip port] obtain m v
      where m: "new_sim_DoipMessage ip port arr (span_of_container arr) = Inr m"
        "sim_payload_type m = kDoip_VehicleIdentificationEID_ReqType" "sim_host_ip_address m = ip"
        "sim_host_port_number m = port" "sim_payload m = v" "view_ok arr v" "view_list arr v = val"
      by metis
    have "val \<noteq> []" using eid by auto
    then have "AddCharToString (concat (map byte_text val)) CHR '':'' 2 = Returns (colon_text val)"
      using eid by (simp add: AddCharToString_colons)
    with m(1-5) sim_ConvertToHexString_eq [OF m(6)] m(7)
    have "sim_ProcessReceivedUdpMessage (ip, port, arr) = Returns (Some (VehicleIdentificationRequest ip port (colon_text val) ''''))"
      by (simp add: sim_ProcessReceivedUdpMessage_def Let_def) (simp add: doip_consts)
    with eid show ?thesis by (simp add: arr_def asked_for_def)
  qed
qed

text \<open>The announcement of a vehicle: the frame, and the entry the client has for it.\<close>

definition announcement_of :: "string \<Rightarrow> u16 \<Rightarrow> bytes \<Rightarrow> bytes \<Rightarrow> u8 \<Rightarrow> u8 option \<Rightarrow> bytes" where
  "announcement_of v address eb gb action_byte sync_status =
     CreateDoipGenericHeader kDoip_VehicleAnnouncement_ResType 32 @
     map (\<lambda>c. word_of_nat (of_char c)) v @ [u16_hi address, u16_lo address] @ eb @ gb @ [action_byte] @
     (case sync_status of Some s \<Rightarrow> [s] | None \<Rightarrow> [])"

lemma vehicle_announces:
  assumes "length v = 17" and "length eb = 6" and "length gb = 6"
  shows "ComposeVehicleIdentificationResponse ip port v address (colon_text eb) (colon_text gb) action_byte sync_status =
    Returns (ip, port, announcement_of v address eb gb action_byte sync_status)"
proof -
  let ?h = "CreateDoipGenericHeader kDoip_VehicleAnnouncement_ResType 32"
  let ?v = "map (\<lambda>c. word_of_nat (of_char c)) v :: bytes"
  have 1: "insert_at 8 ?v ?h = Inr (?h @ ?v)" by (simp add: insert_at_def kDoipheadrSize_def)
  have 2: "insert_at 27 eb (?h @ ?v @ [u16_hi address, u16_lo address]) = Inr (?h @ ?v @ [u16_hi address, u16_lo address] @ eb)"
    by (simp add: insert_at_def kDoipheadrSize_def assms)
  have 3: "insert_at 33 gb (?h @ ?v @ [u16_hi address, u16_lo address] @ eb) =
      Inr (?h @ ?v @ [u16_hi address, u16_lo address] @ eb @ gb)"
    by (simp add: insert_at_def kDoipheadrSize_def assms)
  have t: "sim_kDoip_VehicleAnnouncement_ResType = kDoip_VehicleAnnouncement_ResType" by (simp add: doip_consts)
  show ?thesis
    using 1 2 3 assms
    by (simp add: ComposeVehicleIdentificationResponse_def sim_header_eq t sim_text_bytes RemoveCharFromString_def
        filter_colon_text sim_hex_bytes announcement_of_def Let_def split: option.split)
qed

lemma announcement_entry:
  assumes "length v = 17" and "length eb = 6" and "length gb = 6"
  shows "announced ip (drop 8 (announcement_of v address eb gb action_byte sync_status)) =
    (address, \<lparr>ip_address = ip, logical_address = address, vin = v, eid = colon_text eb, gid = colon_text gb\<rparr>)"
proof -
  have c: "char_of (unat (word_of_nat (of_char c) :: u8)) = c" for c by (simp add: unat_u8_length)
  have d: "drop 8 (announcement_of v address eb gb action_byte sync_status) =
    map (\<lambda>c. word_of_nat (of_char c)) v @ [u16_hi address, u16_lo address] @ eb @ gb @ [action_byte] @
     (case sync_status of Some s \<Rightarrow> [s] | None \<Rightarrow> [])"
    by (simp add: announcement_of_def CreateDoipGenericHeader_def)
  show ?thesis unfolding announced_def d using assms by (simp add: nth_append c comp_def)
qed

end
