(* ===== verification/Conversation_Correct.thy ===== *)
theory Conversation_Correct
  imports Dm_Conversation
begin

text \<open>
  What a diagnostic conversation promises: its invariant, kept by every operation while the
  reader thread runs; where the response of a successful request comes from; every way a request
  can end.
\<close>

section \<open>Invariant\<close>

definition conv_ok :: "dm_world \<Rightarrow> bool" where
  "conv_ok w \<longleftrightarrow> chan_ok w \<and> link_inv (link w) \<and> cv_known w \<and> (\<exists>s. cv_in s w) \<and> \<not> exit_request (cv_timer w)"

lemma conv_okD: "conv_ok w \<Longrightarrow> chan_ok w" "conv_ok w \<Longrightarrow> link_inv (link w)" "conv_ok w \<Longrightarrow> cv_known w"
  "conv_ok w \<Longrightarrow> \<not> exit_request (cv_timer w)"
  by (simp_all add: conv_ok_def)

lemma new_link: "link (new_DmConversation conf) = link_down"
  by (simp add: link_def link_down_def new_DmConversation_def new_ra_context_def new_dm_context_def ctx_simps)

lemma conv_ok_new: "conv_ok (new_DmConversation conf)"
proof -
  have "chan_ok (new_DmConversation conf)"
    by (simp add: chan_ok_def new_DmConversation_def ra_known_def dm_known_def ra_in_def dm_in_def
        new_ra_context_facts new_dm_context_facts)
  then show ?thesis
    using new_link [of conf] link_inv_down
    by (simp add: conv_ok_def new_DmConversation_def cv_known_def cv_in_def new_cv_context_facts)
qed

lemma conv_ok_truncate:
  assumes "diag_handler.truncate v = diag_handler.truncate w"
  shows "chan_ok v = chan_ok w" "link v = link w" "sent v = sent w"
  using truncate_fields(14) [OF assms] link_truncate [OF assms] truncate_fields(7) [OF assms] by auto

lemma cv_ops_channel [simp]:
  "chan_ok (cv_goto s w) = chan_ok w" "link (cv_goto s w) = link w" "sent (cv_goto s w) = sent w"
  "chan_ok (cv_cancel w) = chan_ok w" "link (cv_cancel w) = link w" "sent (cv_cancel w) = sent w"
  "chan_ok (cv_timer_update f w) = chan_ok w" "link (cv_timer_update f w) = link w"
  "sent (cv_timer_update f w) = sent w"
  by (rule conv_ok_truncate, simp)+

lemma cv_in_ex_goto [simp]: "cv_known w \<Longrightarrow> \<exists>t. cv_in t (cv_goto s w)"
  by auto

lemma conv_ok_goto [simp]: "conv_ok w \<Longrightarrow> conv_ok (cv_goto s w)"
  by (auto simp: conv_ok_def)

lemma conv_ok_timer [simp]: "conv_ok (cv_timer_update SyncTimer_arm w) = conv_ok w"
  by (auto simp: conv_ok_def)

text \<open>The reader thread keeps the invariant.\<close>

lemma dm_step_conv_ok:
  assumes "dm_step io e w = Inr w'" and "by_reader e" and "conv_ok w"
  shows "conv_ok w'" and "sent w' = sent w"
    and "link w' = link w \<or> reader_move (link w) (link w')"
proof -
  have c: "channel_step io DmConversationHandler e w = Inr w'" using assms(1) by (simp add: dm_step_def)
  note r = dm_chan.reader_refines [OF c assms(2) conv_okD(1) [OF assms(3)]]
  show "sent w' = sent w" and "link w' = link w \<or> reader_move (link w) (link w')" by (rule r)+
  then have inv: "link_inv (link w')" using assms(3) by (auto simp: conv_ok_def intro: link_inv_step link_step.network)
  have "cv_known w' \<and> (\<exists>s. cv_in s w')"
  proof (cases "\<exists>ip port p. e = Rx_Frame ip port p")
    case False
    with more_fields(9,10) [OF dm_step_other [OF assms(1)]] assms(3) show ?thesis by (auto simp: conv_ok_def)
  next
    case True
    then obtain ip port p where "e = Rx_Frame ip port p" by blast
    with assms(1) have "dm_step io (Rx_Frame ip port p) w = Inr w'" by simp
    then show ?thesis
    proof (cases rule: dm_rx_cases)
      case Channel
      with more_fields(9,10) [OF Channel] assms(3) show ?thesis by (auto simp: conv_ok_def)
    next
      case (Pending m)
      with assms(3) show ?thesis by (auto simp: conv_ok_def)
    next
      case (Final m)
      with assms(3) show ?thesis by (auto simp: conv_ok_def)
    qed
  qed
  with r(1) inv dm_step_cv_exit [OF assms(1)] assms(3) show "conv_ok w'" by (simp add: conv_ok_def)
qed

section \<open>Where a response comes from\<close>

text \<open>
  The reception buffer holds the data of one of the frames of \<open>E\<close>: a diagnostic message that
  passed the header checks and is not a pending response.
\<close>

definition answered :: "channel_event set \<Rightarrow> dm_world \<Rightarrow> bool" where
  "answered E w \<longleftrightarrow> (\<exists>ip port p m. Rx_Frame ip port p \<in> E \<and> accepted p m \<and> payload_type m = kDoipDiagMessage \<and>
     \<not> is_pending (payload m) \<and> payload_rx_buffer w = payload m)"

definition settled :: "channel_event set \<Rightarrow> dm_world \<Rightarrow> bool" where
  "settled E w \<longleftrightarrow> diag (link w) = dm_kIdle \<and> answered E w"

definition waiting_inv :: "channel_event set \<Rightarrow> dm_world \<Rightarrow> bool" where
  "waiting_inv E w \<longleftrightarrow> conv_ok w \<and> (cv_in cv_kDiagSuccess w \<longrightarrow> settled E w)"

lemma answered_buffer: "payload_rx_buffer v = payload_rx_buffer w \<Longrightarrow> answered E v = answered E w"
  by (simp add: answered_def)

lemma settled_goto [simp]: "settled E (cv_goto s w) = settled E w"
  by (simp add: settled_def answered_buffer [of "cv_goto s w" w])

lemma waiting_goto [simp]: "conv_ok w \<Longrightarrow> s \<noteq> cv_kDiagSuccess \<Longrightarrow> waiting_inv E (cv_goto s w)"
  by (simp add: waiting_inv_def conv_okD)

lemma waiting_arm [simp]: "waiting_inv E (cv_timer_update SyncTimer_arm w) = waiting_inv E w"
  by (simp add: waiting_inv_def settled_def answered_buffer [of "cv_timer_update SyncTimer_arm w" w])

lemma reader_settled:
  assumes "dm_step io e w = Inr w'" and "by_reader e" and "conv_ok w" and "settled E w"
  shows "settled E w' \<and> diag_handler.more w' = diag_handler.more w"
proof -
  have idle: "diag (link w) = dm_kIdle" using assms(4) by (simp add: settled_def)
  then have nw: "\<not> dm_in dm_kWaitForDiagnosticResponse w" using assms(3) by (simp add: link_in conv_okD)
  have more: "diag_handler.more w' = diag_handler.more w"
  proof (cases "\<exists>ip port p. e = Rx_Frame ip port p")
    case False
    with dm_step_other [OF assms(1)] show ?thesis by blast
  next
    case True
    then obtain ip port p where "e = Rx_Frame ip port p" by blast
    with assms(1) have "dm_step io (Rx_Frame ip port p) w = Inr w'" by simp
    then show ?thesis by (cases rule: dm_rx_cases) (use nw in simp_all)
  qed
  have "answered E w' = answered E w" by (rule answered_buffer [OF more_fields(3) [OF more]])
  moreover have "diag (link w') = dm_kIdle"
    using dm_step_conv_ok(3) [OF assms(1-3)] idle by (auto elim!: reader_moveE)
  ultimately show ?thesis using assms(4) more by (simp add: settled_def)
qed

lemma reader_waiting:
  assumes "dm_step io e w = Inr w'" and "by_reader e" and "e \<in> E" and "waiting_inv E w"
  shows "waiting_inv E w' \<and> (cv_in cv_kIdle w' \<longrightarrow> cv_in cv_kIdle w)"
proof (cases "\<exists>ip port p. e = Rx_Frame ip port p")
  case False
  have ok: "conv_ok w" using assms(4) by (simp add: waiting_inv_def)
  note m = dm_step_other [OF assms(1)]
  from False m have "cv_in s w' = cv_in s w" for s using more_fields(9) by blast
  with assms(4) reader_settled [OF assms(1,2) ok] dm_step_conv_ok(1) [OF assms(1,2) ok] show ?thesis
    by (auto simp: waiting_inv_def)
next
  case True
  have ok: "conv_ok w" using assms(4) by (simp add: waiting_inv_def)
  note ok' = dm_step_conv_ok(1) [OF assms(1,2) ok]
  from True obtain ip port p where e: "e = Rx_Frame ip port p" by blast
  with assms(1) have "dm_step io (Rx_Frame ip port p) w = Inr w'" by simp
  then show ?thesis
  proof (cases rule: dm_rx_cases)
    case Channel
    with more_fields(9) [OF Channel] assms(4) reader_settled [OF assms(1,2) ok] ok' show ?thesis
      by (auto simp: waiting_inv_def)
  next
    case (Pending m)
    with ok ok' show ?thesis by (simp add: waiting_inv_def conv_okD)
  next
    case (Final m)
    have "dm_known w" using ok by (simp add: chan_okD conv_okD)
    with Final ok ok' have "diag (link w') = dm_kIdle" by (simp add: conv_okD flip: link_in(2))
    moreover have "answered E w'" using Final e assms(3) by (auto simp: answered_def)
    ultimately show ?thesis using Final ok ok' by (simp add: waiting_inv_def settled_def conv_okD)
  qed
qed

section \<open>The wait for the final response\<close>

lemma next_window_inv:
  assumes "next_window step now w evs = Returns (t, w', rest)" and "events_of evs \<subseteq> E" and "P w"
    and "\<And>e v v'. e \<in> E \<Longrightarrow> step e v = Inr v' \<Longrightarrow> P v \<Longrightarrow> P v'"
  shows "P w'" and "events_of rest \<subseteq> E"
proof -
  have "P w' \<and> events_of rest \<subseteq> E"
  proof (cases evs)
    case Nil
    with assms show ?thesis by (simp add: next_window_def)
  next
    case (Cons b evs')
    obtain t0 es where b: "b = (t0, es)" by (cases b)
    from assms(1) Cons b have d: "deliver_all step es w = Inr w'" and r: "rest = evs'"
      by (auto simp: next_window_def bind_call_Returns_iff call_of_run_Returns_iff)
    from assms(2) Cons b have sub: "set es \<subseteq> E" "events_of evs' \<subseteq> E" by auto
    have "P w'" by (rule deliver_all_invariant_on [of E step P, OF assms(4) sub(1) d assms(3)])
    with r sub(2) show ?thesis by simp
  qed
  then show "P w'" and "events_of rest \<subseteq> E" by simp_all
qed

lemma WaitForTimeout_rest_events:
  "WaitForTimeout timer_of timer_update step tf cf timeout now w evs = Returns (r, t, w', rest) \<Longrightarrow>
   events_of rest \<subseteq> events_of evs"
  by (auto simp: WaitForTimeout_Returns_iff dest: wait_until_rest_events)

text \<open>Waiting, with the request's frames sent and the conversation not idle.\<close>

definition pending_inv :: "channel_event set \<Rightarrow> bytes list \<Rightarrow> dm_world \<Rightarrow> bool" where
  "pending_inv E fs w \<longleftrightarrow> waiting_inv E w \<and> \<not> cv_in cv_kIdle w \<and> sent w = fs"

lemma reader_pending:
  assumes "dm_step io e w = Inr w'" and "e \<in> E \<inter> Collect by_reader" and "pending_inv E fs w"
  shows "pending_inv E fs w'"
  using reader_waiting [OF assms(1)] dm_step_conv_ok(2) [OF assms(1)] assms(2,3)
  by (auto simp: pending_inv_def waiting_inv_def)

lemma pending_conv_ok: "pending_inv E fs w \<Longrightarrow> conv_ok w"
  by (simp add: pending_inv_def waiting_inv_def)

lemma pending_goto [simp]:
  "conv_ok w \<Longrightarrow> s \<noteq> cv_kDiagSuccess \<Longrightarrow> s \<noteq> cv_kIdle \<Longrightarrow> sent w = fs \<Longrightarrow> pending_inv E fs (cv_goto s w)"
  by (auto simp: pending_inv_def conv_okD)

lemma pending_arm [simp]: "pending_inv E fs (cv_timer_update SyncTimer_arm w) = pending_inv E fs w"
  by (simp add: pending_inv_def)

definition verdict :: "channel_event set \<Rightarrow> bytes list \<Rightarrow> diag_result \<Rightarrow> dm_world \<Rightarrow> bool" where
  "verdict E fs r w \<longleftrightarrow> conv_ok w \<and> cv_in cv_kIdle w \<and> sent w = fs \<and>
     (r = FromValue Rx_Buffer_Reference \<and> settled E w \<or> r = FromError kDiagResponseTimeout)"

text \<open>A round of waiting, for either of the two timeouts: the call is still pending, or it has its verdict.\<close>

lemma cv_wait_round:
  assumes wt: "WaitForTimeout cv_timer cv_timer_update (dm_step io) tf cf timeout now w evs = Returns (r, t, w', rest)"
    and ev: "events_of evs \<subseteq> E \<inter> Collect by_reader" and p: "pending_inv E fs w"
    and tf: "\<And>v. tf v = (FromError kDiagResponseTimeout, cv_goto cv_kIdle v)"
    and cf: "\<And>v. cf v = (res, v) \<or> cf v = (res, cv_goto cv_kDiagStartP2StarTimer v)"
  shows "(pending_inv E fs w' \<and> r = res \<and> t < now + timeout \<or> verdict E fs r w' \<and> now + timeout \<le> t) \<and>
    events_of rest \<subseteq> E \<inter> Collect by_reader"
proof -
  have ex: "\<not> exit_request (cv_timer w)" using pending_conv_ok [OF p] by (simp add: conv_okD)
  have p': "pending_inv E fs (cv_timer_update SyncTimer_arm w)" using p by simp
  have "pending_inv E fs w' \<and> r = res \<and> t < now + timeout \<or> verdict E fs r w' \<and> now + timeout \<le> t"
  proof (rule cv_wait.WaitForTimeout_cases
        [where P = "pending_inv E fs" and E = "E \<inter> Collect by_reader", OF wt ex _ ev p'], goal_cases)
    case (1 e v v')
    show ?case by (rule reader_pending [OF 1(2,1,3)])
  next
    case (2 v)
    from 2(3) tf have r: "r = FromError kDiagResponseTimeout" "w' = cv_goto cv_kIdle v" by simp_all
    have "verdict E fs r w'"
      using pending_conv_ok [OF 2(1)] 2(1) unfolding r verdict_def pending_inv_def by (simp add: conv_okD)
    with 2(2) show ?case by simp
  next
    case (3 v)
    have v: "conv_ok v" "sent v = fs" using pending_conv_ok [OF 3(1)] 3(1) by (simp_all add: pending_inv_def)
    from cf [of v] show ?case
    proof
      assume "cf v = (res, v)"
      with 3 show ?case by simp
    next
      assume "cf v = (res, cv_goto cv_kDiagStartP2StarTimer v)"
      with 3 v show ?case by (auto intro: pending_goto)
    qed
  qed
  with WaitForTimeout_rest_events [OF wt] ev show ?thesis by blast
qed

lemma response_loop_correct:
  assumes "response_loop (dm_step io) now res w evs = Returns (r, t, w', rest)"
    and "events_of evs \<subseteq> E \<inter> Collect by_reader"
    and "pending_inv E fs w \<or> verdict E fs res w"
  shows "verdict E fs r w'"
  using assms
proof (induction "length evs" arbitrary: now res w evs rule: less_induct)
  case less
  note ret = less.prems(1) and ev = less.prems(2)
  have ok: "conv_ok w" using less.prems(3) pending_conv_ok by (auto simp: verdict_def)
  then obtain s where s: "cv_in s w" by (auto simp: conv_ok_def)
  note gs = GetActiveState_cv [OF s]
  show ?case
  proof (cases "s = cv_kIdle")
    case True
    with ret less.prems(3) gs s show ?thesis
      by (auto simp: response_loop.simps [of _ now res w evs] pending_inv_def)
  next
    case False
    with less.prems(3) s have pend: "pending_inv E fs w" by (auto simp: verdict_def dest: cv_in_unique)
    have ne: "evs \<noteq> []" using ret gs False by (auto simp: response_loop.simps [of _ now res w evs])
    from ret gs False ne obtain t1 w1 evs1 where win: "next_window (dm_step io) now w evs = Returns (t1, w1, evs1)"
      by (cases "next_window (dm_step io) now w evs") (auto simp: response_loop.simps [of _ now res w evs])
    note body = ret [unfolded response_loop.simps [of _ now res w evs] gs, simplified, simplified False ne win, simplified]
    have p1: "pending_inv E fs w1" and ev1: "events_of evs1 \<subseteq> E \<inter> Collect by_reader"
      using next_window_inv [OF win ev, of "pending_inv E fs"] pend reader_pending by blast+
    have sh: "length evs1 < length evs" by (rule next_window_consumes [OF win ne])
    note ok1 = pending_conv_ok [OF p1]
    have sent1: "sent w1 = fs" using p1 by (simp add: pending_inv_def)
    show ?thesis
    proof (cases s)
      case cv_kDiagRecvdPendingRes
      with body have l: "response_loop (dm_step io) t1 res (cv_goto cv_kDiagStartP2StarTimer w1) evs1 = Returns (r, t, w', rest)"
        by simp
      show ?thesis by (rule less.hyps [OF sh l ev1]) (use ok1 sent1 in simp)
    next
      case cv_kDiagStartP2StarTimer
      with body obtain r2 t2 w2 evs2 where wt: "WaitForTimeout cv_timer cv_timer_update (dm_step io)
            (p2_star_timeout_func res) (p2_star_cancellation_func res) (unat (p2_star_client_max w1)) t1 w1 evs1
            = Returns (r2, t2, w2, evs2)"
        and l: "response_loop (dm_step io) t2 r2 w2 evs2 = Returns (r, t, w', rest)"
        by (auto simp: bind_call_Returns_iff)
      have rnd: "(pending_inv E fs w2 \<and> r2 = res \<and> t2 < t1 + unat (p2_star_client_max w1) \<or>
          verdict E fs r2 w2 \<and> t1 + unat (p2_star_client_max w1) \<le> t2) \<and> events_of evs2 \<subseteq> E \<inter> Collect by_reader"
        by (rule cv_wait_round [OF wt ev1 p1])
           (auto simp: p2_star_timeout_func_def p2_star_cancellation_func_def EmplaceError_def)
      have sh2: "length evs2 < length evs" using sh WaitForTimeout_rest [OF wt] by simp
      show ?thesis by (rule less.hyps [OF sh2 l]) (use rnd in blast)+
    next
      case cv_kDiagSuccess
      with body have l: "response_loop (dm_step io) t1 (FromValue Rx_Buffer_Reference) (cv_goto cv_kIdle w1) evs1
          = Returns (r, t, w', rest)"
        by (simp add: EmplaceValue_def)
      have "settled E w" using pend s cv_kDiagSuccess by (simp add: pending_inv_def waiting_inv_def)
      then have "conv_ok w1 \<and> settled E w1"
        using next_window_inv [OF win ev, of "\<lambda>v. conv_ok v \<and> settled E v"] ok dm_step_conv_ok(1) reader_settled
        by blast
      then have "verdict E fs (FromValue Rx_Buffer_Reference) (cv_goto cv_kIdle w1)"
        using sent1 by (simp add: verdict_def conv_okD)
      then show ?thesis by (intro less.hyps [OF sh l ev1]) simp
    qed (use body False less.hyps [OF sh _ ev1] p1 in auto)
  qed
qed

section \<open>A request, from the call to its result\<close>

text \<open>
  No operation of the channel touches the conversation, unless a response arrives meanwhile: what
  the conversation's part of the invariant says is kept by the reader anyway.
\<close>

definition cv_part_ok :: "dm_world \<Rightarrow> bool" where
  "cv_part_ok w \<longleftrightarrow> cv_known w \<and> (\<exists>s. cv_in s w) \<and> \<not> exit_request (cv_timer w)"

lemma conv_ok_parts: "conv_ok w \<longleftrightarrow> chan_ok w \<and> link_inv (link w) \<and> cv_part_ok w"
  by (auto simp: conv_ok_def cv_part_ok_def)

lemma cv_part_more: "diag_handler.more v = diag_handler.more w \<Longrightarrow> cv_part_ok v = cv_part_ok w"
  using more_fields(2,9,10) [of v w] by (simp add: cv_part_ok_def)

lemma cv_part_simps [simp]:
  "cv_part_ok (ra_goto r w) = cv_part_ok w" "cv_part_ok (dm_goto s w) = cv_part_ok w"
  "cv_part_ok (ra_timer_update f w) = cv_part_ok w" "cv_part_ok (dm_timer_update f w) = cv_part_ok w"
  "cv_part_ok (w\<lparr>sent := fs\<rparr>) = cv_part_ok w" "cv_part_ok (w\<lparr>running := b\<rparr>) = cv_part_ok w"
  "cv_part_ok (w\<lparr>connection_state := c\<rparr>) = cv_part_ok w"
  by (rule cv_part_more; simp)+

lemma dm_step_cv_part:
  assumes "dm_step io e w = Inr w'" and "cv_part_ok w"
  shows "cv_part_ok w'"
proof (cases "\<exists>ip port p. e = Rx_Frame ip port p")
  case False
  with cv_part_more [OF dm_step_other [OF assms(1)]] assms(2) show ?thesis by blast
next
  case True
  then obtain ip port p where "e = Rx_Frame ip port p" by blast
  with assms(1) have "dm_step io (Rx_Frame ip port p) w = Inr w'" by simp
  then show ?thesis
  proof (cases rule: dm_rx_cases)
    case Channel
    with cv_part_more [OF Channel] assms(2) show ?thesis by simp
  qed (use assms(2) in \<open>auto simp: cv_part_ok_def\<close>)
qed

text \<open>
  What the reader's events and the handler's own steps keep holds when the call that transmits, or the
  one that connects, is over.
\<close>

lemma WaitForTimeout_keeps:
  assumes wt: "WaitForTimeout timer_of timer_update step tf cf timeout now w evs = Returns (r, t, w', rest)"
    and st: "\<And>e v v'. e \<in> E \<Longrightarrow> step e v = Inr v' \<Longrightarrow> P v \<Longrightarrow> P v'" and ev: "events_of evs \<subseteq> E"
    and arm: "P (timer_update SyncTimer_arm w)"
    and cb: "\<And>v. P v \<Longrightarrow> P (snd (tf v))" "\<And>v. P v \<Longrightarrow> P (snd (cf v))"
  shows "P w'"
proof -
  from wt obtain ts v where wu: "wait_until timer_of step (now + timeout) now (timer_update SyncTimer_arm w) evs
      = Returns (ts, t, v, rest)" and res: "(if ts = kTimeout then tf v else cf v) = (r, w')"
    by (auto simp: WaitForTimeout_Returns_iff)
  have "P v"
    by (rule wait_until_Returns [of E step P, THEN conjunct1])
       (rule st, assumption+, rule wu, rule ev, rule arm)
  with res cb [of v] show ?thesis by (auto split: if_splits)
qed

lemma Transmit_keeps:
  assumes tx: "TcpChannel_Transmit io (dm_step io) now win1 win2 evs msg w = Returns (r, t, w', rest)" and p: "P w"
    and st: "\<And>e v v'. e \<in> E \<Longrightarrow> dm_step io e v = Inr v' \<Longrightarrow> P v \<Longrightarrow> P v'"
    and ev: "set win1 \<subseteq> E" "set win2 \<subseteq> E" "events_of evs \<subseteq> E"
    and goto: "\<And>s v. P v \<Longrightarrow> P (dm_goto s v)" and arm: "\<And>v. P v \<Longrightarrow> P (dm_timer_update SyncTimer_arm v)"
    and snt: "\<And>fs v. P v \<Longrightarrow> P (v\<lparr>sent := fs\<rparr>)"
  shows "P w'"
proof (cases "IsRoutingActivated w \<and> dm_in dm_kIdle w \<and> connection_state w = kConnected \<and> asio_write io (compose_diag_req msg)")
  case False
  with tx p goto show ?thesis
    by (auto simp: TcpChannel_Transmit_def HandleDiagnosticRequest_def dm_SendDiagnosticRequest_eq split: if_splits)
next
  case True
  have lift: "P v'" if "deliver_all (dm_step io) es v = Inr v'" "set es \<subseteq> E" "P v" for es v v'
    by (rule deliver_all_invariant_on [of E "dm_step io" P, OF _ that(2,1,3)]) (rule st)
  from tx True obtain w2 w3 where
      w2: "deliver_all (dm_step io) win1 (w\<lparr>sent := sent w @ [compose_diag_req msg]\<rparr>) = Inr w2"
    and w3: "deliver_all (dm_step io) win2 (dm_goto dm_kWaitForDiagnosticAck w2) = Inr w3"
    and wt: "WaitForTimeout dm_timer dm_timer_update (dm_step io) dm_timeout_func dm_cancellation_func
       kDoIPDiagnosticAckTimeout now w3 evs = Returns (r, t, w', rest)"
    by (auto simp: TcpChannel_Transmit_def HandleDiagnosticRequest_def dm_SendDiagnosticRequest_eq
        bind_call_Returns_iff call_of_run_Returns_iff split: if_splits)
  have p3: "P w3" by (rule lift [OF w3 ev(2) goto [OF lift [OF w2 ev(1) snt [OF p]]]])
  show ?thesis
    by (rule WaitForTimeout_keeps [where P = P and E = E, OF wt _ ev(3) arm [OF p3]])
       (rule st, assumption+, auto simp: dm_timeout_func_def dm_cancellation_func_def intro: goto)
qed

lemma Connect_keeps:
  assumes cn: "TcpChannel_ConnectToHost io (dm_step io) now win1 win2 evs msg w = Returns (r, t, w', rest)" and p: "P w"
    and st: "\<And>e v v'. e \<in> E \<Longrightarrow> dm_step io e v = Inr v' \<Longrightarrow> P v \<Longrightarrow> P v'"
    and ev: "set win1 \<subseteq> E" "set win2 \<subseteq> E" "events_of evs \<subseteq> E"
    and goto: "\<And>s v. s \<in> {ra_kIdle, ra_kWaitForRoutingActivationRes} \<Longrightarrow> P v \<Longrightarrow> P (ra_goto s v)"
    and arm: "\<And>v. P v \<Longrightarrow> P (ra_timer_update SyncTimer_arm v)"
    and snt: "\<And>fs v. P v \<Longrightarrow> P (v\<lparr>sent := fs\<rparr>)"
    and cnd: "\<And>v. P v \<Longrightarrow> P (v\<lparr>running := True, connection_state := kConnected\<rparr>)"
  shows "P w'"
proof -
  define v where "v = (if connection_state w = kConnected then w
     else if asio_connect io (uds_host_ip msg) (uds_host_port msg) then w\<lparr>running := True, connection_state := kConnected\<rparr>
     else w)"
  have pv: "P v" using p cnd by (simp add: v_def)
  show ?thesis
  proof (cases "(connection_state w = kConnected \<or> asio_connect io (uds_host_ip msg) (uds_host_port msg)) \<and>
      ra_in ra_kIdle v \<and> connection_state v = kConnected \<and> asio_write io (compose_routing_activation_req msg)")
    case False
    with cn p pv goto show ?thesis
      by (auto simp: TcpChannel_ConnectToHost_def TcpClient_ConnectToHost_eq v_def
          HandleRoutingActivationRequest_def SendRoutingActivationRequest_eq split: if_splits)
  next
    case True
    have lift: "P v'" if "deliver_all (dm_step io) es v = Inr v'" "set es \<subseteq> E" "P v" for es v v'
      by (rule deliver_all_invariant_on [of E "dm_step io" P, OF _ that(2,1,3)]) (rule st)
    from cn True have "HandleRoutingActivationRequest io (dm_step io) now win1 win2 evs msg v = Returns (r, t, w', rest)"
      by (auto simp: TcpChannel_ConnectToHost_def TcpClient_ConnectToHost_eq v_def split: if_splits)
    with True obtain w2 w3 where
        w2: "deliver_all (dm_step io) win1 (v\<lparr>sent := sent v @ [compose_routing_activation_req msg]\<rparr>) = Inr w2"
      and w3: "deliver_all (dm_step io) win2 (ra_goto ra_kWaitForRoutingActivationRes w2) = Inr w3"
      and wt: "WaitForTimeout ra_timer ra_timer_update (dm_step io) ra_timeout_func ra_cancellation_func
         kDoIPRoutingActivationTimeout now w3 evs = Returns (r, t, w', rest)"
      by (auto simp: HandleRoutingActivationRequest_def SendRoutingActivationRequest_eq
          bind_call_Returns_iff call_of_run_Returns_iff split: if_splits)
    have p3: "P w3" by (rule lift [OF w3 ev(2) goto [OF _ lift [OF w2 ev(1) snt [OF pv]]]]) simp
    show ?thesis
      by (rule WaitForTimeout_keeps [where P = P and E = E, OF wt _ ev(3) arm [OF p3]])
         (rule st, assumption+, auto simp: ra_timeout_func_def ra_cancellation_func_def intro: goto)
  qed
qed

lemma Transmit_cv_part:
  assumes "TcpChannel_Transmit io (dm_step io) now win1 win2 evs msg w = Returns (r, t, w', rest)" and "cv_part_ok w"
  shows "cv_part_ok w'"
  by (rule Transmit_keeps [where E = UNIV and P = cv_part_ok, OF assms]) (use dm_step_cv_part in auto)

lemma Connect_cv_part:
  assumes "TcpChannel_ConnectToHost io (dm_step io) now win1 win2 evs msg w = Returns (r, t, w', rest)" and "cv_part_ok w"
  shows "cv_part_ok w'"
  by (rule Connect_keeps [where E = UNIV and P = cv_part_ok, OF assms]) (use dm_step_cv_part in auto)

text \<open>Both calls therefore keep the invariant of the conversation.\<close>

lemma Transmit_conv_ok:
  assumes "TcpChannel_Transmit io (dm_step io) now win1 win2 evs msg w = Returns (r, t, w', rest)" and "conv_ok w"
    and "set win1 \<subseteq> Collect by_reader" "set win2 \<subseteq> Collect by_reader" "events_of evs \<subseteq> Collect by_reader"
  shows "conv_ok w'" and "link_step\<^sup>*\<^sup>* (link w) (link w')"
proof -
  note r = dm_chan.Transmit_refines [OF assms(1) [unfolded dm_step_def] conv_okD(1,2) [OF assms(2)] assms(3-5)]
  show l: "link_step\<^sup>*\<^sup>* (link w) (link w')" by (rule r(2))
  have "cv_part_ok w'" by (rule Transmit_cv_part [OF assms(1)]) (use assms(2) in \<open>auto simp: conv_ok_parts chan_okD\<close>)
  with r(1) link_inv_reachable [OF l conv_okD(2) [OF assms(2)]] show "conv_ok w'" by (simp add: conv_ok_parts)
qed

lemma ConnectToHost_conv_ok:
  assumes "TcpChannel_ConnectToHost io (dm_step io) now win1 win2 evs msg w = Returns (r, t, w', rest)" and "conv_ok w"
    and "set win1 \<subseteq> Collect by_reader" "set win2 \<subseteq> Collect by_reader" "events_of evs \<subseteq> Collect by_reader"
  shows "conv_ok w'" and "link_step\<^sup>*\<^sup>* (link w) (link w')"
proof -
  note r = dm_chan.ConnectToHost_refines [OF assms(1) [unfolded dm_step_def] conv_okD(1,2) [OF assms(2)] assms(3-5)]
  show l: "link_step\<^sup>*\<^sup>* (link w) (link w')" by (rule r(2))
  have "cv_part_ok w'" by (rule Connect_cv_part [OF assms(1)]) (use assms(2) in \<open>auto simp: conv_ok_parts chan_okD\<close>)
  with r(1) link_inv_reachable [OF l conv_okD(2) [OF assms(2)]] show "conv_ok w'" by (simp add: conv_ok_parts)
qed

lemma Transmit_rest_events:
  assumes "TcpChannel_Transmit io step now win1 win2 evs msg w = Returns (r, t, w', rest)"
  shows "events_of rest \<subseteq> events_of evs"
  using assms
  by (auto simp: TcpChannel_Transmit_def HandleDiagnosticRequest_def dm_SendDiagnosticRequest_eq
      bind_call_Returns_iff split: if_splits dest: WaitForTimeout_rest_events [THEN subsetD])

text \<open>After the acknowledgement: the request ends with a verdict on the response.\<close>

lemma response_phase:
  assumes w2: "next_window (dm_step io) t w1 evs1 = Returns (t2, w2, evs2)"
    and w3: "next_window (dm_step io) t2 (cv_goto cv_kDiagWaitForRes w2) evs2 = Returns (t3, w3, evs3)"
    and wt: "WaitForTimeout cv_timer cv_timer_update (dm_step io) (p2_timeout_func res)
       (p2_cancellation_func res) (unat (p2_client_max w3)) t3 w3 evs3 = Returns (res', t4, w4, evs4)"
    and lp: "response_loop (dm_step io) t4 res' w4 evs4 = Returns (r, t', w', rest)"
    and ok: "conv_ok w1" and ev: "events_of evs1 \<subseteq> E \<inter> Collect by_reader"
  shows "verdict E (sent w1) r w'"
proof -
  let ?C = "\<lambda>v. conv_ok v \<and> sent v = sent w1"
  have c: "?C v'" if "e \<in> E \<inter> Collect by_reader" "dm_step io e v = Inr v'" "?C v" for e v v'
    using that dm_step_conv_ok(1,2) [OF that(2)] by auto
  have c2: "?C w2" and e2: "events_of evs2 \<subseteq> E \<inter> Collect by_reader"
    using next_window_inv [OF w2 ev, of ?C] c ok by blast+
  have "pending_inv E (sent w1) (cv_goto cv_kDiagWaitForRes w2)" using c2 by simp
  then have p3: "pending_inv E (sent w1) w3" and e3: "events_of evs3 \<subseteq> E \<inter> Collect by_reader"
    using next_window_inv [OF w3 e2, of "pending_inv E (sent w1)"] reader_pending by blast+
  have "(pending_inv E (sent w1) w4 \<and> res' = res \<and> t4 < t3 + unat (p2_client_max w3) \<or>
      verdict E (sent w1) res' w4 \<and> t3 + unat (p2_client_max w3) \<le> t4) \<and> events_of evs4 \<subseteq> E \<inter> Collect by_reader"
    by (rule cv_wait_round [OF wt e3 p3])
       (auto simp: p2_timeout_func_def p2_cancellation_func_def EmplaceError_def)
  then show ?thesis using response_loop_correct [OF lp] by blast
qed

text \<open>The frame a conversation sends for a request.\<close>

definition request_frame :: "UdsRequestMessage \<Rightarrow> dm_world \<Rightarrow> bytes" where
  "request_frame msg w =
     compose_diag_req (uds_message_down (source_address w) (target_address w) (req_host_ip msg) (req_payload msg))"

text \<open>Every way a request can end.\<close>

lemma SendDiagnosticRequest_cases:
  assumes ret: "SendDiagnosticRequest io now win1 win2 evs (Some msg) w = Returns (r, t, w', rest)"
    and ok: "conv_ok w"
    and rd: "set win1 \<subseteq> Collect by_reader" "set win2 \<subseteq> Collect by_reader" "events_of evs \<subseteq> Collect by_reader"
  obtains (Answered) "r = FromValue Rx_Buffer_Reference" "settled (events_of evs) w'"
      "IsRoutingActivated w" "sent w' = sent w @ [request_frame msg w]" "conv_ok w'" "cv_in cv_kIdle w'"
  | (No_Response) "r = FromError kDiagResponseTimeout"
      "IsRoutingActivated w" "sent w' = sent w @ [request_frame msg w]" "conv_ok w'" "cv_in cv_kIdle w'"
  | (Not_Sent) "r = FromError kDiagRequestSendFailed" "sent w' = sent w" "conv_ok w'"
      "\<not> IsRoutingActivated w \<or> \<not> asio_write io (request_frame msg w)"
  | (Busy) "r = FromError kDiagBusyProcessing" "w' = w" "IsRoutingActivated w" "\<not> dm_in dm_kIdle w"
  | (No_Ack) "r = FromError kDiagAckTimeout" "sent w' = sent w @ [request_frame msg w]"
      "dm_in dm_kIdle w'" "now + kDoIPDiagnosticAckTimeout \<le> t" "IsRoutingActivated w" "conv_ok w'"
  | (Negative_Ack) "r = FromError kDiagNegAckReceived" "sent w' = sent w @ [request_frame msg w]"
      "dm_in dm_kIdle w'" "IsRoutingActivated w" "conv_ok w'"
proof -
  let ?m = "uds_message_down (source_address w) (target_address w) (req_host_ip msg) (req_payload msg)"
  from ret obtain tr t1 w1 evs1 where tx:
      "TcpChannel_Transmit io (dm_step io) now win1 win2 evs ?m w = Returns (tr, t1, w1, evs1)"
    by (cases "TcpChannel_Transmit io (dm_step io) now win1 win2 evs ?m w")
       (auto simp: SendDiagnosticRequest_def Let_def)
  note body = ret [unfolded SendDiagnosticRequest_def Let_def, simplified, unfolded tx, simplified]
  have ok1: "conv_ok w1" using Transmit_conv_ok [OF tx ok rd] by simp
  have chan: "chan_ok w" "link_inv (link w)" using ok by (simp_all add: conv_okD)
  show thesis
  proof (cases "IsRoutingActivated w")
    case False
    with tx have "tr = kTransmitFailed" "w1 = w" by (simp_all add: TcpChannel_Transmit_def)
    with body False ok that(3) show thesis by (simp add: ConvertResponseType_def EmplaceError_def)
  next
    case act: True
    then have ra: "routing (link w) = ra_kRoutingActivationSuccessful"
      using chan by (simp add: IsRoutingActivated_def link_in)
    with chan have conn: "connection_state w = kConnected" by (auto simp: link_inv_def)
    from tx act have "HandleDiagnosticRequest io (channel_step io DmConversationHandler) now win1 win2 evs ?m w
        = Returns (tr, t1, w1, evs1)"
      by (simp add: TcpChannel_Transmit_def dm_step_def)
    from this chan(1) conn ra rd show thesis
    proof (cases rule: dm_chan.diagnostic_cases)
      case Unsent
      with body ok1 that(3) show thesis
        by (auto simp: ConvertResponseType_def EmplaceError_def request_frame_def)
    next
      case Busy
      with body act chan that(4) show thesis
        by (auto simp: ConvertResponseType_def EmplaceError_def link_in)
    next
      case Sent
      have sent1: "sent w1 = sent w @ [request_frame msg w]" and c1: "chan_ok w1"
        using Sent(3) by (simp_all add: tracks_def request_frame_def)
      from Sent(5) consider "tr = kTransmitOk"
        | "tr = kNegTransmitAckReceived" "diag (link w1) = dm_kIdle"
        | "tr = kNoTransmitAckReceived" "diag (link w1) = dm_kIdle" "now + kDoIPDiagnosticAckTimeout \<le> t1" by blast
      then show thesis
      proof cases
        case 1
        with body obtain t2 w2 evs2 t3 w3 evs3 res' t4 w4 evs4 where
            ph: "next_window (dm_step io) t1 w1 evs1 = Returns (t2, w2, evs2)"
            "next_window (dm_step io) t2 (cv_goto cv_kDiagWaitForRes w2) evs2 = Returns (t3, w3, evs3)"
            "WaitForTimeout cv_timer cv_timer_update (dm_step io) (p2_timeout_func (FromError kDiagRequestSendFailed))
              (p2_cancellation_func (FromError kDiagRequestSendFailed)) (unat (p2_client_max w3)) t3 w3 evs3
              = Returns (res', t4, w4, evs4)"
            "response_loop (dm_step io) t4 res' w4 evs4 = Returns (r, t, w', rest)"
          by (auto simp: bind_call_Returns_iff)
        have "events_of evs1 \<subseteq> events_of evs \<inter> Collect by_reader"
          using Transmit_rest_events [OF tx] rd(3) by blast
        from response_phase [OF ph ok1 this] have v: "verdict (events_of evs) (sent w1) r w'" .
        with sent1 act that(1,2) show thesis by (auto simp: verdict_def)
      next
        case 2
        with body sent1 c1 ok1 act that(6) show thesis
          by (auto simp: ConvertResponseType_def EmplaceError_def link_in)
      next
        case 3
        with body sent1 c1 ok1 act that(5) show thesis
          by (auto simp: ConvertResponseType_def EmplaceError_def link_in)
      qed
    qed
  qed
qed

end
