(* ===== verification/Application.thy ===== *)
theory Application
  imports Conversation_Correct
begin

text \<open>
  The application on top of a diagnostic conversation: any sequence of its calls, with the
  reader thread running during and between them, as a step relation; the invariant of every
  reachable state, and the order of the frames on the wire.
\<close>

section \<open>Between two calls\<close>

text \<open>
  Between two calls of one application thread no call waits: routing is activated or not, and
  the diagnostic handler is idle or waits for a response.
\<close>

definition quiet :: "link \<Rightarrow> bool" where
  "quiet l \<longleftrightarrow> routing l \<in> {ra_kIdle, ra_kRoutingActivationSuccessful} \<and>
     diag l \<in> {dm_kIdle, dm_kWaitForDiagnosticResponse}"

definition app_inv :: "dm_world \<Rightarrow> bool" where
  "app_inv w \<longleftrightarrow> conv_ok w \<and> quiet (link w)"

lemma quiet_reader: "reader_move l l' \<Longrightarrow> quiet l \<Longrightarrow> quiet l'"
  by (auto simp: quiet_def elim!: reader_moveE)

lemma app_inv_new: "app_inv (new_DmConversation conf)"
  by (simp add: app_inv_def conv_ok_new new_link link_down_def quiet_def)

lemma app_inv_reader:
  assumes "dm_step io e w = Inr w'" and "by_reader e" and "app_inv w"
  shows "app_inv w'" and "sent w' = sent w" and "routing (link w') = routing (link w)"
  using dm_step_conv_ok [OF assms(1,2)] assms(3) quiet_reader
  by (auto simp: app_inv_def quiet_def elim!: reader_moveE)

text \<open>
  What the reader keeps and the conversation's own steps keep holds when the wait for the
  response is over.
\<close>

lemma cv_wait_keeps:
  assumes wt: "WaitForTimeout cv_timer cv_timer_update step tf cf timeout now w evs = Returns (r, t, w', rest)"
    and st: "\<And>e v v'. e \<in> E \<Longrightarrow> step e v = Inr v' \<Longrightarrow> P v \<Longrightarrow> P v'"
    and goto: "\<And>s v. P v \<Longrightarrow> P (cv_goto s v)" and arm: "\<And>v. P v \<Longrightarrow> P (cv_timer_update SyncTimer_arm v)"
    and cb: "\<And>v. snd (tf v) = v \<or> (\<exists>s. snd (tf v) = cv_goto s v)" "\<And>v. snd (cf v) = v \<or> (\<exists>s. snd (cf v) = cv_goto s v)"
    and ev: "events_of evs \<subseteq> E" and p: "P w"
  shows "P w' \<and> events_of rest \<subseteq> E"
proof -
  have "P w'"
    by (rule WaitForTimeout_keeps [where P = P and E = E, OF wt _ ev arm [OF p]]) (rule st, assumption+, metis cb goto, metis cb goto)
  with WaitForTimeout_rest_events [OF wt] ev show ?thesis by blast
qed

lemma callbacks_keep:
  "snd (p2_timeout_func res v) = v \<or> (\<exists>s. snd (p2_timeout_func res v) = cv_goto s v)"
  "snd (p2_cancellation_func res v) = v \<or> (\<exists>s. snd (p2_cancellation_func res v) = cv_goto s v)"
  "snd (p2_star_timeout_func res v) = v \<or> (\<exists>s. snd (p2_star_timeout_func res v) = cv_goto s v)"
  "snd (p2_star_cancellation_func res v) = v \<or> (\<exists>s. snd (p2_star_cancellation_func res v) = cv_goto s v)"
  by (auto simp: p2_timeout_func_def p2_cancellation_func_def p2_star_timeout_func_def p2_star_cancellation_func_def)

lemma response_loop_keeps:
  assumes "response_loop step now res w evs = Returns (r, t, w', rest)"
    and st: "\<And>e v v'. e \<in> E \<Longrightarrow> step e v = Inr v' \<Longrightarrow> P v \<Longrightarrow> P v'"
    and goto: "\<And>s v. P v \<Longrightarrow> P (cv_goto s v)" and arm: "\<And>v. P v \<Longrightarrow> P (cv_timer_update SyncTimer_arm v)"
    and "events_of evs \<subseteq> E" and "P w"
  shows "P w'"
  using assms(1,5,6)
proof (induction "length evs" arbitrary: now res w evs rule: less_induct)
  case less
  note ret = less.prems(1) and ev = less.prems(2)
  from ret obtain s where gs: "GetActiveState (cv_context w) = Inr s"
    by (cases "GetActiveState (cv_context w)") (auto simp: response_loop.simps [of _ now res w evs])
  show ?case
  proof (cases "s = cv_kIdle")
    case True
    with ret less.prems(3) gs show ?thesis by (auto simp: response_loop.simps [of _ now res w evs])
  next
    case False
    have ne: "evs \<noteq> []" using ret gs False by (auto simp: response_loop.simps [of _ now res w evs])
    from ret gs False ne obtain t1 w1 evs1 where win: "next_window step now w evs = Returns (t1, w1, evs1)"
      by (cases "next_window step now w evs") (auto simp: response_loop.simps [of _ now res w evs])
    note body = ret [unfolded response_loop.simps [of _ now res w evs] gs, simplified, simplified False ne win, simplified]
    have p1: "P w1" and ev1: "events_of evs1 \<subseteq> E"
      using next_window_inv [of step now w evs t1 w1 evs1 E P] win ev less.prems(3) st by blast+
    have sh: "length evs1 < length evs" by (rule next_window_consumes [OF win ne])
    show ?thesis
    proof (cases s)
      case cv_kDiagStartP2StarTimer
      with body obtain r2 t2 w2 evs2 where wt: "WaitForTimeout cv_timer cv_timer_update step
            (p2_star_timeout_func res) (p2_star_cancellation_func res) (unat (p2_star_client_max w1)) t1 w1 evs1
            = Returns (r2, t2, w2, evs2)"
        and l: "response_loop step t2 r2 w2 evs2 = Returns (r, t, w', rest)"
        by (auto simp: bind_call_Returns_iff)
      have k: "P w2 \<and> events_of evs2 \<subseteq> E"
        by (rule cv_wait_keeps [where P = P and step = step, OF wt _ _ _ callbacks_keep(3,4) ev1 p1]) (blast intro: st goto arm)+
      have sh2: "length evs2 < length evs" using sh WaitForTimeout_rest [OF wt] by simp
      show ?thesis by (rule less.hyps [OF sh2 l]) (use k in blast)+
    qed (use body False less.hyps [OF sh _ ev1] p1 goto in auto)
  qed
qed

section \<open>What the calls keep\<close>

text \<open>A call of \<open>SendDiagnosticRequest\<close> is a transmission, perhaps followed by a wait for the response.\<close>

lemma Send_keeps:
  assumes ret: "SendDiagnosticRequest io now win1 win2 evs (Some msg) w = Returns (r, t, w', rest)"
    and ev: "events_of evs \<subseteq> E"
    and st: "\<And>e v v'. e \<in> E \<Longrightarrow> dm_step io e v = Inr v' \<Longrightarrow> P v \<Longrightarrow> P v'"
    and goto: "\<And>s v. P v \<Longrightarrow> P (cv_goto s v)" and arm: "\<And>v. P v \<Longrightarrow> P (cv_timer_update SyncTimer_arm v)"
    and tx: "\<And>tr t1 w1 evs1. TcpChannel_Transmit io (dm_step io) now win1 win2 evs
      (uds_message_down (source_address w) (target_address w) (req_host_ip msg) (req_payload msg)) w
      = Returns (tr, t1, w1, evs1) \<Longrightarrow> P w1"
  shows "P w'"
proof -
  let ?m = "uds_message_down (source_address w) (target_address w) (req_host_ip msg) (req_payload msg)"
  from ret obtain tr t1 w1 evs1 where x:
      "TcpChannel_Transmit io (dm_step io) now win1 win2 evs ?m w = Returns (tr, t1, w1, evs1)"
    by (cases "TcpChannel_Transmit io (dm_step io) now win1 win2 evs ?m w")
       (auto simp: SendDiagnosticRequest_def Let_def)
  note body = ret [unfolded SendDiagnosticRequest_def Let_def, simplified, unfolded x, simplified]
  have p1: "P w1" by (rule tx [OF x])
  have ev1: "events_of evs1 \<subseteq> E" using Transmit_rest_events [OF x] ev by blast
  show ?thesis
  proof (cases "tr = kTransmitOk")
    case False
    with body p1 show ?thesis by simp
  next
    case True
    with body obtain t2 w2 evs2 t3 w3 evs3 res' t4 w4 evs4 where
        w2: "next_window (dm_step io) t1 w1 evs1 = Returns (t2, w2, evs2)"
      and w3: "next_window (dm_step io) t2 (cv_goto cv_kDiagWaitForRes w2) evs2 = Returns (t3, w3, evs3)"
      and wt: "WaitForTimeout cv_timer cv_timer_update (dm_step io) (p2_timeout_func (FromError kDiagRequestSendFailed))
          (p2_cancellation_func (FromError kDiagRequestSendFailed)) (unat (p2_client_max w3)) t3 w3 evs3
          = Returns (res', t4, w4, evs4)"
      and lp: "response_loop (dm_step io) t4 res' w4 evs4 = Returns (r, t, w', rest)"
      by (auto simp: bind_call_Returns_iff)
    have 2: "P w2" "events_of evs2 \<subseteq> E"
      by (rule next_window_inv [OF w2 ev1, of P], rule p1, rule st, assumption+)+
    have 3: "P w3" "events_of evs3 \<subseteq> E"
      by (rule next_window_inv [OF w3 2(2), of P], rule goto, rule 2, rule st, assumption+)+
    have "P w4 \<and> events_of evs4 \<subseteq> E"
      by (rule cv_wait_keeps [where P = P and step = "dm_step io", OF wt _ _ _ callbacks_keep(1,2) 3(2,1)])
         (blast intro: st goto arm)+
    then show ?thesis
      by (intro response_loop_keeps [where P = P and E = E, OF lp]) (blast intro: st goto arm)+
  qed
qed

text \<open>The frames on the wire: a diagnostic request leaves after a routing activation request.\<close>

fun activation_first :: "bool \<Rightarrow> bytes list \<Rightarrow> bool" where
  "activation_first asked [] \<longleftrightarrow> True"
| "activation_first asked (f # fs) \<longleftrightarrow>
     (take 2 (drop 2 f) = [u16_hi kDoipDiagMessage, u16_lo kDoipDiagMessage] \<longrightarrow> asked) \<and>
     activation_first (asked \<or> take 2 (drop 2 f) = [u16_hi kDoip_RoutingActivation_ReqType, u16_lo kDoip_RoutingActivation_ReqType]) fs"

definition asked_activation :: "bytes list \<Rightarrow> bool" where
  "asked_activation fs \<longleftrightarrow>
     (\<exists>f \<in> set fs. take 2 (drop 2 f) = [u16_hi kDoip_RoutingActivation_ReqType, u16_lo kDoip_RoutingActivation_ReqType])"

lemma frame_types:
  "take 2 (drop 2 (compose_routing_activation_req msg)) =
     [u16_hi kDoip_RoutingActivation_ReqType, u16_lo kDoip_RoutingActivation_ReqType]"
  "take 2 (drop 2 (compose_diag_req msg)) = [u16_hi kDoipDiagMessage, u16_lo kDoipDiagMessage]"
  by (simp_all add: compose_routing_activation_req_def ra_CreateDoipGenericHeader_def
      compose_diag_req_def dm_CreateDoipGenericHeader_def Let_def)

lemma activation_first_append:
  "activation_first asked (fs @ [f]) \<longleftrightarrow> activation_first asked fs \<and>
     (take 2 (drop 2 f) = [u16_hi kDoipDiagMessage, u16_lo kDoipDiagMessage] \<longrightarrow> asked \<or> asked_activation fs)"
  by (induction fs arbitrary: asked) (auto simp: asked_activation_def)

lemma asked_activation_append [simp]:
  "asked_activation (fs @ [compose_routing_activation_req msg])"
  "asked_activation fs \<Longrightarrow> asked_activation (fs @ gs)"
  by (auto simp: asked_activation_def frame_types)

definition wire_inv :: "dm_world \<Rightarrow> bool" where
  "wire_inv w \<longleftrightarrow> activation_first False (sent w) \<and> (routing (link w) \<noteq> ra_kIdle \<longrightarrow> asked_activation (sent w))"

section \<open>Steps of the application\<close>

definition reader_only :: "channel_event list \<Rightarrow> channel_event list \<Rightarrow> (nat \<times> channel_event list) list \<Rightarrow> bool" where
  "reader_only win1 win2 evs \<longleftrightarrow> list_all by_reader win1 \<and> list_all by_reader win2 \<and>
     list_all (\<lambda>b. list_all by_reader (snd b)) evs"

lemma reader_onlyD:
  assumes "reader_only win1 win2 evs"
  shows "set win1 \<subseteq> Collect by_reader" "set win2 \<subseteq> Collect by_reader" "events_of evs \<subseteq> Collect by_reader"
  using assms by (auto simp: reader_only_def list_all_iff events_of_def)

inductive app_step :: "asio_io \<Rightarrow> dm_world \<Rightarrow> dm_world \<Rightarrow> bool" for io where
  startup: "DmConversation_Startup io w = Inr w' \<Longrightarrow> app_step io w w'"
| shutdown: "DmConversation_Shutdown io w = Inr w' \<Longrightarrow> app_step io w w'"
| connect: "ConnectToDiagServer io now win1 win2 evs target ip w = Returns (r, t, w', rest) \<Longrightarrow>
     reader_only win1 win2 evs \<Longrightarrow> app_step io w w'"
| disconnect: "app_step io w (snd (DisconnectFromDiagServer io w))"
| send: "SendDiagnosticRequest io now win1 win2 evs message w = Returns (r, t, w', rest) \<Longrightarrow>
     reader_only win1 win2 evs \<Longrightarrow> app_step io w w'"
| background: "dm_step io e w = Inr w' \<Longrightarrow> by_reader e \<Longrightarrow> app_step io w w'"

inductive_cases app_stepE: "app_step io w w'"

definition app_reachable :: "asio_io \<Rightarrow> DMConversationType \<Rightarrow> dm_world \<Rightarrow> bool" where
  "app_reachable io conf w \<longleftrightarrow> (app_step io)\<^sup>*\<^sup>* (new_DmConversation conf) w"

lemma conv_fields_ok [simp]:
  "conv_ok (w\<lparr>activity_status := a\<rparr>) = conv_ok w" "chan_ok (w\<lparr>activity_status := a\<rparr>) = chan_ok w" "link (w\<lparr>activity_status := a\<rparr>) = link w"
  "conv_ok (w\<lparr>remote_address := ip, target_address := ta\<rparr>) = conv_ok w"
  "link (w\<lparr>remote_address := ip, target_address := ta\<rparr>) = link w"
  "sent (w\<lparr>activity_status := a\<rparr>) = sent w" "sent (w\<lparr>remote_address := ip, target_address := ta\<rparr>) = sent w"
  by (simp_all add: conv_ok_def link_def chan_ok_def cv_known_def cv_in_def ra_known_def dm_known_def ra_in_def dm_in_def)

lemma Startup_facts:
  assumes "DmConversation_Startup io w = Inr w'"
  shows "conv_ok w \<Longrightarrow> conv_ok w'" "link w' = link w" "sent w' = sent w"
  using assms
  by (auto simp: DmConversation_Startup_def TcpChannel_Start_def TcpChannelHandler_Start_def TcpClient_Initialize_eq
      DiagnosticMessageHandler_Start_def RoutingActivationHandler_Start_def conv_ok_parts cv_part_ok_def cv_known_def cv_in_def
      split: if_splits)

lemma Stop_cv_part: "TcpChannel_Stop io w = Inr w' \<Longrightarrow> cv_part_ok w' = cv_part_ok w"
  by (rule cv_part_more) (auto simp: TcpChannel_Stop_eq split: if_splits)

lemma Stop_facts:
  assumes "app_inv w" and stop: "TcpChannel_Stop io w = Inr w'"
  shows "app_inv w'" and "sent w' = sent w" and "routing (link w') = ra_kIdle"
proof -
  have ok: "chan_ok w" using assms by (simp add: app_inv_def conv_okD)
  with stop have l: "link w' = \<lparr>connected = (connection_state w = kConnected), routing = ra_kIdle, diag = dm_kIdle\<rparr>"
    by (auto simp: TcpChannel_Stop_eq split: if_splits)
  have "link_inv (link w')" by (simp add: l link_inv_def)
  with Stop_refines(1) [OF ok stop] Stop_cv_part [OF stop] assms(1) l show "app_inv w'"
    by (simp add: app_inv_def conv_ok_parts quiet_def)
  show "sent w' = sent w" "routing (link w') = ra_kIdle"
    using ok l stop by (auto simp: TcpChannel_Stop_eq split: if_splits)
qed

lemma Disconnect_facts:
  assumes "app_inv w"
  shows "app_inv (snd (DisconnectFromDiagServer io w))"
    and "sent (snd (DisconnectFromDiagServer io w)) = sent w"
    and "routing (link (snd (DisconnectFromDiagServer io w))) = ra_kIdle"
    and "\<not> TcpChannel_IsConnectedToHost (snd (DisconnectFromDiagServer io w))"
    and "diag (link (snd (DisconnectFromDiagServer io w))) = dm_kIdle"
proof -
  have ok: "chan_ok w" "link_inv (link w)" "quiet (link w)" "cv_part_ok w"
    using assms by (auto simp: app_inv_def conv_ok_parts)
  let ?w = "snd (DisconnectFromDiagServer io w)"
  have more: "diag_handler.more ?w = diag_handler.more w"
    by (auto simp: DisconnectFromDiagServer_def TcpChannel_DisconnectFromHost_eq Let_def split: prod.splits if_splits)
  have ch: "chan_ok ?w \<and> link_inv (link ?w) \<and> sent ?w = sent w \<and> routing (link ?w) = ra_kIdle \<and>
      diag (link ?w) = dm_kIdle \<and> connection_state ?w \<noteq> kConnected"
    using ok
    by (auto simp: DisconnectFromDiagServer_def TcpChannel_DisconnectFromHost_eq TcpChannel_IsConnectedToHost_def
        TcpClient_IsConnectedToHost_def Let_def link_in link_inv_def quiet_def split: prod.splits if_splits)
  then show "app_inv ?w" using cv_part_more [OF more] ok(4) by (simp add: app_inv_def conv_ok_parts quiet_def)
  show "sent ?w = sent w" "routing (link ?w) = ra_kIdle" "\<not> TcpChannel_IsConnectedToHost ?w" "diag (link ?w) = dm_kIdle"
    using ch by (auto simp: TcpChannel_IsConnectedToHost_def TcpClient_IsConnectedToHost_def)
qed

text \<open>After a call that connects, and after one that transmits.\<close>

lemma Connect_link:
  assumes ret: "TcpChannel_ConnectToHost io (dm_step io) now win1 win2 evs msg w = Returns (r, t, w', rest)"
    and inv: "app_inv w" and rd: "reader_only win1 win2 evs"
  shows "quiet (link w')" and "sent w' = sent w \<or> sent w' = sent w @ [compose_routing_activation_req msg]"
    and "routing (link w') \<noteq> ra_kIdle \<Longrightarrow> routing (link w) = ra_kIdle \<Longrightarrow> sent w' = sent w @ [compose_routing_activation_req msg]"
    and "r = kConnectionOk \<Longrightarrow> routing (link w) = ra_kIdle \<and> routing (link w') = ra_kRoutingActivationSuccessful \<and>
      connection_state w' = kConnected"
    and "r = kConnectionTimeout \<Longrightarrow> routing (link w') = ra_kIdle \<and> now + kDoIPRoutingActivationTimeout \<le> t"
proof -
  have ok: "chan_ok w" "link_inv (link w)" "quiet (link w)" using inv by (auto simp: app_inv_def conv_okD)
  have "quiet (link w') \<and> (sent w' = sent w \<or> sent w' = sent w @ [compose_routing_activation_req msg]) \<and>
    (routing (link w') \<noteq> ra_kIdle \<longrightarrow> routing (link w) = ra_kIdle \<longrightarrow> sent w' = sent w @ [compose_routing_activation_req msg]) \<and>
    (r = kConnectionOk \<longrightarrow> routing (link w) = ra_kIdle \<and> routing (link w') = ra_kRoutingActivationSuccessful \<and>
      connection_state w' = kConnected) \<and>
    (r = kConnectionTimeout \<longrightarrow> routing (link w') = ra_kIdle \<and> now + kDoIPRoutingActivationTimeout \<le> t)"
  proof (cases "connection_state w = kConnected \<or> asio_connect io (uds_host_ip msg) (uds_host_port msg)")
    case False
    with ret ok show ?thesis by (auto simp: TcpChannel_ConnectToHost_def TcpClient_ConnectToHost_eq split: if_splits)
  next
    case True
    define v where "v = (if connection_state w = kConnected then w else w\<lparr>running := True, connection_state := kConnected\<rparr>)"
    have v: "chan_ok v" "connection_state v = kConnected" "sent v = sent w"
      "routing (link v) = routing (link w)" "diag (link v) = diag (link w)"
      using ok by (auto simp: v_def)
    from True ret have h: "HandleRoutingActivationRequest io (channel_step io DmConversationHandler) now win1 win2 evs msg v
        = Returns (r, t, w', rest)"
      by (auto simp: TcpChannel_ConnectToHost_def TcpClient_ConnectToHost_eq v_def dm_step_def split: if_splits)
    show ?thesis
    proof (cases "routing (link w) = ra_kIdle")
      case False
      with h v have "w' = v \<and> r = kConnectionFailed" by (auto simp: HandleRoutingActivationRequest_def link_in)
      with v ok False show ?thesis by (simp add: quiet_def)
    next
      case idle: True
      with ok v have "diag (link v) = dm_kIdle" by (auto simp: link_inv_def)
      from h v(1,2) this reader_onlyD [OF rd] show ?thesis
      proof (cases rule: dm_chan.activation_cases)
        case Unsent
        with v ok idle show ?thesis by (simp add: quiet_def)
      next
        case Sent
        with v idle show ?thesis by (auto simp: tracks_def quiet_def)
      next
        case Busy
        with v idle show ?thesis by simp
      qed
    qed
  qed
  then show "quiet (link w')" and "sent w' = sent w \<or> sent w' = sent w @ [compose_routing_activation_req msg]"
    and "routing (link w') \<noteq> ra_kIdle \<Longrightarrow> routing (link w) = ra_kIdle \<Longrightarrow> sent w' = sent w @ [compose_routing_activation_req msg]"
    and "r = kConnectionOk \<Longrightarrow> routing (link w) = ra_kIdle \<and> routing (link w') = ra_kRoutingActivationSuccessful \<and>
      connection_state w' = kConnected"
    and "r = kConnectionTimeout \<Longrightarrow> routing (link w') = ra_kIdle \<and> now + kDoIPRoutingActivationTimeout \<le> t"
    by blast+
qed

lemma Transmit_link:
  assumes ret: "TcpChannel_Transmit io (dm_step io) now win1 win2 evs msg w = Returns (r, t, w', rest)"
    and inv: "app_inv w" and rd: "reader_only win1 win2 evs"
  shows "app_inv w'" and "routing (link w') = routing (link w)"
    and "sent w' = sent w \<or> sent w' = sent w @ [compose_diag_req msg] \<and> routing (link w) \<noteq> ra_kIdle"
proof -
  have ok: "conv_ok w" "chan_ok w" "link_inv (link w)" "quiet (link w)" using inv by (auto simp: app_inv_def conv_okD)
  note c = Transmit_conv_ok [OF ret ok(1) reader_onlyD [OF rd]]
  have "quiet (link w') \<and> routing (link w') = routing (link w) \<and>
    (sent w' = sent w \<or> sent w' = sent w @ [compose_diag_req msg] \<and> routing (link w) \<noteq> ra_kIdle)"
  proof (cases "routing (link w) = ra_kRoutingActivationSuccessful")
    case False
    with ret ok show ?thesis by (auto simp: TcpChannel_Transmit_def IsRoutingActivated_def link_in)
  next
    case True
    with ret ok have h: "HandleDiagnosticRequest io (channel_step io DmConversationHandler) now win1 win2 evs msg w
        = Returns (r, t, w', rest)"
      by (auto simp: TcpChannel_Transmit_def IsRoutingActivated_def link_in dm_step_def)
    from True ok have "connection_state w = kConnected" by (auto simp: link_inv_def)
    from h ok(2) this True reader_onlyD [OF rd] show ?thesis
    proof (cases rule: dm_chan.diagnostic_cases)
      case Unsent
      with ok True show ?thesis by (simp add: quiet_def)
    next
      case Sent
      with True show ?thesis by (auto simp: tracks_def quiet_def)
    next
      case Busy
      with ok show ?thesis by simp
    qed
  qed
  with c(1) show "app_inv w'" and "routing (link w') = routing (link w)"
    and "sent w' = sent w \<or> sent w' = sent w @ [compose_diag_req msg] \<and> routing (link w) \<noteq> ra_kIdle"
    by (auto simp: app_inv_def)
qed

lemma app_inv_cv [simp]:
  "app_inv w \<Longrightarrow> app_inv (cv_goto s w)" "app_inv w \<Longrightarrow> app_inv (cv_timer_update SyncTimer_arm w)"
  by (simp_all add: app_inv_def)

lemma wire_inv_cv [simp]:
  "wire_inv (cv_goto s w) = wire_inv w" "wire_inv (cv_timer_update f w) = wire_inv w"
  by (simp_all add: wire_inv_def)

text \<open>One step of the application keeps both invariants.\<close>

lemma app_step_keeps:
  assumes "app_step io w w'" and inv: "app_inv w" and wire: "wire_inv w"
  shows "app_inv w' \<and> wire_inv w'"
  using assms(1)
proof cases
  case startup
  then show ?thesis using inv wire by (simp add: app_inv_def wire_inv_def Startup_facts [OF startup])
next
  case shutdown
  then show ?thesis
    using inv wire Stop_facts [OF inv, of io]
    by (auto simp: DmConversation_Shutdown_def app_inv_def wire_inv_def bind_run_Inr_iff split: if_splits)
next
  case (connect now win1 win2 evs target ip r t rest)
  let ?m = "uds_message_down (source_address w) target ip []"
  from connect(1) obtain r0 w0 where c: "TcpChannel_ConnectToHost io (dm_step io) now win1 win2 evs ?m w = Returns (r0, t, w0, rest)"
    and w': "w' = w0\<lparr>remote_address := ip, target_address := target\<rparr>"
    by (auto simp: ConnectToDiagServer_def bind_call_Returns_iff)
  have "conv_ok w0"
    using ConnectToHost_conv_ok(1) [OF c _ reader_onlyD [OF connect(2)]] inv by (simp add: app_inv_def)
  moreover note l = Connect_link [OF c inv connect(2)]
  moreover have "wire_inv w0"
    using l(2,3) wire by (auto simp: wire_inv_def activation_first_append frame_types doip_consts u16_hi_def u16_lo_def)
  ultimately show ?thesis by (simp add: w' app_inv_def wire_inv_def)
next
  case disconnect
  with Disconnect_facts [OF inv, of io] wire show ?thesis by (simp add: wire_inv_def)
next
  case (send now win1 win2 evs message r t rest)
  show ?thesis
  proof (cases message)
    case None
    with send inv wire show ?thesis by (simp add: SendDiagnosticRequest_def Let_def)
  next
    case (Some msg)
    let ?P = "\<lambda>v. app_inv v \<and> wire_inv v"
    show ?thesis
    proof (rule Send_keeps [where P = ?P, OF send(1) [unfolded Some] reader_onlyD(3) [OF send(2)]], goal_cases)
      case (1 e v v')
      then show ?case using app_inv_reader [OF 1(2)] by (simp add: wire_inv_def)
    next
      case (4 tr t1 w1 evs1)
      note l = Transmit_link [OF 4 inv send(2)]
      then show ?case using wire by (auto simp: wire_inv_def activation_first_append)
    qed simp_all
  qed
next
  case (background e)
  with app_inv_reader [OF background] inv wire show ?thesis by (simp add: wire_inv_def)
qed

lemma app_reachable_inv:
  assumes "app_reachable io conf w"
  shows "app_inv w \<and> wire_inv w"
  using assms unfolding app_reachable_def
proof (induction rule: rtranclp_induct)
  case base
  show ?case
    using app_inv_new [of conf] new_link [of conf]
    by (simp add: wire_inv_def link_down_def) (simp add: new_DmConversation_def)
next
  case (step y z)
  then show ?case using app_step_keeps by blast
qed

end
