(* ===== verification/Scenario.thy ===== *)
theory Scenario
  imports Application
begin

text \<open>
  A concrete run of the library, on which the properties are instantiated: a network on which
  every call succeeds, a server that activates routing, acknowledges a request and answers it.
\<close>

definition io_ok :: asio_io where
  "io_ok = \<lparr>asio_open = True, asio_options = True, asio_bind = True, asio_local_endpoint = True,
     asio_address = (\<lambda>ip. True), asio_connect = (\<lambda>ip port. True), asio_endpoint_connected = True,
     asio_shutdown = True,
     asio_write = (\<lambda>bs. True), asio_endpoint_written = (\<lambda>bs. True), asio_close = True\<rparr>"

definition demo_conf :: DMConversationType where
  "demo_conf = \<lparr>conf_p2_client_max = 50, conf_p2_star_client_max = 500, conf_source_address = 0x0E80,
     conf_rx_buffer_size = 100, conf_tcp_address = ''172.16.25.127'', conf_port_num = 0, conf_handler_id = 0\<rparr>"

definition rx :: "bytes \<Rightarrow> channel_event" where
  "rx p = Rx_Frame ''172.16.25.128'' 13400 p"

definition ra_frame :: bytes where
  "ra_frame = tcp_frame kDoip_RoutingActivation_ResType 9 0x0E80 0x1234 [0x10, 0, 0, 0, 0]"
definition ack_frame :: bytes where
  "ack_frame = tcp_frame kDoipDiagMessagePosAck 5 0x1234 0x0E80 [0x00]"
definition pending_frame :: bytes where
  "pending_frame = tcp_frame kDoipDiagMessage 7 0x1234 0x0E80 [0x7F, 0x22, 0x78]"
definition response_frame :: bytes where
  "response_frame = tcp_frame kDoipDiagMessage 7 0x1234 0x0E80 [0x62, 0xF1, 0x90]"

definition demo_start :: dm_world where
  "demo_start =
     (case DmConversation_Startup io_ok (new_DmConversation demo_conf) of
        Inr w \<Rightarrow> w | Inl e \<Rightarrow> new_DmConversation demo_conf)"

definition demo_active :: dm_world where
  "demo_active =
     (case ConnectToDiagServer io_ok 0 [] [] [(5, [rx ra_frame])] 0x1234 ''172.16.25.128'' demo_start of
        Returns (r, t, w, rest) \<Rightarrow> w | _ \<Rightarrow> demo_start)"

definition demo_request :: UdsRequestMessage where
  "demo_request = \<lparr>req_host_ip = ''172.16.25.128'', req_payload = [0x22, 0xF1, 0x90]\<rparr>"

definition demo_schedule :: "(nat \<times> channel_event list) list" where
  "demo_schedule =
     [(10, [rx ack_frame]), (11, []), (12, []), (30, [rx pending_frame]), (31, []), (200, [rx response_frame]),
      (201, [])]"

definition demo_done :: dm_world where
  "demo_done =
     (case SendDiagnosticRequest io_ok 0 [] [] demo_schedule (Some demo_request) demo_active of
        Returns (r, t, w, rest) \<Rightarrow> w | _ \<Rightarrow> demo_active)"

lemmas demo_defs = io_ok_def demo_conf_def rx_def ra_frame_def ack_frame_def pending_frame_def response_frame_def
  demo_request_def demo_schedule_def

text \<open>The run, evaluated.\<close>

lemma demo_starts: "DmConversation_Startup io_ok (new_DmConversation demo_conf) = Inr demo_start"
  by code_simp

lemma demo_connects:
  "ConnectToDiagServer io_ok 0 [] [] [(5, [rx ra_frame])] 0x1234 ''172.16.25.128'' demo_start =
     Returns (kConnectSuccess, 5, demo_active, [])"
  by code_simp

lemma demo_answers:
  "SendDiagnosticRequest io_ok 0 [] [] demo_schedule (Some demo_request) demo_active =
     Returns (FromValue Rx_Buffer_Reference, 201, demo_done, [])"
  by code_simp

lemma demo_reachable:
  "app_reachable io_ok demo_conf demo_start" "app_reachable io_ok demo_conf demo_active"
  "app_reachable io_ok demo_conf demo_done"
proof -
  have s: "(app_step io_ok)\<^sup>*\<^sup>* (new_DmConversation demo_conf) demo_start"
    by (rule r_into_rtranclp) (rule app_step.startup [OF demo_starts])
  moreover have "app_step io_ok demo_start demo_active"
    by (rule app_step.connect [OF demo_connects]) (simp add: reader_only_def rx_def)
  moreover have "app_step io_ok demo_active demo_done"
    by (rule app_step.send [OF demo_answers]) (simp add: reader_only_def rx_def demo_schedule_def)
  ultimately show "app_reachable io_ok demo_conf demo_start" "app_reachable io_ok demo_conf demo_active"
    "app_reachable io_ok demo_conf demo_done"
    by (auto simp: app_reachable_def intro: rtranclp.rtrancl_into_rtrancl)
qed

lemma demo_conv_ok: "conv_ok demo_start" "conv_ok demo_active" "conv_ok demo_done"
  using app_reachable_inv demo_reachable by (auto simp: app_inv_def)

end
