(* ===== verification/Liveness.thy ===== *)
theory Liveness
  imports Scenario
begin

text \<open>
  A request always comes back: once the network has fallen silent, whatever happened before, the
  call returns after a bounded time. The silence is a tail of the schedule: batches without events,
  spaced by more than the longest timeout.
\<close>

section \<open>Silence\<close>

fun silent :: "nat \<Rightarrow> nat \<Rightarrow> (nat \<times> 'ev list) list \<Rightarrow> bool" where
  "silent d now [] \<longleftrightarrow> True"
| "silent d now ((t, es) # q) \<longleftrightarrow> es = [] \<and> now + d \<le> t \<and> silent d t q"

lemma silent_late: "silent d now q \<Longrightarrow> b \<in> set q \<Longrightarrow> now + d \<le> fst b"
  by (induction q arbitrary: now) (fastforce split: prod.splits)+

lemma silent_events: "silent d now q \<Longrightarrow> events_of q = {}"
  by (induction q arbitrary: now) (auto split: prod.splits)

lemma silent_earlier: "silent d t q \<Longrightarrow> now \<le> t \<Longrightarrow> silent d now q"
  by (cases q) auto

text \<open>A wait consumes a prefix of its schedule, and ends at the time of the last batch it took.\<close>

lemma wait_until_prefix:
  "wait_until timer_of step expiry now w evs = Returns (ts, t, w', rest) \<Longrightarrow>
   \<exists>pre. evs = pre @ rest \<and> t = last (now # map fst pre)"
proof (induction evs arbitrary: now w)
  case Nil
  then show ?case by (auto split: if_splits)
next
  case (Cons b evs)
  obtain t0 xs where b: "b = (t0, xs)" by (cases b)
  show ?case
  proof (cases "fst (wait_predicate (timer_of w) now expiry)")
    case True
    with Cons.prems b show ?thesis by (intro exI [of _ "[]"]) auto
  next
    case False
    with Cons.prems b obtain v where "wait_until timer_of step expiry t0 v evs = Returns (ts, t, w', rest)"
      by (auto simp: bind_call_Returns_iff)
    from Cons.IH [OF this] obtain pre where "evs = pre @ rest" "t = last (t0 # map fst pre)" by blast
    then show ?thesis using b by (intro exI [of _ "b # pre"]) auto
  qed
qed

lemma WaitForTimeout_prefix:
  assumes "WaitForTimeout timer_of timer_update step tf cf timeout now w evs = Returns (r, t, w', rest)"
  obtains pre where "evs = pre @ rest" "t = last (now # map fst pre)"
  using assms by (auto simp: WaitForTimeout_Returns_iff dest: wait_until_prefix)

text \<open>A wait that ends before the silence can have begun has not touched the silence.\<close>

lemma before_silence:
  assumes "es @ q = pre @ rest" and "t = last (now # map fst pre)" and "t < (bound :: nat)"
    and "\<And>b. b \<in> set q \<Longrightarrow> bound \<le> fst b"
  obtains es' where "rest = es' @ q" "set es' \<subseteq> set es" "length es' \<le> length es" "t = now \<or> t \<in> fst ` set es"
proof -
  from assms(1) consider us where "es = pre @ us" "rest = us @ q" | us where "pre = es @ us" "q = us @ rest"
    by (auto simp: append_eq_append_conv2)
  then show thesis
  proof cases
    case 1
    have "t = now \<or> t \<in> fst ` set pre" using assms(2) by (cases pre rule: rev_cases) auto
    with 1 that [of us] show thesis by auto
  next
    case 2
    show thesis
    proof (cases "us = []")
      case True
      have "t = now \<or> t \<in> fst ` set pre" using assms(2) by (cases pre rule: rev_cases) auto
      with 2 True that [of "[]"] show thesis by auto
    next
      case False
      then have "last pre \<in> set q" "pre \<noteq> []" using 2 by auto
      then have "bound \<le> t" using assms(2,4) by (simp add: last_map)
      with assms(3) show thesis by simp
    qed
  qed
qed

section \<open>The conversation cannot be left in a state nobody takes it out of\<close>

text \<open>
  While the loop waits, the conversation is never in \<open>kDiagRecvdFinalRes\<close>, which would make it
  spin, nor back in \<open>kDiagWaitForRes\<close>; and a timer that is not running has left a verdict.
\<close>

definition loop_inv :: "dm_world \<Rightarrow> bool" where
  "loop_inv w \<longleftrightarrow> conv_ok w \<and> \<not> cv_in cv_kDiagRecvdFinalRes w \<and> \<not> cv_in cv_kDiagWaitForRes w"

definition first_wait_inv :: "dm_world \<Rightarrow> bool" where
  "first_wait_inv w \<longleftrightarrow> conv_ok w \<and> \<not> cv_in cv_kDiagRecvdFinalRes w \<and>
     (cv_in cv_kDiagWaitForRes w \<longrightarrow> start_running (cv_timer w))"

lemma reader_loop_inv:
  assumes "dm_step io e w = Inr w'" and "by_reader e"
  shows "loop_inv w \<Longrightarrow> loop_inv w'" and "first_wait_inv w \<Longrightarrow> first_wait_inv w'"
proof -
  have "(loop_inv w \<longrightarrow> loop_inv w') \<and> (first_wait_inv w \<longrightarrow> first_wait_inv w')"
  proof (cases "\<exists>ip port p. e = Rx_Frame ip port p")
    case False
    have m: "diag_handler.more w' = diag_handler.more w" using dm_step_other [OF assms(1)] False by blast
    show ?thesis
      using more_fields(2,9) [OF m] dm_step_conv_ok(1) [OF assms] by (simp add: loop_inv_def first_wait_inv_def)
  next
    case True
    then obtain ip port p where "e = Rx_Frame ip port p" by blast
    with assms(1) have "dm_step io (Rx_Frame ip port p) w = Inr w'" by simp
    then show ?thesis
    proof (cases rule: dm_rx_cases)
      case Channel
      show ?thesis
        using more_fields(2,9) [OF Channel] dm_step_conv_ok(1) [OF assms] by (simp add: loop_inv_def first_wait_inv_def)
    next
      case (Pending m)
      then show ?thesis
        using dm_step_conv_ok(1) [OF assms] by (auto simp: loop_inv_def first_wait_inv_def conv_okD)
    next
      case (Final m)
      then show ?thesis
        using dm_step_conv_ok(1) [OF assms] by (auto simp: loop_inv_def first_wait_inv_def conv_okD)
    qed
  qed
  then show "loop_inv w \<Longrightarrow> loop_inv w'" and "first_wait_inv w \<Longrightarrow> first_wait_inv w'" by blast+
qed

definition reader_invariant :: "asio_io \<Rightarrow> (dm_world \<Rightarrow> bool) \<Rightarrow> bool" where
  "reader_invariant io P \<longleftrightarrow> (\<forall>e v v'. dm_step io e v = Inr v' \<longrightarrow> by_reader e \<longrightarrow> P v \<longrightarrow> P v')"

lemma reader_keeps_loop_inv:
  "reader_invariant io loop_inv" "reader_invariant io first_wait_inv"
  unfolding reader_invariant_def using reader_loop_inv by blast+

lemma loop_inv_simps [simp]:
  "conv_ok w \<Longrightarrow> loop_inv (cv_goto cv_kIdle w)"
  "conv_ok w \<Longrightarrow> loop_inv (cv_goto cv_kDiagStartP2StarTimer w)"
  "loop_inv (cv_timer_update SyncTimer_arm w) = loop_inv w"
  "conv_ok w \<Longrightarrow> \<not> cv_in cv_kDiagRecvdFinalRes w \<Longrightarrow> first_wait_inv (cv_timer_update SyncTimer_arm w)"
  by (auto simp: loop_inv_def first_wait_inv_def conv_okD)

section \<open>One wait\<close>

definition longest :: nat where
  "longest = 65535"

lemma timeouts_within: "unat (p :: u16) \<le> longest" "kDoIPDiagnosticAckTimeout \<le> longest"
proof -
  have "unat p < 2 ^ LENGTH(16)" by (rule unsigned_less)
  then show "unat p \<le> longest" by (simp add: longest_def)
qed (simp add: longest_def doip_consts)

text \<open>
  A wait whose schedule ends in silence does not block; if it is cancelled, the silence is still to come.
\<close>

lemma cv_wait_live:
  assumes inv: "reader_invariant io P" and p: "P (cv_timer_update SyncTimer_arm w)" and ex: "\<not> exit_request (cv_timer w)"
    and q: "q \<noteq> []" "silent longest T q" and to: "timeout \<le> longest"
    and T: "now \<le> T" and ev: "events_of es \<subseteq> Collect by_reader"
  shows "WaitForTimeout cv_timer cv_timer_update (dm_step io) tf cf timeout now w (es @ q) \<noteq> Blocks"
    and "WaitForTimeout cv_timer cv_timer_update (dm_step io) tf cf timeout now w (es @ q) = Returns (r, t, w', rest) \<Longrightarrow>
      (\<exists>v. P v \<and> tf v = (r, w')) \<or>
      (\<exists>v. P v \<and> \<not> start_running (cv_timer v) \<and> cf v = (r, w')) \<and>
      (\<exists>es'. rest = es' @ q \<and> set es' \<subseteq> set es \<and> length es' \<le> length es \<and> (t = now \<or> t \<in> fst ` set es))"
proof -
  have late: "now + timeout \<le> fst b" if "b \<in> set q" for b
    using silent_late [OF q(2) that] to T by simp
  with q(1) have "\<exists>b \<in> set (es @ q). now + timeout \<le> fst b" by (cases q) auto
  with ex show "WaitForTimeout cv_timer cv_timer_update (dm_step io) tf cf timeout now w (es @ q) \<noteq> Blocks"
    by (rule cv_wait.WaitForTimeout_bounded)
  assume wt: "WaitForTimeout cv_timer cv_timer_update (dm_step io) tf cf timeout now w (es @ q) = Returns (r, t, w', rest)"
  have evq: "events_of (es @ q) \<subseteq> Collect by_reader"
    using ev silent_events [OF q(2)] by (auto simp: events_of_def)
  obtain pre where pre: "es @ q = pre @ rest" "t = last (now # map fst pre)" by (rule WaitForTimeout_prefix [OF wt])
  show "(\<exists>v. P v \<and> tf v = (r, w')) \<or>
      (\<exists>v. P v \<and> \<not> start_running (cv_timer v) \<and> cf v = (r, w')) \<and>
      (\<exists>es'. rest = es' @ q \<and> set es' \<subseteq> set es \<and> length es' \<le> length es \<and> (t = now \<or> t \<in> fst ` set es))"
  proof (rule cv_wait.WaitForTimeout_cases [where P = P and E = "Collect by_reader", OF wt ex _ evq p], goal_cases)
    case (1 e v v')
    with inv show ?case by (auto simp: reader_invariant_def)
  next
    case (2 v)
    then show ?case by blast
  next
    case (3 v)
    obtain es' where "rest = es' @ q" "set es' \<subseteq> set es" "length es' \<le> length es" "t = now \<or> t \<in> fst ` set es"
      by (rule before_silence [OF pre 3(2) late])
    with 3 show ?case by blast
  qed
qed

text \<open>In silence, with the timer armed and running, only the expiry is left.\<close>

lemma silent_wait:
  assumes q: "q \<noteq> []" "silent longest now q" and to: "timeout \<le> longest" and ex: "\<not> exit_request (cv_timer w)"
    and ok: "conv_ok w"
  shows "WaitForTimeout cv_timer cv_timer_update (dm_step io) tf cf timeout now w q \<noteq> Blocks"
    and "WaitForTimeout cv_timer cv_timer_update (dm_step io) tf cf timeout now w q = Returns (r, t, w', rest) \<Longrightarrow>
      \<exists>v. conv_ok v \<and> tf v = (r, w')"
proof -
  let ?P = "\<lambda>v. conv_ok v \<and> start_running (cv_timer v)"
  have "\<exists>b \<in> set q. now + timeout \<le> fst b" using q to by (cases q) (auto split: prod.splits)
  with ex show "WaitForTimeout cv_timer cv_timer_update (dm_step io) tf cf timeout now w q \<noteq> Blocks"
    by (rule cv_wait.WaitForTimeout_bounded)
  assume wt: "WaitForTimeout cv_timer cv_timer_update (dm_step io) tf cf timeout now w q = Returns (r, t, w', rest)"
  have evq: "events_of q \<subseteq> {}" using silent_events [OF q(2)] by simp
  have p: "?P (cv_timer_update SyncTimer_arm w)" using ok by simp
  show "\<exists>v. conv_ok v \<and> tf v = (r, w')"
    by (rule cv_wait.WaitForTimeout_cases [where P = ?P and E = "{}", OF wt ex _ evq p]) auto
qed

text \<open>The loop in silence: at most three batches until it returns.\<close>

definition rounds_left :: "dm_world \<Rightarrow> nat" where
  "rounds_left w = (if cv_in cv_kIdle w then 0 else if cv_in cv_kDiagSuccess w then 1
     else if cv_in cv_kDiagStartP2StarTimer w then 2 else 3)"

lemma idle_loop_returns: "cv_in cv_kIdle w \<Longrightarrow> response_loop step now res w evs = Returns (res, now, w, evs)"
  by (simp add: response_loop.simps [of _ now res w evs] GetActiveState_cv)

lemma silent_window: "next_window step now w ((t, []) # q) = Returns (t, w, q)"
  by (simp add: next_window_def)

lemma silent_cons: "q \<noteq> [] \<Longrightarrow> silent d now q \<Longrightarrow> \<exists>t q'. q = (t, []) # q' \<and> now + d \<le> t \<and> silent d t q'"
  by (cases q) (auto split: prod.splits)

text \<open>One round of the loop, from the state read to the action.\<close>

definition loop_action ::
    "(channel_event \<Rightarrow> dm_world \<Rightarrow> dm_world run) \<Rightarrow> ConversationState \<Rightarrow> nat \<Rightarrow> diag_result \<Rightarrow> dm_world \<Rightarrow>
     (nat \<times> channel_event list) list \<Rightarrow> (diag_result \<times> nat \<times> dm_world \<times> (nat \<times> channel_event list) list) call" where
  "loop_action step s t res w1 evs1 =
     (case s of
        cv_kDiagRecvdPendingRes \<Rightarrow> response_loop step t res (cv_goto cv_kDiagStartP2StarTimer w1) evs1
      | cv_kDiagStartP2StarTimer \<Rightarrow>
          bind_call
            (WaitForTimeout cv_timer cv_timer_update step (p2_star_timeout_func res)
               (p2_star_cancellation_func res) (unat (p2_star_client_max w1)) t w1 evs1)
            (\<lambda>(result', t', w2, evs2). response_loop step t' result' w2 evs2)
      | cv_kDiagSuccess \<Rightarrow>
          response_loop step t (EmplaceValue Rx_Buffer_Reference res) (cv_goto cv_kIdle w1) evs1
      | _ \<Rightarrow> response_loop step t res w1 evs1)"

lemma response_loop_round:
  assumes "cv_in s w" and "s \<noteq> cv_kIdle"
  shows "response_loop step now res w (b # evs) =
    bind_call (next_window step now w (b # evs)) (\<lambda>(t, w1, evs1). loop_action step s t res w1 evs1)"
  unfolding loop_action_def response_loop.simps [of step now res w "b # evs"] GetActiveState_cv [OF assms(1)]
  using assms(2) by simp

lemma start_in_silence:
  assumes "loop_inv w" and "cv_in cv_kDiagStartP2StarTimer w" and "silent longest now q" and "2 \<le> length q"
  shows "response_loop (dm_step io) now res w q \<noteq> Blocks"
proof -
  from assms(3,4) obtain t1 q1 where q: "q = (t1, []) # q1" "silent longest t1 q1" "q1 \<noteq> []"
    using silent_cons [of q longest now] by (cases "tl q") fastforce+
  have ok: "conv_ok w" using assms(1) by (simp add: loop_inv_def)
  let ?wt = "WaitForTimeout cv_timer cv_timer_update (dm_step io) (p2_star_timeout_func res)
     (p2_star_cancellation_func res) (unat (p2_star_client_max w)) t1 w q1"
  have eq: "response_loop (dm_step io) now res w q =
      bind_call ?wt (\<lambda>(r2, t2, w2, evs2). response_loop (dm_step io) t2 r2 w2 evs2)"
    unfolding q(1) response_loop_round [OF assms(2), simplified] silent_window by (simp add: loop_action_def)
  note sw = silent_wait [OF q(3,2) timeouts_within(1) conv_okD(4) [OF ok] ok]
  show ?thesis
  proof (cases ?wt)
    case (Returns x)
    obtain r2 t2 w2 evs2 where x: "x = (r2, t2, w2, evs2)" by (cases x)
    obtain v where "conv_ok v" "w2 = cv_goto cv_kIdle v"
      using sw(2) [OF Returns [unfolded x]] by (auto simp: p2_star_timeout_func_def)
    then have "cv_in cv_kIdle w2" by (simp add: conv_okD)
    then show ?thesis by (simp add: eq Returns x idle_loop_returns)
  next
    case Blocks
    with sw(1) show ?thesis by blast
  next
    case (Crashes e)
    then show ?thesis by (simp add: eq)
  qed
qed

lemma loop_in_silence:
  assumes "loop_inv w" and "silent longest now q" and "rounds_left w \<le> length q"
  shows "response_loop (dm_step io) now res w q \<noteq> Blocks"
proof -
  have ok: "conv_ok w" using assms(1) by (simp add: loop_inv_def)
  then obtain s where s: "cv_in s w" by (auto simp: conv_ok_def)
  note gs = GetActiveState_cv [OF s]
  have u: "cv_in t w \<longleftrightarrow> t = s" for t using s cv_in_unique by blast
  show ?thesis
  proof (cases s)
    case cv_kIdle
    with s show ?thesis by (simp add: idle_loop_returns)
  next
    case cv_kDiagStartP2StarTimer
    with assms s u show ?thesis by (intro start_in_silence) (auto simp: rounds_left_def)
  next
    case cv_kDiagRecvdPendingRes
    with assms(3) u have "3 \<le> length q" by (simp add: rounds_left_def)
    then have "q \<noteq> []" by auto
    from silent_cons [OF this assms(2)] obtain t1 q1 where q: "q = (t1, []) # q1" "silent longest t1 q1" by blast
    have "response_loop (dm_step io) t1 res (cv_goto cv_kDiagStartP2StarTimer w) q1 \<noteq> Blocks"
      using ok q \<open>3 \<le> length q\<close> by (intro start_in_silence) (simp_all add: conv_okD)
    then show ?thesis
      unfolding q(1) response_loop_round [OF s [unfolded cv_kDiagRecvdPendingRes], simplified] silent_window
      by (simp add: loop_action_def)
  next
    case cv_kDiagSuccess
    with assms(3) u have "1 \<le> length q" by (simp add: rounds_left_def)
    then have "q \<noteq> []" by auto
    from silent_cons [OF this assms(2)] obtain t1 q1 where q: "q = (t1, []) # q1" by blast
    have "cv_in cv_kIdle (cv_goto cv_kIdle w)" using ok by (simp add: conv_okD)
    then show ?thesis
      unfolding q(1) response_loop_round [OF s [unfolded cv_kDiagSuccess], simplified] silent_window
      by (simp add: loop_action_def idle_loop_returns)
  qed (use assms(1) s in \<open>auto simp: loop_inv_def\<close>)
qed

text \<open>The loop, whatever happens before the silence.\<close>

lemma window_reader:
  assumes "next_window (dm_step io) now w (b # rest) = Returns (t, w', rest')" and "events_of (b # rest) \<subseteq> Collect by_reader"
    and "P w" and "reader_invariant io P"
  shows "P w'" and "rest' = rest" and "t = fst b" and "events_of rest \<subseteq> Collect by_reader"
proof -
  show "P w'"
    by (rule next_window_inv(1) [OF assms(1,2), of P], rule assms(3)) (use assms(4) in \<open>auto simp: reader_invariant_def\<close>)
  obtain t0 xs where "b = (t0, xs)" by (cases b)
  then show "rest' = rest" and "t = fst b" and "events_of rest \<subseteq> Collect by_reader"
    using assms(1,2) by (auto simp: next_window_def bind_call_Returns_iff)
qed

lemma next_window_not_Blocks: "next_window step now w evs \<noteq> Blocks"
proof (cases evs)
  case (Cons b rest)
  then show ?thesis
    by (cases b; cases "deliver_all step (snd b) w") (auto simp: next_window_def)
qed (simp add: next_window_def)

lemma loop_before_silence:
  assumes "loop_inv w" and "silent longest T q" and "3 \<le> length q" and "now \<le> T"
    and "\<forall>b \<in> set es. fst b \<le> T" and "events_of es \<subseteq> Collect by_reader"
  shows "response_loop (dm_step io) now res w (es @ q) \<noteq> Blocks"
  using assms(1,4-6)
proof (induction "length es" arbitrary: now res w es rule: less_induct)
  case less
  have ok: "conv_ok w" using less.prems(1) by (simp add: loop_inv_def)
  then obtain s where s: "cv_in s w" by (auto simp: conv_ok_def)
  note gs = GetActiveState_cv [OF s]
  show ?case
  proof (cases es)
    case Nil
    have "rounds_left w \<le> length q" using assms(3) by (simp add: rounds_left_def)
    with less.prems(1) silent_earlier [OF assms(2) less.prems(2)] Nil show ?thesis
      by (simp add: loop_in_silence)
  next
    case (Cons b es1)
    let ?win = "next_window (dm_step io) now w (b # es1 @ q)"
    show ?thesis
    proof (cases "s = cv_kIdle")
      case True
      with s show ?thesis by (simp add: idle_loop_returns)
    next
      case nidle: False
      have unf: "response_loop (dm_step io) now res w (es @ q) =
          bind_call ?win (\<lambda>(t, w1, evs1). loop_action (dm_step io) s t res w1 evs1)"
        unfolding Cons append_Cons by (rule response_loop_round [OF s nidle])
      show ?thesis
      proof (cases ?win)
        case (Returns x)
        obtain t w1 evs1 where x: "x = (t, w1, evs1)" by (cases x)
        have evq: "events_of (b # es1 @ q) \<subseteq> Collect by_reader"
          using less.prems(4) Cons silent_events [OF assms(2)] by (auto simp: events_of_def)
        note win = window_reader [where P = loop_inv, OF Returns [unfolded x] evq less.prems(1) reader_keeps_loop_inv(1)]
        have ev1: "events_of es1 \<subseteq> Collect by_reader" using less.prems(4) Cons by (auto simp: events_of_def)
        have tT: "t \<le> T" "\<forall>b \<in> set es1. fst b \<le> T" using win(3) less.prems(3) Cons by auto
        have e1: "evs1 = es1 @ q" by (rule win(2))
        have ok1: "conv_ok w1" using win(1) by (simp add: loop_inv_def)
        have sh: "length es1 < length es" by (simp add: Cons)
        have next_: "response_loop (dm_step io) t res' v (es1 @ q) \<noteq> Blocks" if "loop_inv v" for res' v
          by (rule less.hyps [OF sh that tT ev1])
        show ?thesis
        proof (cases "s = cv_kDiagStartP2StarTimer")
          case False
          with next_ [OF win(1)] next_ [of "cv_goto cv_kDiagStartP2StarTimer w1"] next_ [of "cv_goto cv_kIdle w1"] ok1
          show ?thesis unfolding unf using nidle by (cases s) (simp_all add: Returns x e1 loop_action_def)
        next
          case True
          let ?wt = "WaitForTimeout cv_timer cv_timer_update (dm_step io) (p2_star_timeout_func res)
              (p2_star_cancellation_func res) (unat (p2_star_client_max w1)) t w1 (es1 @ q)"
          have arm: "loop_inv (cv_timer_update SyncTimer_arm w1)" using win(1) by simp
          have qne: "q \<noteq> []" using assms(3) by auto
          note live = cv_wait_live [where P = loop_inv and T = T, OF reader_keeps_loop_inv(1) arm conv_okD(4) [OF ok1]
              qne assms(2) timeouts_within(1) tT(1) ev1]
          show ?thesis
          proof (cases ?wt)
            case (Returns y)
            obtain r2 t2 w2 evs2 where y: "y = (r2, t2, w2, evs2)" by (cases y)
            from live(2) [OF Returns [unfolded y]] consider
                (Expired) v where "loop_inv v" "p2_star_timeout_func res v = (r2, w2)"
              | (Cancelled) v es' where "loop_inv v" "p2_star_cancellation_func res v = (r2, w2)" "evs2 = es' @ q"
                  "set es' \<subseteq> set es1" "length es' \<le> length es1" "t2 = t \<or> t2 \<in> fst ` set es1"
              by blast
            then have "response_loop (dm_step io) t2 r2 w2 evs2 \<noteq> Blocks"
            proof cases
              case (Expired v)
              then have "cv_in cv_kIdle w2" by (auto simp: p2_star_timeout_func_def loop_inv_def conv_okD)
              then show ?thesis by (simp add: idle_loop_returns)
            next
              case (Cancelled v es')
              have i2: "loop_inv w2"
                using Cancelled(1,2) by (auto simp: p2_star_cancellation_func_def loop_inv_def conv_okD split: if_splits)
              have sub: "t2 \<le> T" "\<forall>b \<in> set es'. fst b \<le> T" "events_of es' \<subseteq> Collect by_reader"
                using Cancelled(4,6) tT ev1 by (auto simp: events_of_def)
              have "length es' < length es" using Cancelled(5) sh by simp
              from less.hyps [OF this i2 sub] show ?thesis unfolding Cancelled(3) .
            qed
            with True show ?thesis unfolding unf by (simp add: \<open>?win = Returns x\<close> x e1 Returns y loop_action_def)
          next
            case Blocks
            with live(1) show ?thesis by blast
          next
            case (Crashes e)
            with True show ?thesis unfolding unf by (simp add: Returns x e1 loop_action_def)
          qed
        qed
      next
        case Blocks
        then show ?thesis by (rule notE [OF next_window_not_Blocks])
      next
        case (Crashes e)
        then show ?thesis unfolding unf by simp
      qed
    qed
  qed
qed

section \<open>The call\<close>

text \<open>What the transmission leaves of a schedule that ends in silence.\<close>

lemma Transmit_live:
  assumes act: "IsRoutingActivated w" and ok: "conv_ok w"
    and rd: "set win1 \<subseteq> Collect by_reader" "set win2 \<subseteq> Collect by_reader" "events_of es \<subseteq> Collect by_reader"
    and q: "q \<noteq> []" "silent longest T q" and T: "now \<le> T" "\<forall>b \<in> set es. fst b \<le> T"
  shows "TcpChannel_Transmit io (dm_step io) now win1 win2 (es @ q) msg w \<noteq> Blocks"
    and "TcpChannel_Transmit io (dm_step io) now win1 win2 (es @ q) msg w = Returns (kTransmitOk, t, w', rest) \<Longrightarrow>
      t \<le> T \<and> (\<exists>es'. rest = es' @ q \<and> set es' \<subseteq> set es)"
proof -
  have late: "now + kDoIPDiagnosticAckTimeout \<le> fst b" if "b \<in> set q" for b
    using silent_late [OF q(2) that] timeouts_within(2) T(1) by simp
  have keep: "\<not> exit_request (dm_timer v')" if "dm_step io e v = Inr v'" "\<not> exit_request (dm_timer v)" for e v v'
    using that dm_chan.channel_step_exit_requests [of io e v v'] by (simp add: dm_step_def)
  have lift: "\<not> exit_request (dm_timer v')" if "deliver_all (dm_step io) xs v = Inr v'" "\<not> exit_request (dm_timer v)" for xs v v'
    using deliver_all_invariant [of "dm_step io" "\<lambda>v. \<not> exit_request (dm_timer v)", OF _ that] keep by blast
  have ex: "\<not> exit_request (dm_timer w)" using ok by (simp add: conv_ok_def chan_ok_def)
  have bound: "\<exists>b \<in> set (es @ q). now + kDoIPDiagnosticAckTimeout \<le> fst b" using late q(1) by (cases q) auto
  show "TcpChannel_Transmit io (dm_step io) now win1 win2 (es @ q) msg w \<noteq> Blocks"
  proof (cases "dm_in dm_kIdle w \<and> connection_state w = kConnected \<and> asio_write io (compose_diag_req msg)")
    case False
    then show ?thesis
      by (auto simp: TcpChannel_Transmit_def HandleDiagnosticRequest_def dm_SendDiagnosticRequest_eq split: if_splits)
  next
    case True
    have "WaitForTimeout dm_timer dm_timer_update (dm_step io) dm_timeout_func dm_cancellation_func
        kDoIPDiagnosticAckTimeout now w3 (es @ q) \<noteq> Blocks"
      if "deliver_all (dm_step io) win1 (w\<lparr>sent := sent w @ [compose_diag_req msg]\<rparr>) = Inr w2"
        "deliver_all (dm_step io) win2 (dm_goto dm_kWaitForDiagnosticAck w2) = Inr w3" for w2 w3
      unfolding dm_step_def
      by (rule dm_chan.dm_wait.WaitForTimeout_bounded [OF _ bound]) (use lift [OF that(2)] lift [OF that(1)] ex in simp)
    with True show ?thesis
      by (cases "deliver_all (dm_step io) win1 (w\<lparr>sent := sent w @ [compose_diag_req msg]\<rparr>)";
          cases "deliver_all (dm_step io) win2 (dm_goto dm_kWaitForDiagnosticAck (projr (deliver_all (dm_step io) win1 (w\<lparr>sent := sent w @ [compose_diag_req msg]\<rparr>))))")
         (auto simp: TcpChannel_Transmit_def HandleDiagnosticRequest_def dm_SendDiagnosticRequest_eq split: if_splits)
  qed
  assume tx: "TcpChannel_Transmit io (dm_step io) now win1 win2 (es @ q) msg w = Returns (kTransmitOk, t, w', rest)"
  then obtain w3 where wt: "WaitForTimeout dm_timer dm_timer_update (dm_step io) dm_timeout_func dm_cancellation_func
       kDoIPDiagnosticAckTimeout now w3 (es @ q) = Returns (kTransmitOk, t, w', rest)"
    by (auto simp: TcpChannel_Transmit_def HandleDiagnosticRequest_def dm_SendDiagnosticRequest_eq
        bind_call_Returns_iff split: if_splits)
  have conn: "connection_state w = kConnected" "routing (link w) = ra_kRoutingActivationSuccessful"
    using act ok by (auto simp: IsRoutingActivated_def link_in conv_ok_def link_inv_def)
  have evq: "events_of (es @ q) \<subseteq> Collect by_reader"
    using rd(3) silent_events [OF q(2)] by (auto simp: events_of_def)
  have "t < now + kDoIPDiagnosticAckTimeout"
    using tx act unfolding TcpChannel_Transmit_def dm_step_def
    by (auto elim!: dm_chan.diagnostic_cases [OF _ conv_okD(1) [OF ok] conn rd(1,2) evq])
  moreover obtain pre where pre: "es @ q = pre @ rest" "t = last (now # map fst pre)"
    by (rule WaitForTimeout_prefix [OF wt])
  ultimately obtain es' where "rest = es' @ q" "set es' \<subseteq> set es" "t = now \<or> t \<in> fst ` set es"
    by (elim before_silence [OF pre _ late])
  then show "t \<le> T \<and> (\<exists>es'. rest = es' @ q \<and> set es' \<subseteq> set es)" using T by auto
qed

text \<open>A schedule that ends in silence, after time \<open>t\<close>.\<close>

definition ends_silent :: "nat \<Rightarrow> nat \<Rightarrow> (nat \<times> channel_event list) list \<Rightarrow> bool" where
  "ends_silent k t evs \<longleftrightarrow> (\<exists>es q T. evs = es @ q \<and> silent longest T q \<and> k \<le> length q \<and> t \<le> T \<and>
     (\<forall>b \<in> set es. fst b \<le> T) \<and> events_of es \<subseteq> Collect by_reader)"

lemma window_live:
  assumes "next_window (dm_step io) now w evs = Returns (t, w', rest)" and "ends_silent (Suc k) now evs"
    and "P w" and "reader_invariant io P"
  shows "P w' \<and> ends_silent k t rest"
proof -
  from assms(2) obtain es q T where e: "evs = es @ q" "silent longest T q" "Suc k \<le> length q" "now \<le> T"
      "\<forall>b \<in> set es. fst b \<le> T" "events_of es \<subseteq> Collect by_reader"
    by (auto simp: ends_silent_def)
  have evq: "events_of evs \<subseteq> Collect by_reader"
    using e(1,6) silent_events [OF e(2)] by (auto simp: events_of_def)
  show ?thesis
  proof (cases es)
    case Nil
    from e(3) have "q \<noteq> []" by auto
    from silent_cons [OF this e(2)] obtain t1 q1 where q: "q = (t1, []) # q1" "silent longest t1 q1" by blast
    with assms(1) e(1) Nil have "t = t1" "w' = w" "rest = q1" by (simp_all add: silent_window)
    with q e(3) assms(3) show ?thesis
      unfolding ends_silent_def by (intro conjI exI [of _ "[]"] exI [of _ q1] exI [of _ t1]) auto
  next
    case (Cons b es1)
    have x: "next_window (dm_step io) now w (b # es1 @ q) = Returns (t, w', rest)"
      and y: "events_of (b # es1 @ q) \<subseteq> Collect by_reader"
      using assms(1) evq e(1) Cons by simp_all
    note win = window_reader [where P = P, OF x y assms(3,4)]
    have "events_of es1 \<subseteq> Collect by_reader" using e(6) Cons by (auto simp: events_of_def)
    with win e Cons show ?thesis
      unfolding ends_silent_def by (intro conjI exI [of _ es1] exI [of _ q] exI [of _ T]) auto
  qed
qed

lemma first_wait_live:
  assumes "ends_silent 3 now evs" and w: "conv_ok w" "\<not> cv_in cv_kDiagRecvdFinalRes w"
  shows "bind_call (WaitForTimeout cv_timer cv_timer_update (dm_step io) (p2_timeout_func res)
      (p2_cancellation_func res) (unat (p2_client_max w)) now w evs)
      (\<lambda>(result', t4, w4, evs4). response_loop (dm_step io) t4 result' w4 evs4) \<noteq> Blocks" (is "bind_call ?wt _ \<noteq> _")
proof -
  from assms(1) obtain es q T where e: "evs = es @ q" "silent longest T q" "3 \<le> length q" "now \<le> T"
      "\<forall>b \<in> set es. fst b \<le> T" "events_of es \<subseteq> Collect by_reader"
    by (auto simp: ends_silent_def)
  have qne: "q \<noteq> []" using e(3) by auto
  have arm: "first_wait_inv (cv_timer_update SyncTimer_arm w)" using w by simp
  note live = cv_wait_live [where P = first_wait_inv and T = T, OF reader_keeps_loop_inv(2) arm
      conv_okD(4) [OF w(1)] qne e(2) timeouts_within(1) e(4,6), folded e(1)]
  show ?thesis
  proof (cases ?wt)
    case (Returns y)
    obtain r2 t2 w2 evs2 where y: "y = (r2, t2, w2, evs2)" by (cases y)
    from live(2) [OF Returns [unfolded y]] consider
        (Expired) v where "first_wait_inv v" "p2_timeout_func res v = (r2, w2)"
      | (Cancelled) v es' where "first_wait_inv v" "\<not> start_running (cv_timer v)"
          "p2_cancellation_func res v = (r2, w2)" "evs2 = es' @ q"
          "set es' \<subseteq> set es" "t2 = now \<or> t2 \<in> fst ` set es"
      by blast
    then have "response_loop (dm_step io) t2 r2 w2 evs2 \<noteq> Blocks"
    proof cases
      case (Expired v)
      then have "cv_in cv_kIdle w2" by (auto simp: p2_timeout_func_def first_wait_inv_def conv_okD)
      then show ?thesis by (simp add: idle_loop_returns)
    next
      case (Cancelled v es')
      then have "loop_inv v" by (auto simp: first_wait_inv_def loop_inv_def)
      with Cancelled(3) have "loop_inv w2"
        by (auto simp: p2_cancellation_func_def loop_inv_def conv_okD split: if_splits)
      moreover have "t2 \<le> T" "\<forall>b \<in> set es'. fst b \<le> T" "events_of es' \<subseteq> Collect by_reader"
        using Cancelled(5,6) e(4-6) by (auto simp: events_of_def)
      ultimately show ?thesis unfolding Cancelled(4) by (intro loop_before_silence [OF _ e(2,3)])
    qed
    with Returns y show ?thesis by simp
  next
    case Blocks
    with live(1) show ?thesis by blast
  next
    case (Crashes e)
    then show ?thesis by simp
  qed
qed

lemma final_absent: "reader_invariant io (\<lambda>v. conv_ok v \<and> \<not> cv_in cv_kDiagRecvdFinalRes v)"
proof -
  have "conv_ok v' \<and> \<not> cv_in cv_kDiagRecvdFinalRes v'"
    if s: "dm_step io e v = Inr v'" "by_reader e" and v: "conv_ok v \<and> \<not> cv_in cv_kDiagRecvdFinalRes v" for e v v'
  proof -
    have ok': "conv_ok v'" using dm_step_conv_ok(1) [OF s] v by simp
    show ?thesis
    proof (cases "\<exists>ip port p. e = Rx_Frame ip port p")
      case False
      have m: "diag_handler.more v' = diag_handler.more v" using dm_step_other [OF s(1)] False by blast
      show ?thesis using more_fields(9) [OF m] ok' v by simp
    next
      case True
      then obtain ip port p where "e = Rx_Frame ip port p" by blast
      with s(1) have "dm_step io (Rx_Frame ip port p) v = Inr v'" by simp
      then show ?thesis
      proof (cases rule: dm_rx_cases)
        case Channel
        show ?thesis using more_fields(9) [OF Channel] ok' v by simp
      qed (use ok' v in \<open>auto simp: conv_okD\<close>)
    qed
  qed
  then show ?thesis unfolding reader_invariant_def by blast
qed

lemma bind_call_not_Blocks: "c \<noteq> Blocks \<Longrightarrow> (\<And>x. c = Returns x \<Longrightarrow> f x \<noteq> Blocks) \<Longrightarrow> bind_call c f \<noteq> Blocks"
  by (cases c) auto

lemma conv_ok_kept: "reader_invariant io conv_ok"
  unfolding reader_invariant_def using dm_step_conv_ok(1) by blast



end
