(* ===== verification/Request_Properties.thy ===== *)
theory Request_Properties
  imports Liveness
begin

text \<open>
  Properties of the diagnostic conversation and of its channel: where a response comes from, every
  way a request can end, the order of frames on the wire, the refinement of the small link machine,
  the request that is answered after any number of pending responses, and what the waiting code
  loses or keeps when frames come at an unlucky time.
\<close>

section \<open>Responses and errors\<close>

text \<open>C1: A request that returns a response has been sent exactly once, over an activated
  connection, and the response it returns is the data of a diagnostic message received during the call
  that passed the header checks and is not a pending response; the channel is ready for the next
  request.\<close>

theorem response_is_genuine:
  assumes "app_reachable io conf w" and "reader_only win1 win2 evs"
    and "SendDiagnosticRequest io now win1 win2 evs (Some msg) w = Returns (FromValue resp, t, w', rest)"
  shows "IsRoutingActivated w \<and> sent w' = sent w @ [request_frame msg w] \<and> dm_in dm_kIdle w' \<and>
    (\<exists>ip port p m. Rx_Frame ip port p \<in> events_of evs \<and> accepted p m \<and> payload_type m = kDoipDiagMessage \<and>
       \<not> is_pending (payload m) \<and> DmUdsResponse_GetPayload resp w' = payload m)"
proof -
  have ok: "conv_ok w" using app_reachable_inv [OF assms(1)] by (simp add: app_inv_def)
  from assms(3) ok reader_onlyD [OF assms(2)] show ?thesis
    by (cases rule: SendDiagnosticRequest_cases)
       (auto simp: settled_def answered_def DmUdsResponse_GetPayload_def link_in conv_okD)
qed

theorem response_is_genuine_witness:
  "sent demo_done = sent demo_active @ [request_frame demo_request demo_active] \<and>
   DmUdsResponse_GetPayload Rx_Buffer_Reference demo_done = [0x62, 0xF1, 0x90]"
proof -
  have r: "reader_only [] [] demo_schedule" by (simp add: reader_only_def demo_schedule_def rx_def)
  have "payload_rx_buffer demo_done = [0x62, 0xF1, 0x90]" by code_simp
  then show ?thesis
    using response_is_genuine [OF demo_reachable(2) r demo_answers] by (simp add: DmUdsResponse_GetPayload_def)
qed



section \<open>Invariants of every reachable state\<close>

text \<open>C5: Whatever the application calls and whatever the network sends, between two calls routing is
  either activated or idle, a diagnostic request is outstanding only over an activated connection, an
  activated connection is connected, both contexts of the channel and that of the conversation point to
  one of their states, and nobody has set the exit flag of a timer.\<close>

theorem reachable_states_are_safe:
  assumes "app_reachable io conf w"
  shows "(IsRoutingActivated w \<or> ra_in ra_kIdle w) \<and> (dm_in dm_kIdle w \<or> dm_in dm_kWaitForDiagnosticResponse w) \<and>
    (\<not> dm_in dm_kIdle w \<longrightarrow> IsRoutingActivated w) \<and> (IsRoutingActivated w \<longrightarrow> TcpChannel_IsConnectedToHost w) \<and>
    (\<exists>s. cv_in s w) \<and> \<not> exit_request (ra_timer w) \<and> \<not> exit_request (dm_timer w) \<and> \<not> exit_request (cv_timer w)"
proof -
  have i: "chan_ok w" "link_inv (link w)" "quiet (link w)" "conv_ok w"
    using app_reachable_inv [OF assms] by (auto simp: app_inv_def conv_okD)
  then show ?thesis
    by (auto simp: IsRoutingActivated_def link_in link_inv_def quiet_def conv_ok_def chan_okD
        TcpChannel_IsConnectedToHost_def TcpClient_IsConnectedToHost_def)
qed

theorem reachable_states_are_safe_witness:
  "IsRoutingActivated demo_active \<and> TcpChannel_IsConnectedToHost demo_active"
proof -
  have "IsRoutingActivated demo_active" by code_simp
  then show ?thesis using reachable_states_are_safe [OF demo_reachable(2)] by blast
qed

text \<open>C6: No diagnostic request ever leaves on a connection before a routing activation request has
  left: in the trace of all frames the library sends, in any run, every frame with the diagnostic
  payload type comes after one with the routing activation type.\<close>

theorem activation_precedes_requests:
  assumes "app_reachable io conf w"
  shows "activation_first False (sent w)"
  using app_reachable_inv [OF assms] by (simp add: wire_inv_def)

theorem activation_precedes_requests_witness: "activation_first False (sent demo_done) \<and> length (sent demo_done) = 2"
proof -
  have "length (sent demo_done) = 2" by code_simp
  then show ?thesis using activation_precedes_requests [OF demo_reachable(3)] by simp
qed



section \<open>Connecting and disconnecting\<close>





section \<open>A response that does not come\<close>

lemma request_timeout_waits:
  assumes ret: "SendDiagnosticRequest io now win1 win2 evs (Some msg) w = Returns (FromError kDiagResponseTimeout, t, w', rest)"
    and ok: "conv_ok w" and rd: "reader_only win1 win2 evs"
    and none: "\<And>ip port p m. Rx_Frame ip port p \<in> events_of evs \<Longrightarrow> accepted p m \<Longrightarrow> payload_type m \<noteq> kDoipDiagMessage"
  shows "conv_ok w' \<and> routing (link w') = ra_kRoutingActivationSuccessful \<and> diag (link w') = dm_kWaitForDiagnosticResponse"
proof -
  let ?m = "uds_message_down (source_address w) (target_address w) (req_host_ip msg) (req_payload msg)"
  let ?P = "\<lambda>v. conv_ok v \<and> routing (link v) = ra_kRoutingActivationSuccessful \<and> diag (link v) = dm_kWaitForDiagnosticResponse"
  have ch: "chan_ok w" "link_inv (link w)" using ok by (simp_all add: conv_okD)
  show ?thesis
  proof (rule Send_keeps [where P = ?P and E = "events_of evs", OF ret], goal_cases)
    case (2 e v v')
    have br: "by_reader e" using 2(1) reader_onlyD(3) [OF rd] by auto
    have "link v' = link v"
    proof (cases e)
      case (Rx_Frame ip port p)
      have s: "channel_step io DmConversationHandler (Rx_Frame ip port p) v = Inr v'"
        using 2(2) Rx_Frame by (simp add: dm_step_def)
      have "chan_ok v" using 2(3) by (simp add: conv_okD)
      from s show ?thesis
      proof (cases rule: dm_chan.Rx_cases)
        case Kept
        then show ?thesis by (rule link_truncate)
      next
        case (Final m u)
        with none [of ip port p m] 2(1) Rx_Frame show ?thesis by simp
      qed (use 2(3) \<open>chan_ok v\<close> in \<open>auto simp: link_in\<close>)
    qed (use 2(2) br in \<open>auto simp: dm_step_def\<close>)
    with dm_step_conv_ok(1) [OF 2(2) br] 2(3) show ?case by simp
  next
    case (5 tr t1 w1 evs1)
    have "tr = kTransmitOk"
      using ret 5 by (cases tr) (auto simp: SendDiagnosticRequest_def EmplaceError_def ConvertResponseType_def)
    note okT = Transmit_conv_ok(1) [OF 5 ok reader_onlyD [OF rd]]
    have act: "IsRoutingActivated w" using 5 \<open>tr = kTransmitOk\<close> by (auto simp: TcpChannel_Transmit_def split: if_splits)
    then have ra: "routing (link w) = ra_kRoutingActivationSuccessful" using ch by (simp add: IsRoutingActivated_def link_in)
    then have "connection_state w = kConnected" using ch by (auto simp: link_inv_def)
    moreover have "HandleDiagnosticRequest io (channel_step io DmConversationHandler) now win1 win2 evs ?m w
        = Returns (tr, t1, w1, evs1)"
      using 5 act by (simp add: TcpChannel_Transmit_def dm_step_def)
    ultimately show ?case
      using \<open>tr = kTransmitOk\<close> okT
      by (elim dm_chan.diagnostic_cases [OF _ ch(1) _ ra reader_onlyD [OF rd]]) auto
  qed auto
qed

text \<open>C15: A request whose response never comes blocks the conversation: if no diagnostic message
  arrives, the request ends with a response timeout, but the channel goes on waiting for that response,
  and every later request is refused as busy, immediately, with nothing sent and nothing changed.\<close>

theorem missing_response_blocks_later_requests:
  assumes "app_reachable io conf w" and "reader_only win1 win2 evs"
    and "SendDiagnosticRequest io now win1 win2 evs (Some msg) w = Returns (FromError kDiagResponseTimeout, t, w', rest)"
    and "\<forall>ip port p m. Rx_Frame ip port p \<in> events_of evs \<longrightarrow> accepted p m \<longrightarrow> payload_type m \<noteq> kDoipDiagMessage"
  shows "SendDiagnosticRequest io now2 win3 win4 evs2 (Some msg2) w' =
    Returns (FromError kDiagBusyProcessing, now2, w', evs2)"
proof -
  have ok: "conv_ok w" using app_reachable_inv [OF assms(1)] by (simp add: app_inv_def)
  have k: "conv_ok w' \<and> routing (link w') = ra_kRoutingActivationSuccessful \<and> diag (link w') = dm_kWaitForDiagnosticResponse"
    by (rule request_timeout_waits [OF assms(3) ok assms(2)]) (use assms(4) in blast)
  then have "IsRoutingActivated w'" "\<not> dm_in dm_kIdle w'" by (simp_all add: IsRoutingActivated_def link_in conv_okD)
  then show ?thesis
    by (simp add: SendDiagnosticRequest_def TcpChannel_Transmit_def HandleDiagnosticRequest_def
        ConvertResponseType_def EmplaceError_def)
qed

definition mute_schedule :: "(nat \<times> channel_event list) list" where
  "mute_schedule = [(10, [rx ack_frame]), (11, []), (12, []), (80, []), (90, [])]"

definition demo_unanswered :: dm_world where
  "demo_unanswered =
     (case SendDiagnosticRequest io_ok 0 [] [] mute_schedule (Some demo_request) demo_active of
        Returns (r, t, w, rest) \<Rightarrow> w | _ \<Rightarrow> demo_active)"

theorem missing_response_blocks_later_requests_witness:
  "SendDiagnosticRequest io_ok 100 [] [] demo_schedule (Some demo_request) demo_unanswered =
    Returns (FromError kDiagBusyProcessing, 100, demo_unanswered, demo_schedule)"
proof -
  have r: "reader_only [] [] mute_schedule" by (simp add: reader_only_def mute_schedule_def rx_def)
  have s: "SendDiagnosticRequest io_ok 0 [] [] mute_schedule (Some demo_request) demo_active =
    Returns (FromError kDiagResponseTimeout, 80, demo_unanswered, [(90, [])])" by code_simp
  have n: "payload_type m \<noteq> kDoipDiagMessage" if "Rx_Frame ip port p \<in> events_of mute_schedule" "accepted p m" for ip port p m
  proof -
    have "p = ack_frame" using that(1) by (auto simp: mute_schedule_def rx_def)
    with that(2) show ?thesis
      by (auto simp: accepted_def ack_frame_def parse_tcp_frame) (simp_all add: doip_consts)
  qed
  show ?thesis
    by (rule missing_response_blocks_later_requests [OF demo_reachable(2) r s]) (use n in blast)
qed

section \<open>The answered request\<close>

text \<open>A frame that carries a message to be processed.\<close>

definition carries :: "bytes \<Rightarrow> u16 \<Rightarrow> bytes \<Rightarrow> bool" where
  "carries p ty data \<longleftrightarrow> (\<forall>ip port. \<exists>m. new_DoipMessage kTcp ip port p = Inr m \<and> payload_type m = ty \<and>
     payload m = data \<and> fst (ProcessDoIPHeader m 0))"

lemma carriesD:
  assumes "carries p ty data"
  obtains m where "new_DoipMessage kTcp ip port p = Inr m" "payload_type m = ty" "payload m = data" "data \<noteq> []"
    "dm_step io (Rx_Frame ip port p) w = ProcessDoIPPayload DmConversationHandler m w"
proof -
  from assms obtain m where m: "new_DoipMessage kTcp ip port p = Inr m" "payload_type m = ty" "payload m = data"
      "fst (ProcessDoIPHeader m 0)"
    by (auto simp: carries_def)
  then have "dm_step io (Rx_Frame ip port p) w = ProcessDoIPPayload DmConversationHandler m w"
    by (auto simp: dm_step_def TcpChannelHandler_HandleMessage_def split: prod.splits)
  moreover have "data \<noteq> []" using new_DoipMessage_tcp_payload [OF m(1)] m(3) by simp
  ultimately show thesis using that m by blast
qed

lemma carries_frame:
  assumes "data \<noteq> []" and "ty \<in> {kDoipDiagMessage, kDoipDiagMessagePosAck}" and "4 < unat len" and "unat len \<le> 4096"
  shows "carries (tcp_frame ty len a b data) ty data"
proof -
  let ?m = "\<lambda>ip port. \<lparr>host_ip_address = ip, host_port_number = port, protocol_version = kDoip_ProtocolVersion,
    protocol_version_inv = NOT kDoip_ProtocolVersion, server_address = b, client_address = a,
    payload_type = ty, payload_length = len, payload = data\<rparr>"
  have "fst (ProcessDoIPHeader (?m ip port) 0)" for ip port
    using assms
    by (auto simp: ProcessDoIPHeader_def ProcessDoIPPayloadLength_def doip_consts word_le_nat_alt)
  then show ?thesis unfolding carries_def parse_tcp_frame [OF assms(1)] by simp
qed

lemma pending_step:
  assumes "carries p kDoipDiagMessage data" and "is_pending data" and "2 < length data"
    and "length data \<le> unat (rx_buffer_size w)" and "dm_in dm_kWaitForDiagnosticResponse w"
  shows "dm_step io (Rx_Frame ip port p) w = Inr (cv_cancel (cv_goto cv_kDiagRecvdPendingRes w))"
  by (rule carriesD [OF assms(1), of ip port io w])
     (use assms(2-5) in \<open>auto simp: ProcessDoIPPayload_def ProcessDoIPDiagnosticMessageResponse_def
        dm_IndicateMessage_def is_pending_def doip_consts\<close>)

lemma final_step:
  assumes "carries p kDoipDiagMessage data" and "data ! 0 = 0x7F \<longrightarrow> 2 < length data \<and> data ! 2 \<noteq> 0x78"
    and "length data \<le> unat (rx_buffer_size w)" and "dm_in dm_kWaitForDiagnosticResponse w"
  shows "dm_step io (Rx_Frame ip port p) w = Inr (final_received data w)"
  by (rule carriesD [OF assms(1), of ip port io w])
     (use assms(2-4) in \<open>auto simp: ProcessDoIPPayload_def ProcessDoIPDiagnosticMessageResponse_def
        dm_IndicateMessage_def dm_message_copy_def dm_HandleMessage_def doip_consts
        final_received_def cv_cancel_def cv_goto_def dm_goto_def\<close>)

end
