(* ===== verification/Answered_Request.thy ===== *)
theory Answered_Request
  imports Request_Properties
begin

text \<open>
  The run of a diagnostic request that goes well: acknowledged in time, then any number of pending
  responses, each within its timeout, then the response.
\<close>

section \<open>The schedule\<close>

text \<open>
  For each pending response the frame and the look at the state after it; then the response and the
  last look.
\<close>

fun answers :: "string \<Rightarrow> u16 \<Rightarrow> (nat \<times> nat \<times> bytes) list \<Rightarrow> nat \<Rightarrow> nat \<Rightarrow> bytes \<Rightarrow>
    (nat \<times> channel_event list) list" where
  "answers ip port [] tr te response = [(tr, [Rx_Frame ip port response]), (te, [])]"
| "answers ip port ((tp, tk, p) # ps) tr te response =
     (tp, [Rx_Frame ip port p]) # (tk, []) # answers ip port ps tr te response"

text \<open>The first frame comes within \<open>wait\<close> of the look before it, each later one within \<open>star\<close>.\<close>

fun in_time :: "nat \<Rightarrow> nat \<Rightarrow> nat \<Rightarrow> (nat \<times> nat \<times> bytes) list \<Rightarrow> nat \<Rightarrow> bool" where
  "in_time wait star t0 [] tr \<longleftrightarrow> t0 \<le> tr \<and> tr < t0 + wait"
| "in_time wait star t0 ((tp, tk, p) # ps) tr \<longleftrightarrow> t0 \<le> tp \<and> tp < t0 + wait \<and> in_time star star tk ps tr"

definition is_pending_frame :: "nat \<Rightarrow> bytes \<Rightarrow> bool" where
  "is_pending_frame room p \<longleftrightarrow>
     (\<exists>data. carries p kDoipDiagMessage data \<and> is_pending data \<and> 2 < length data \<and> length data \<le> room)"

definition response_frame_of :: "nat \<Rightarrow> bytes \<Rightarrow> bytes \<Rightarrow> bool" where
  "response_frame_of room data p \<longleftrightarrow> carries p kDoipDiagMessage data \<and> length data \<le> room \<and>
     (if data ! 0 = 0x7F then 2 < length data \<and> data ! 2 \<noteq> 0x78 else True)"

section \<open>One frame within its timeout\<close>

lemma one_frame:
  assumes "step e (timer_update SyncTimer_arm w) = Inr v" and "now \<le> t" and "t < now + timeout"
    and "start_running (timer_of (timer_update SyncTimer_arm w))" "\<not> exit_request (timer_of (timer_update SyncTimer_arm w))"
    and "\<not> start_running (timer_of v)" "\<not> exit_request (timer_of v)"
  shows "WaitForTimeout timer_of timer_update step tf cf timeout now w ((t, [e]) # evs) =
    Returns (fst (cf v), t, snd (cf v), evs)"
proof -
  have "wait_until timer_of step (now + timeout) t v evs = Returns (kCancelRequested, t, v, evs)"
  proof (cases evs)
    case (Cons b bs)
    with assms(3,6,7) show ?thesis by (cases b) (simp add: wait_predicate_def)
  qed (use assms(3,6,7) in \<open>simp add: wait_predicate_def\<close>)
  with assms show ?thesis by (simp add: WaitForTimeout_def wait_predicate_def Let_def)
qed

text \<open>The state while the response is awaited.\<close>

definition awaiting :: "dm_world \<Rightarrow> bool" where
  "awaiting w \<longleftrightarrow> conv_ok w \<and> dm_in dm_kWaitForDiagnosticResponse w"

lemma awaiting_simps [simp]:
  "awaiting w \<Longrightarrow> awaiting (cv_goto s w)" "awaiting (cv_timer_update SyncTimer_arm w) = awaiting w"
  "awaiting w \<Longrightarrow> awaiting (cv_cancel w)"
proof -
  show "awaiting w \<Longrightarrow> awaiting (cv_goto s w)" "awaiting (cv_timer_update SyncTimer_arm w) = awaiting w"
    by (auto simp: awaiting_def link_in(2) conv_okD)
  show "awaiting w \<Longrightarrow> awaiting (cv_cancel w)"
    by (auto simp: awaiting_def link_in(2) conv_ok_def)
qed

lemma cv_arm_fields [simp]:
  "start_running (cv_timer (cv_timer_update SyncTimer_arm w))"
  "exit_request (cv_timer (cv_timer_update SyncTimer_arm w)) = exit_request (cv_timer w)"
  "rx_buffer_size (cv_timer_update f w) = rx_buffer_size w" "p2_client_max (cv_timer_update f w) = p2_client_max w"
  "p2_star_client_max (cv_timer_update f w) = p2_star_client_max w" "p2_star_client_max (cv_goto s w) = p2_star_client_max w"
  "p2_star_client_max (cv_cancel w) = p2_star_client_max w" "p2_client_max (cv_goto s w) = p2_client_max w"
  by (simp_all add: cv_goto_def cv_cancel_def)


lemma p2_star_same:
  "p2_star_cancellation_func = p2_cancellation_func" "p2_star_timeout_func = p2_timeout_func"
  by (simp_all add: fun_eq_iff p2_star_cancellation_func_def p2_cancellation_func_def p2_star_timeout_func_def
      p2_timeout_func_def)

lemma payload_update_channel [simp]:
  "chan_ok ((w::dm_world)\<lparr>payload_rx_buffer := b\<rparr>) = chan_ok w" "link (w\<lparr>payload_rx_buffer := b\<rparr>) = link w"
  "sent (w\<lparr>payload_rx_buffer := b\<rparr>) = sent w"
  by (rule conv_ok_truncate, simp)+

lemma final_received_awaiting:
  assumes "awaiting w"
  shows "conv_ok (final_received data w)" "cv_in s (final_received data w) \<longleftrightarrow> s = cv_kDiagSuccess"
    "payload_rx_buffer (final_received data w) = data" "sent (final_received data w) = sent w"
    "diag (link (final_received data w)) = dm_kIdle" "\<not> start_running (cv_timer (final_received data w))"
    "routing (link (final_received data w)) = routing (link w)"
proof -
  have ok: "chan_ok w" "link_inv (link w)" "cv_known w" "\<not> exit_request (cv_timer w)"
    using assms by (auto simp: awaiting_def conv_okD)
  let ?x = "cv_goto cv_kDiagSuccess ((cv_cancel (cv_goto cv_kDiagRecvdFinalRes w))\<lparr>payload_rx_buffer := data\<rparr>)"
  have x: "chan_ok ?x" "link ?x = link w" "cv_known ?x" "cv_in s ?x \<longleftrightarrow> s = cv_kDiagSuccess" "sent ?x = sent w"
      "payload_rx_buffer ?x = data" "\<not> start_running (cv_timer ?x)" "\<not> exit_request (cv_timer ?x)" for s
    using ok by auto
  have m: "diag_handler.more (dm_goto dm_kIdle ?x) = diag_handler.more ?x" by simp
  note f = more_fields [OF m]
  show "sent (final_received data w) = sent w" unfolding final_received_def using x(5) by simp
  show "cv_in s (final_received data w) \<longleftrightarrow> s = cv_kDiagSuccess" "payload_rx_buffer (final_received data w) = data"
    "\<not> start_running (cv_timer (final_received data w))" for s
    unfolding final_received_def f using x by simp_all
  show "diag (link (final_received data w)) = dm_kIdle" "routing (link (final_received data w)) = routing (link w)"
    unfolding final_received_def using x(1,2) by simp_all
  have "link_inv ((link w)\<lparr>diag := dm_kIdle\<rparr>)" using ok(2) by (simp add: link_inv_def)
  then show "conv_ok (final_received data w)"
    unfolding final_received_def conv_ok_def f using x by simp
qed

lemma loop_success:
  assumes "conv_ok v" and "cv_in cv_kDiagSuccess v"
  shows "response_loop step t res v [(te, [])] = Returns (FromValue Rx_Buffer_Reference, te, cv_goto cv_kIdle v, [])"
proof -
  have i: "cv_in cv_kIdle (cv_goto cv_kIdle v)" using assms(1) by (simp add: conv_okD)
  show ?thesis
    using GetActiveState_cv [OF assms(2)] GetActiveState_cv [OF i]
    by (simp add: response_loop.simps [of step t] response_loop.simps [of step te] next_window_def EmplaceValue_def)
qed

lemma answers_run:
  assumes "awaiting w" and "in_time wait (unat (p2_star_client_max w)) t0 ps tr"
    and "\<forall>(tp, tk, p) \<in> set ps. is_pending_frame (unat (rx_buffer_size w)) p"
    and "response_frame_of (unat (rx_buffer_size w)) data response"
  shows "\<exists>w'. bind_call
      (WaitForTimeout cv_timer cv_timer_update (dm_step io) (p2_timeout_func res) (p2_cancellation_func res) wait t0 w
        (answers ip port ps tr te response))
      (\<lambda>(result', t', w2, evs2). response_loop (dm_step io) t' result' w2 evs2)
      = Returns (FromValue Rx_Buffer_Reference, te, w', []) \<and> conv_ok w' \<and> cv_in cv_kIdle w' \<and>
    payload_rx_buffer w' = data \<and> sent w' = sent w \<and> diag (link w') = dm_kIdle \<and> routing (link w') = routing (link w)"
  using assms
proof (induction ps arbitrary: w t0 wait)
  case Nil
  let ?w = "cv_timer_update SyncTimer_arm w" and ?v = "final_received data (cv_timer_update SyncTimer_arm w)"
  have aw: "awaiting ?w" using Nil.prems(1) by simp
  note f = final_received_awaiting [OF aw]
  have st: "dm_step io (Rx_Frame ip port response) ?w = Inr ?v"
    using Nil.prems(1,4) by (intro final_step) (auto simp: response_frame_of_def awaiting_def link_in(2) conv_okD split: if_splits)
  have "WaitForTimeout cv_timer cv_timer_update (dm_step io) (p2_timeout_func res) (p2_cancellation_func res) wait t0 w
      ((tr, [Rx_Frame ip port response]) # [(te, [])]) =
      Returns (fst (p2_cancellation_func res ?v), tr, snd (p2_cancellation_func res ?v), [(te, [])])"
    by (rule one_frame [where step = "dm_step io" and timer_of = cv_timer and timer_update = cv_timer_update, OF st])
       (use Nil.prems(1,2) f conv_okD(4) in \<open>auto simp: awaiting_def\<close>)
  moreover have "p2_cancellation_func res ?v = (res, ?v)" using f(2) by (simp add: p2_cancellation_func_def)
  ultimately show ?case
    using loop_success [OF f(1) iffD2 [OF f(2) refl]] f conv_okD(3) [OF f(1)] by (simp add: conv_okD)
next
  case (Cons x ps)
  obtain tp tk p where x: "x = (tp, tk, p)" by (cases x)
  let ?w = "cv_timer_update SyncTimer_arm w"
  let ?v = "cv_cancel (cv_goto cv_kDiagRecvdPendingRes ?w)"
  let ?u = "cv_goto cv_kDiagStartP2StarTimer ?v"
  have ok: "conv_ok w" using Cons.prems(1) by (simp add: awaiting_def)
  have aw: "awaiting ?u" "awaiting ?v" using Cons.prems(1) by simp_all
  have k: "cv_known ?w" using ok by (simp add: conv_okD)
  obtain pd where pd: "carries p kDoipDiagMessage pd" "is_pending pd" "2 < length pd" "length pd \<le> unat (rx_buffer_size w)"
    using Cons.prems(3) by (auto simp: x is_pending_frame_def)
  have st: "dm_step io (Rx_Frame ip port p) ?w = Inr ?v"
    by (rule pending_step [OF pd(1-3)]) (use pd(4) Cons.prems(1) in \<open>auto simp: awaiting_def link_in(2) conv_okD\<close>)
  have "WaitForTimeout cv_timer cv_timer_update (dm_step io) (p2_timeout_func res) (p2_cancellation_func res) wait t0 w
      ((tp, [Rx_Frame ip port p]) # (tk, []) # answers ip port ps tr te response) =
      Returns (fst (p2_cancellation_func res ?v), tp, snd (p2_cancellation_func res ?v),
        (tk, []) # answers ip port ps tr te response)"
    by (rule one_frame [where step = "dm_step io" and timer_of = cv_timer and timer_update = cv_timer_update, OF st])
       (use Cons.prems(2) conv_okD(4) [OF ok] in \<open>auto simp: x\<close>)
  moreover have "p2_cancellation_func res ?v = (res, ?u)" using k by (simp add: p2_cancellation_func_def)
  moreover have "response_loop (dm_step io) tp res ?u ((tk, []) # answers ip port ps tr te response) =
      bind_call
        (WaitForTimeout cv_timer cv_timer_update (dm_step io) (p2_timeout_func res) (p2_cancellation_func res)
          (unat (p2_star_client_max w)) tk ?u (answers ip port ps tr te response))
        (\<lambda>(result', t', w2, evs2). response_loop (dm_step io) t' result' w2 evs2)"
    using GetActiveState_cv [of cv_kDiagStartP2StarTimer ?u] k
    by (simp add: response_loop.simps [of "dm_step io" tp] next_window_def p2_star_same)
  ultimately show ?case
    using Cons.IH [OF aw(1), of "unat (p2_star_client_max w)" tk] Cons.prems(2-4) by (simp add: x)
qed


section \<open>The acknowledgement\<close>

lemma ack_step:
  assumes "carries p kDoipDiagMessagePosAck data" and "data ! 0 = kDoipDiagnosticMessagePosAckCodeConfirm"
    and "dm_in dm_kWaitForDiagnosticAck w"
  shows "dm_step io (Rx_Frame ip port p) w = Inr (dm_cancel (dm_goto dm_kDiagnosticPositiveAckRecvd w))"
  by (rule carriesD [OF assms(1), of ip port io w])
     (use assms(2,3) in \<open>auto simp: ProcessDoIPPayload_def ProcessDoIPDiagnosticAckMessageResponse_def doip_consts span_at_nth\<close>)

definition acknowledgement :: "bytes \<Rightarrow> bool" where
  "acknowledgement p \<longleftrightarrow>
     (\<exists>data. carries p kDoipDiagMessagePosAck data \<and> data ! 0 = kDoipDiagnosticMessagePosAckCodeConfirm)"

text \<open>After the acknowledgement the channel waits for the response; nothing of the conversation has changed.\<close>

lemma dm_timer_goto [simp]: "dm_timer (dm_goto s w) = dm_timer w"
  by (simp add: dm_goto_def)

lemma dm_arm_fields [simp]:
  "start_running (dm_timer (dm_timer_update SyncTimer_arm w))"
  "exit_request (dm_timer (dm_timer_update SyncTimer_arm w)) = exit_request (dm_timer w)"
  "\<not> start_running (dm_timer (dm_cancel w))" "exit_request (dm_timer (dm_cancel w)) = exit_request (dm_timer w)"
  by (simp_all add: dm_cancel_def)

lemma acknowledged_transmission:
  assumes ok: "conv_ok w" and l: "routing (link w) = ra_kRoutingActivationSuccessful" "diag (link w) = dm_kIdle"
    and wr: "asio_write io (compose_diag_req msg)" "asio_endpoint_written io (compose_diag_req msg)" and a: "acknowledgement ack" "now \<le> ta" "ta < now + 2000"
  shows "\<exists>v. TcpChannel_Transmit io (dm_step io) now [] [] ((ta, [Rx_Frame ip port ack]) # evs) msg w =
      Returns (kTransmitOk, ta, v, evs) \<and> awaiting v \<and> sent v = sent w @ [compose_diag_req msg] \<and>
    diag_handler.more v = diag_handler.more w \<and> routing (link v) = ra_kRoutingActivationSuccessful"
proof -
  have ch: "chan_ok w" "link_inv (link w)" "cv_part_ok w" using ok by (simp_all add: conv_ok_parts)
  have con: "connection_state w = kConnected" using ch(2) l(1) by (simp add: link_inv_def link_def split: if_splits)
  let ?w1 = "w\<lparr>sent := sent w @ [compose_diag_req msg]\<rparr>"
  let ?w2 = "dm_goto dm_kWaitForDiagnosticAck ?w1"
  let ?w3 = "dm_timer_update SyncTimer_arm ?w2"
  let ?w4 = "dm_cancel (dm_goto dm_kDiagnosticPositiveAckRecvd ?w3)"
  let ?v = "dm_goto dm_kWaitForDiagnosticResponse ?w4"
  have ch3: "chan_ok ?w3" using ch(1) by simp
  have in3: "dm_in dm_kWaitForDiagnosticAck ?w3" using ch(1) ch3 by (simp add: link_in(2))
  obtain data where d: "carries ack kDoipDiagMessagePosAck data" "data ! 0 = kDoipDiagnosticMessagePosAckCodeConfirm"
    using a(1) by (auto simp: acknowledgement_def)
  have wait: "WaitForTimeout dm_timer dm_timer_update (dm_step io) dm_timeout_func dm_cancellation_func 2000 now ?w2
      ((ta, [Rx_Frame ip port ack]) # evs) = Returns (fst (dm_cancellation_func ?w4), ta, snd (dm_cancellation_func ?w4), evs)"
    by (rule one_frame [where step = "dm_step io" and timer_of = dm_timer and timer_update = dm_timer_update,
          OF ack_step [OF d in3]])
       (use a(2,3) chan_okD(4) [OF ch(1)] in auto)
  have cf: "dm_cancellation_func ?w4 = (kTransmitOk, ?v)"
    using ch3 by (simp add: dm_cancellation_func_def link_in(2))
  have t: "TcpChannel_Transmit io (dm_step io) now [] [] ((ta, [Rx_Frame ip port ack]) # evs) msg w =
      Returns (kTransmitOk, ta, ?v, evs)"
    using l ch(1) con wr wait cf
    by (simp add: TcpChannel_Transmit_def IsRoutingActivated_def link_in HandleDiagnosticRequest_def
        dm_SendDiagnosticRequest_eq kDoIPDiagnosticAckTimeout_def)
  have more: "diag_handler.more ?v = diag_handler.more w" by simp
  have "awaiting ?v"
    using ch ch3 l cv_part_more [OF more] by (simp add: awaiting_def conv_ok_parts link_in(2) link_inv_def con)
  then show ?thesis using t more l ch(1) ch3 by auto
qed


section \<open>The request\<close>

lemma answered_request:
  assumes "conv_ok w" and "routing (link w) = ra_kRoutingActivationSuccessful" and "diag (link w) = dm_kIdle"
    and "asio_write io (request_frame msg w) \<and> asio_endpoint_written io (request_frame msg w)"
    and "acknowledgement ack" and "now \<le> ta" and "ta < now + 2000"
    and "in_time (unat (p2_client_max w)) (unat (p2_star_client_max w)) t2 pendings tr"
    and "\<forall>(tp, tk, p) \<in> set pendings. is_pending_frame (unat (rx_buffer_size w)) p"
    and "response_frame_of (unat (rx_buffer_size w)) data response"
  shows "\<exists>w'. SendDiagnosticRequest io now [] []
      ((ta, [Rx_Frame ip port ack]) # (t1, []) # (t2, []) # answers ip port pendings tr te response) (Some msg) w
      = Returns (FromValue Rx_Buffer_Reference, te, w', []) \<and> payload_rx_buffer w' = data \<and>
    sent w' = sent w @ [request_frame msg w] \<and>
    conv_ok w' \<and> routing (link w') = ra_kRoutingActivationSuccessful \<and> diag (link w') = dm_kIdle"
proof -
  let ?m = "uds_message_down (source_address w) (target_address w) (req_host_ip msg) (req_payload msg)"
  obtain v where v: "TcpChannel_Transmit io (dm_step io) now [] []
        ((ta, [Rx_Frame ip port ack]) # (t1, []) # (t2, []) # answers ip port pendings tr te response) ?m w =
        Returns (kTransmitOk, ta, v, (t1, []) # (t2, []) # answers ip port pendings tr te response)"
      "awaiting v" "sent v = sent w @ [compose_diag_req ?m]" "diag_handler.more v = diag_handler.more w"
      "routing (link v) = ra_kRoutingActivationSuccessful"
    using acknowledged_transmission [OF assms(1-3) _ _ assms(5-7), of io ?m] assms(4) unfolding request_frame_def by blast
  note f = more_fields [OF v(4)]
  let ?v = "cv_goto cv_kDiagWaitForRes v"
  have aw: "awaiting ?v" using v(2) by simp
  have e: "p2_star_client_max ?v = p2_star_client_max w" "p2_client_max ?v = p2_client_max w" "rx_buffer_size ?v = rx_buffer_size w"
    by (simp_all add: f)
  obtain w' where w': "bind_call
      (WaitForTimeout cv_timer cv_timer_update (dm_step io) (p2_timeout_func (FromError kDiagRequestSendFailed))
        (p2_cancellation_func (FromError kDiagRequestSendFailed)) (unat (p2_client_max w)) t2 ?v
        (answers ip port pendings tr te response))
      (\<lambda>(result', t', w2, evs2). response_loop (dm_step io) t' result' w2 evs2)
      = Returns (FromValue Rx_Buffer_Reference, te, w', [])"
      "conv_ok w'" "payload_rx_buffer w' = data" "sent w' = sent ?v" "diag (link w') = dm_kIdle" "routing (link w') = routing (link ?v)"
    using answers_run [OF aw, of "unat (p2_client_max w)" t2 pendings tr data response io "FromError kDiagRequestSendFailed" ip port te]
      assms(8-10) unfolding e by blast
  have "SendDiagnosticRequest io now [] []
      ((ta, [Rx_Frame ip port ack]) # (t1, []) # (t2, []) # answers ip port pendings tr te response) (Some msg) w
      = Returns (FromValue Rx_Buffer_Reference, te, w', [])"
    using v(1) w'(1) by (simp add: SendDiagnosticRequest_def Let_def next_window_def f)
  with w' v(2,3,5) show ?thesis by (auto simp: awaiting_def conv_okD request_frame_def)
qed



end
