(* ===== verification/Vd_Request.thy ===== *)
theory Vd_Request
  imports Vd_Correct
begin

text \<open>
  The identification request from the call to its result: every way it can end, the sequence of
  application calls as a step relation with its invariant, and the run in which every response is
  handled as it comes.
\<close>

section \<open>Every way a request can end\<close>

definition vd_ok :: "vd_world \<Rightarrow> bool" where
  "vd_ok w \<longleftrightarrow> udp_chan_ok w \<and> vi_in vi_kIdle w \<and> collection_ok (vehicle_info_collection w)"

text \<open>The request went out, to the broadcast address, as the last message of all.\<close>

definition request_sent :: "VehicleAddrInfoRequest \<Rightarrow> vd_world \<Rightarrow> vd_world \<Rightarrow> bool" where
  "request_sent r w w' \<longleftrightarrow>
     (\<exists>val. DeserializeVehicleInfoRequest r = Inr (preselection_mode r, val) \<and>
       udp_sent w' = udp_sent w @ [(broadcast_address w, 13400, request_frame (preselection_mode r) val)])"

lemma message_down_fields [simp]:
  "uds_host_ip (vd_message_down (new_VdMessage mode val b)) = b"
  "uds_host_port (vd_message_down (new_VdMessage mode val b)) = 13400"
  "uds_payload (vd_message_down (new_VdMessage mode val b)) = 0 # mode # val"
  by (simp_all add: vd_message_down_def new_VdMessage_def SerializeVehicleInfoList_def VdMessage_GetHostPortNumber_def)

lemma compose_request_payload:
  "VerifyVehicleInfoRequest mode n \<Longrightarrow> compose_vehicle_identification_req (0 # mode # val) = Inr (request_frame mode val)"
  using compose_request_eq [of mode n val "''''"] by (simp add: new_VdMessage_def SerializeVehicleInfoList_def)

lemma UdpChannel_Transmit_vd:
  "UdpChannel_Transmit io step now win1 win2 evs (vd_message_down (new_VdMessage mode val b)) w =
     HandleVehicleIdentificationRequest io step now win1 win2 evs (vd_message_down (new_VdMessage mode val b)) w"
  by (simp add: UdpChannel_Transmit_def vector_at_def)

lemma vd_call_eq:
  assumes "DeserializeVehicleInfoRequest r = Inr (mode, val)"
    and "VerifyVehicleInfoRequest mode (word_of_nat (length val))"
  shows "VdConversation_SendVehicleIdentificationRequest io now win1 win2 evs r w =
    bind_call (HandleVehicleIdentificationRequest io vd_step now win1 win2 evs
        (vd_message_down (new_VdMessage mode val (broadcast_address w))) w) (\<lambda>(tr, t, w', rest).
      if tr \<noteq> kTransmitFailed then
        (if vehicle_info_collection w' = [] then Returns (FromError kNoResponseReceived, t, w', rest)
         else Returns (FromValue (map snd (vehicle_info_collection w')), t, w'\<lparr>vehicle_info_collection := []\<rparr>, rest))
      else Returns (FromError kTransmitFailed_VI, t, w', rest))"
  unfolding VdConversation_SendVehicleIdentificationRequest_def Let_def DoipUdpConnection_Transmit_def UdpChannel_Transmit_vd
    EmplaceError_def EmplaceValue_def VehicleInfoMessageImpl_def
  by (simp add: assms)

lemma vd_call_cases:
  assumes ret: "VdConversation_SendVehicleIdentificationRequest io now win1 win2 evs r w = Returns (res, t, w', rest)"
    and ok: "vd_ok w"
  obtains (Invalid) "\<not> request_accepted r" "res = FromError kInvalidParameters" "w' = w" "t = now"
  | (Failed) "request_accepted r" "res = FromError kTransmitFailed_VI" "vd_ok w'" "t = now" "udp_sent w' = udp_sent w"
  | (NoResponse) "request_accepted r" "res = FromError kNoResponseReceived" "vd_ok w'" "now + 2000 \<le> t"
      "vehicle_info_collection w' = []" "request_sent r w w'"
  | (Responses) c where "request_accepted r" "res = FromValue (map snd c)" "c \<noteq> []" "collection_ok c" "vd_ok w'"
      "now + 2000 \<le> t" "vehicle_info_collection w' = []" "request_sent r w w'"
proof -
  from ret obtain mode val where d: "DeserializeVehicleInfoRequest r = Inr (mode, val)"
    by (auto simp: VdConversation_SendVehicleIdentificationRequest_def Let_def bind_call_Returns_iff call_of_run_Returns_iff)
  note dd = Deserialize_Inr [OF d]
  show thesis
  proof (cases "request_accepted r")
    case False
    with dd have "\<not> VerifyVehicleInfoRequest mode (word_of_nat (length val))" by blast
    with ret d False show thesis
      by (intro Invalid) (simp_all add: VdConversation_SendVehicleIdentificationRequest_def Let_def EmplaceError_def)
  next
    case True
    with dd have v: "VerifyVehicleInfoRequest mode (word_of_nat (length val))" by blast
    let ?m = "vd_message_down (new_VdMessage mode val (broadcast_address w))"
    from ret d v obtain tr t1 w1 rest1 where
      h: "HandleVehicleIdentificationRequest io vd_step now win1 win2 evs ?m w = Returns (tr, t1, w1, rest1)"
      and c: "(if tr \<noteq> kTransmitFailed then
                 (if vehicle_info_collection w1 = []
                  then Returns (FromError kNoResponseReceived, t1, w1, rest1)
                  else Returns (FromValue (map snd (vehicle_info_collection w1)), t1,
                                w1\<lparr>vehicle_info_collection := []\<rparr>, rest1))
               else Returns (FromError kTransmitFailed_VI, t1, w1, rest1)) = Returns (res, t, w', rest)"
      by (auto simp: vd_call_eq bind_call_Returns_iff)
    have ok': "udp_chan_ok w" "collection_ok (vehicle_info_collection w)" "vi_in vi_kIdle w"
      using ok by (simp_all add: vd_ok_def)
    from h ok'(1) show thesis
    proof (rule vd_request_cases [where E = UNIV and P = "\<lambda>v. collection_ok (vehicle_info_collection v)"], goal_cases)
      case (1 e v v')
      then show ?case using vd_step_collection_ok by blast
    next
      case (2 v v')
      then show ?case by (simp add: udp_more_fields(1) [OF 2(1)])
    next
      case 3
      show ?case by simp
    next
      case 4
      show ?case by (rule ok'(2))
    next
      case 5
      with ok'(3) show ?case by simp
    next
      case 6
      with c True show ?case by (intro Failed) (auto simp: vd_ok_def)
    next
      case (7 q)
      have q: "q = request_frame mode val" using 7(2) compose_request_payload [OF v, of val] by simp
      have s: "request_sent r w w1"
        using 7(8) d dd by (auto simp: request_sent_def q)
      have s': "request_sent r w (w1\<lparr>vehicle_info_collection := x\<rparr>)" for x
        using s by (simp add: request_sent_def)
      have o: "vd_ok (w1\<lparr>vehicle_info_collection := []\<rparr>)"
        using 7 by (auto simp: vd_ok_def udp_chan_ok_def vi_in_def vi_known_def collection_ok_def map_sorted_def)
      show ?case
      proof (cases "vehicle_info_collection w1 = []")
        case True
        with c 7 s \<open>request_accepted r\<close> show ?thesis by (intro NoResponse) (auto simp: vd_ok_def)
      next
        case False
        with c 7 s' o \<open>request_accepted r\<close> show ?thesis
          by (intro Responses [of "vehicle_info_collection w1"]) auto
      qed
    qed
  qed
qed

section \<open>Starting and stopping\<close>

lemma UdpClient_Initialize_Inr:
  "UdpClient_Initialize io s = Inr s' \<Longrightarrow> s' = s \<or> s' = StartReceivingMessage s"
  by (auto simp: UdpClient_Initialize_def UdpConnection_Initialize_def UdpSocket_Open_def bind_run_Inr_iff Let_def
      split: if_splits)

lemma UdpClient_DeInitialize_Inr: "UdpClient_DeInitialize io s = Inr s' \<Longrightarrow> s' = s"
  by (auto simp: UdpClient_DeInitialize_def UdpConnection_DeInitialize_def UdpSocket_Close_def bind_run_Inr_iff)

lemma udp_chan_ok_sockets:
  "udp_chan_ok w \<Longrightarrow> udp_ok b \<Longrightarrow> udp_ok u \<Longrightarrow> udp_chan_ok (w\<lparr>bc_socket := b, uc_socket := u\<rparr>)"
  by (simp add: udp_chan_ok_def vi_in_def vi_known_def)

lemma vd_ok_activity [simp]: "vd_ok (w\<lparr>vd_activity_status := a\<rparr>) = vd_ok w"
  by (simp add: vd_ok_def udp_chan_ok_def vi_in_def vi_known_def)

lemma vd_ok_sockets:
  "vd_ok w \<Longrightarrow> udp_ok b \<Longrightarrow> udp_ok u \<Longrightarrow> vd_ok (w\<lparr>bc_socket := b, uc_socket := u\<rparr>)"
  by (simp add: vd_ok_def udp_chan_ok_sockets vi_in_def)

lemma vd_ok_Startup:
  assumes "VdConversation_Startup bc_io uc_io w = Inr w'" and "vd_ok w"
  shows "vd_ok w'"
proof -
  from assms(1) obtain b u where bu: "UdpClient_Initialize bc_io (bc_socket w) = Inr b"
      "UdpClient_Initialize uc_io (uc_socket w) = Inr u"
    and w': "w' = w\<lparr>bc_socket := b, uc_socket := u, vd_activity_status := kActive\<rparr>"
    by (auto simp: VdConversation_Startup_def UdpChannel_Start_def bind_run_Inr_iff)
  have "udp_ok (bc_socket w)" "udp_ok (uc_socket w)" using assms(2) by (simp_all add: vd_ok_def udp_chan_ok_def)
  then have "udp_ok b" "udp_ok u" using bu [THEN UdpClient_Initialize_Inr] by auto
  with assms(2) show ?thesis by (simp add: w' vd_ok_sockets)
qed

lemma vd_ok_Shutdown:
  "VdConversation_Shutdown bc_io uc_io w = Inr w' \<Longrightarrow> vd_ok w \<Longrightarrow> vd_ok w'"
  by (auto simp: VdConversation_Shutdown_def UdpChannel_Stop_def bind_run_Inr_iff
      split: if_splits dest!: UdpClient_DeInitialize_Inr)

lemma vd_ok_new: "vd_ok (new_VdConversation ip c)"
  by (auto simp: vd_ok_def new_VdConversation_def new_UdpChannel_def udp_channel.defs vd_world.defs udp_chan_ok_def
      vi_in_def vi_known_def collection_ok_def map_sorted_def ctx_simps)

lemma vd_ok_step:
  assumes "vd_step e w = Inr w'" and "vd_ok w"
  shows "vd_ok w'"
  using assms vd_step_ok [OF assms(1)] vd_step_collection_ok [OF assms(1)] by (simp add: vd_ok_def)

section \<open>The conversation over its lifetime\<close>

text \<open>
  The application starts and stops the conversation and sends requests, one call after another; the
  io context works during the calls and between them.
\<close>

inductive vd_app_step :: "vd_world \<Rightarrow> vd_world \<Rightarrow> bool" where
  startup: "VdConversation_Startup bc_io uc_io w = Inr w' \<Longrightarrow> vd_app_step w w'"
| shutdown: "VdConversation_Shutdown bc_io uc_io w = Inr w' \<Longrightarrow> vd_app_step w w'"
| request: "VdConversation_SendVehicleIdentificationRequest io now win1 win2 evs r w = Returns (res, t, w', rest) \<Longrightarrow>
    vd_app_step w w'"
| io_context: "vd_step e w = Inr w' \<Longrightarrow> vd_app_step w w'"

inductive vd_reachable :: "vd_world \<Rightarrow> bool" where
  start: "vd_reachable (new_VdConversation ip c)"
| further: "vd_reachable w \<Longrightarrow> vd_app_step w w' \<Longrightarrow> vd_reachable w'"

inductive_cases vd_app_stepE: "vd_app_step w w'"

lemma vd_app_step_ok: "vd_app_step w w' \<Longrightarrow> vd_ok w \<Longrightarrow> vd_ok w'"
proof (induction rule: vd_app_step.induct)
  case (request io now win1 win2 evs r w res t w' rest)
  from request(1,2) show ?case by (cases rule: vd_call_cases) (simp_all add: request(2))
qed (auto intro: vd_ok_Startup vd_ok_Shutdown vd_ok_step)

lemma vd_reachable_ok: "vd_reachable w \<Longrightarrow> vd_ok w"
  by (induction rule: vd_reachable.induct) (auto intro: vd_ok_new vd_app_step_ok)

section \<open>The run in which every response is handled as it comes\<close>

lemma collection_ok_emplace_all:
  assumes "collection_ok c" and "\<forall>r \<in> set rs. case r of (ip, port, dg) \<Rightarrow> 39 \<le> length dg"
  shows "collection_ok (std_map.emplace_all (map entry rs) c)"
  using assms
proof (induction rs arbitrary: c)
  case (Cons r rs)
  obtain ip port dg where r: "r = (ip, port, dg)" by (cases r)
  obtain k i where a: "announced ip (drop 8 dg) = (k, i)" by (cases "announced ip (drop 8 dg)")
  have "collection_ok (map_emplace k i c)"
    using collection_ok_emplace [of c "drop 8 dg" ip] Cons.prems by (simp add: r a le_diff_conv2)
  with Cons show ?case by (simp add: r entry_def a)
qed simp

lemma proper_length: "proper_response w r \<Longrightarrow> case r of (ip, port, dg) \<Rightarrow> 39 \<le> length dg"
  by (auto simp: proper_response_def)

lemma emplace_all_not_Nil: "c \<noteq> [] \<Longrightarrow> std_map.emplace_all kvs c \<noteq> []"
proof (induction kvs arbitrary: c)
  case (Cons kv kvs)
  then show ?case by (cases kv) simp
qed simp

lemma emplace_all_Nil_iff: "std_map.emplace_all kvs c = [] \<longleftrightarrow> kvs = [] \<and> c = []"
proof (cases kvs)
  case (Cons kv kvs')
  then show ?thesis by (cases kv) (simp add: emplace_all_not_Nil)
qed simp

text \<open>The state in which the call waits after a successful transmission.\<close>

definition after_sending :: "u8 \<Rightarrow> bytes \<Rightarrow> vd_world \<Rightarrow> vd_world" where
  "after_sending mode val w =
     (vi_goto vi_kWaitForVehicleIdentificationRes w)
       \<lparr>uc_socket := StartReceivingMessage (uc_socket w),
        udp_sent := udp_sent w @ [(broadcast_address w, 13400, request_frame mode val)]\<rparr>"

lemma after_sending_fields [simp]:
  "uc_socket (after_sending mode val w) = StartReceivingMessage (uc_socket w)"
  "vi_timer (after_sending mode val w) = vi_timer w"
  "udp_sent (after_sending mode val w) = udp_sent w @ [(broadcast_address w, 13400, request_frame mode val)]"
  "vehicle_info_collection (after_sending mode val w) = vehicle_info_collection w"
  by (simp_all add: after_sending_def vi_goto_def)

lemma after_sending_ok:
  assumes "udp_chan_ok w"
  shows "udp_chan_ok (after_sending mode val w)"
    "vi_in s (after_sending mode val w) \<longleftrightarrow> s = vi_kWaitForVehicleIdentificationRes"
proof -
  have k: "vi_known w" and g: "udp_chan_ok (vi_goto vi_kWaitForVehicleIdentificationRes w)"
    using assms by (simp_all add: udp_chan_ok_known)
  from g have "udp_ok (uc_socket (vi_goto vi_kWaitForVehicleIdentificationRes w))" by (simp add: udp_chan_ok_def)
  with g show "udp_chan_ok (after_sending mode val w)" by (simp add: after_sending_def udp_chan_ok_def vi_in_def vi_known_def)
  have "vi_in s (after_sending mode val w) = vi_in s (vi_goto vi_kWaitForVehicleIdentificationRes w)"
    by (simp add: after_sending_def vi_in_def)
  then show "vi_in s (after_sending mode val w) \<longleftrightarrow> s = vi_kWaitForVehicleIdentificationRes" using k by auto
qed

lemma Handle_after_sending:
  assumes "udp_chan_ok w" and "vi_in vi_kIdle w" and "VerifyVehicleInfoRequest mode n"
    and "udp_address io (broadcast_address w)"
    and "udp_send io (broadcast_address w) 13400 (request_frame mode val) = (True, length (request_frame mode val))"
  shows "HandleVehicleIdentificationRequest io vd_step now [] [] evs
      (vd_message_down (new_VdMessage mode val (broadcast_address w))) w =
    bind_call (WaitForTimeout vi_timer vi_timer_update vd_step vi_timeout_func vi_cancellation_func 2000 now
        (after_sending mode val w) evs)
      (\<lambda>(ret_val, t, w4, rest). Returns (ret_val, t, vi_goto vi_kIdle w4, rest))"
  using assms
  by (simp add: HandleVehicleIdentificationRequest_def SendVehicleIdentificationRequest_def compose_request_payload
      op_defs after_sending_def kDoIPCtrl_def)

end
