(* ===== verification/Vd_Properties.thy ===== *)
theory Vd_Properties
  imports Vd_Request
begin

text \<open>
  The properties of vehicle discovery, with a concrete run on which they are instantiated: a network
  that sends every request, and two vehicles that answer it.
\<close>

section \<open>A concrete run\<close>

definition udp_io_ok :: asio_udp where
  "udp_io_ok = \<lparr>udp_open = True, udp_options = True, udp_bind = True, udp_local_endpoint = True,
     udp_address = (\<lambda>ip. True), udp_send = (\<lambda>ip port bs. (True, length bs)), udp_close = True\<rparr>"

definition demo_vd_conf :: VDConversationType where
  "demo_vd_conf = \<lparr>conf_udp_address = ''172.16.25.127'', conf_udp_broadcast_address = ''255.255.255.255'',
     conf_udp_port_num = 0, conf_udp_handler_id = 0\<rparr>"

definition demo_vd :: vd_world where
  "demo_vd =
     (case VdConversation_Startup udp_io_ok udp_io_ok (new_VdConversation ''172.16.25.127'' demo_vd_conf) of
        Inr w \<Rightarrow> w | Inl e \<Rightarrow> new_VdConversation ''172.16.25.127'' demo_vd_conf)"

definition demo_announcement :: "u8 \<Rightarrow> bytes" where
  "demo_announcement n =
     CreateDoipGenericHeader kDoip_VehicleAnnouncement_ResType 33 @
     replicate 16 0x41 @ [n, 0xFA, n] @ [0, 2, 0x36, 0x31, 0, n] @ [0, 2, 0x36, 0x31, 0, 0x1C] @ [0, 0]"

definition demo_answer :: "u8 \<Rightarrow> string \<times> u16 \<times> bytes" where
  "demo_answer n = (''172.16.25.128'', 13400, demo_announcement n)"

definition demo_vd_request :: VehicleAddrInfoRequest where
  "demo_vd_request = \<lparr>preselection_mode = 0, preselection_value = ''''\<rparr>"

lemmas demo_vd_defs = udp_io_ok_def demo_vd_conf_def demo_announcement_def demo_answer_def demo_vd_request_def

text \<open>The socket of the demonstration, and the fields the properties ask about.\<close>

lemma demo_vd_facts:
  "VdConversation_Startup udp_io_ok udp_io_ok (new_VdConversation ''172.16.25.127'' demo_vd_conf) = Inr demo_vd"
  "completions (uc_socket demo_vd) = []" "outstanding (uc_socket demo_vd) = 1"
  "vehicle_info_collection demo_vd = []" "broadcast_address demo_vd = ''255.255.255.255''"
  "local_address (uc_socket demo_vd) = ''172.16.25.127''"
  by code_simp+

lemma demo_vd_broadcast:
  "completions (bc_socket demo_vd) = []" "outstanding (bc_socket demo_vd) = 1"
  "local_address (bc_socket demo_vd) = ''172.16.25.127''"
  by code_simp+

lemma demo_vd_ok: "vd_ok demo_vd"
  using demo_vd_facts(1) vd_ok_new by (rule vd_ok_Startup)

lemma demo_announcements_ok: "announcement_frame (demo_announcement 0x42) \<and> 39 \<le> length (demo_announcement 0x42)"
  "announcement_frame (demo_announcement 0x43) \<and> 39 \<le> length (demo_announcement 0x43)"
  by code_simp+

lemma demo_vd_request_facts:
  "request_accepted demo_vd_request" "DeserializeVehicleInfoRequest demo_vd_request = Inr (0, [])"
  by code_simp+

definition demo_vd_answers :: "(nat \<times> (string \<times> u16 \<times> bytes) list) list" where
  "demo_vd_answers = [(100, [demo_answer 0x43]), (150, [demo_answer 0x42, demo_answer 0x43])]"

definition demo_vd_schedule :: "(nat \<times> udp_event list) list" where
  "demo_vd_schedule = map (\<lambda>(t, rs). (t, concat (map prompt rs))) demo_vd_answers @ [(2000, [])]"

definition demo_vd_list :: "VehicleAddrInfoResponse list" where
  "demo_vd_list = map (\<lambda>n. snd (entry (demo_answer n))) [0x42, 0x43]"

definition demo_vd_done :: vd_world where
  "demo_vd_done =
     (case VdConversation_SendVehicleIdentificationRequest udp_io_ok 0 [] [] demo_vd_schedule demo_vd_request demo_vd of
        Returns (r, t, w, rest) \<Rightarrow> w | _ \<Rightarrow> demo_vd)"

lemma demo_vd_run:
  "VdConversation_SendVehicleIdentificationRequest udp_io_ok 0 [] [] demo_vd_schedule demo_vd_request demo_vd
     = Returns (FromValue demo_vd_list, 2000, demo_vd_done, [])"
  by code_simp

section \<open>The request\<close>

text \<open>C26: When an identification request returns, its result tells what happened: with the list of
  responses or the error "no response" the request was accepted and sent to the broadcast address,
  the call took the whole two-second window and nothing is left in the collection; the list is not
  empty, in the order of the logical addresses and without two for one address. Invalid parameters
  means that the check rejected the request and nothing happened at all; a failed transmission that
  nothing was sent. The conversation is idle and intact in every case.\<close>

theorem identification_request_outcomes:
  assumes "VdConversation_SendVehicleIdentificationRequest io now win1 win2 evs r w = Returns (res, t, w', rest)"
    and "vd_ok w"
  shows "vd_ok w' \<and>
    (case res of
       FromValue l \<Rightarrow> request_accepted r \<and> request_sent r w w' \<and> now + 2000 \<le> t \<and>
         vehicle_info_collection w' = [] \<and> l \<noteq> [] \<and> sorted_wrt (<) (map logical_address l)
     | FromError kInvalidParameters \<Rightarrow> \<not> request_accepted r \<and> w' = w \<and> t = now
     | FromError kTransmitFailed_VI \<Rightarrow> request_accepted r \<and> udp_sent w' = udp_sent w \<and> t = now
     | FromError kNoResponseReceived \<Rightarrow> request_accepted r \<and> request_sent r w w' \<and> now + 2000 \<le> t \<and>
         vehicle_info_collection w' = [])"
  using assms
proof (cases rule: vd_call_cases)
  case (Responses c)
  have "map logical_address (map snd c) = map fst c"
    using Responses(4) by (auto simp: collection_ok_def)
  with Responses(4) have "sorted_wrt (<) (map logical_address (map snd c))"
    by (simp only: collection_ok_def map_sorted_def)
  with Responses show ?thesis by simp
qed (use assms(2) in simp_all)

lemma identification_request_outcomes_witness:
  "vd_ok demo_vd_done \<and> request_sent demo_vd_request demo_vd demo_vd_done \<and>
   vehicle_info_collection demo_vd_done = [] \<and> sorted_wrt (<) (map logical_address demo_vd_list)"
  using identification_request_outcomes [OF demo_vd_run demo_vd_ok] by simp

lemma collected_responses:
  assumes "vd_ok w" and "completions (uc_socket w) = []" and "vehicle_info_collection w = []"
    and "request_accepted r" and "DeserializeVehicleInfoRequest r = Inr (mode, val)"
    and "udp_address io (broadcast_address w)"
    and "udp_send io (broadcast_address w) 13400 (request_frame mode val) = (True, length (request_frame mode val))"
    and "\<forall>(t, rs) \<in> set trs. t < now + 2000 \<and> (\<forall>a \<in> set rs. proper_response w a)"
    and "now + 2000 \<le> t_end" and "concat (map snd trs) \<noteq> []"
  shows "\<exists>l w'. VdConversation_SendVehicleIdentificationRequest io now [] []
        (map (\<lambda>(t, rs). (t, concat (map prompt rs))) trs @ (t_end, []) # rest) r w
      = Returns (FromValue l, t_end, w', rest) \<and>
    map_of (map (\<lambda>i. (logical_address i, i)) l) = map_of (map entry (concat (map snd trs))) \<and>
    outstanding (uc_socket w') = outstanding (uc_socket w) + 1 \<and> sorted_wrt (<) (map logical_address l) \<and>
    udp_sent w' = udp_sent w @ [(broadcast_address w, 13400, request_frame mode val)]"
proof -
  let ?evs = "map (\<lambda>(t, rs). (t, concat (map prompt rs))) trs @ (t_end, []) # rest"
  let ?c = "std_map.emplace_all (map entry (concat (map snd trs))) []"
  let ?w = "vi_timer_update SyncTimer_arm (after_sending mode val w)"
  have ok: "udp_chan_ok w" "vi_in vi_kIdle w" using assms(1) by (simp_all add: vd_ok_def)
  note v = Deserialize_Inr [OF assms(5)]
  with assms(4) have ver: "VerifyVehicleInfoRequest mode (word_of_nat (length val))" by blast
  have "ready ?w" using after_sending_ok(1) [OF ok(1)] assms(2) by (simp add: ready_def)
  moreover have "vi_in vi_kWaitForVehicleIdentificationRes ?w"
    using after_sending_ok(2) [OF ok(1)] by (simp add: vi_in_def)
  moreover have "\<forall>(t, rs) \<in> set trs. t < now + 2000 \<and> (\<forall>a \<in> set rs. proper_response ?w a)"
    using assms(8) by (auto simp: proper_response_def)
  ultimately obtain w1 where w1: "wait_until vi_timer vd_step (now + 2000) now ?w ?evs
      = Returns (kTimeout, t_end, w1, rest)" "ready w1" "same_but_collection w1 ?w"
      "vehicle_info_collection w1 = ?c"
    using wait_collects [of ?w trs "now + 2000" now t_end rest] assms(3,9) by auto
  have "HandleVehicleIdentificationRequest io vd_step now [] [] ?evs
      (vd_message_down (new_VdMessage mode val (broadcast_address w))) w =
      Returns (kTransmitOk, t_end, vi_goto vi_kIdle (vi_goto vi_kDoIPCtrlTimeout w1), rest)"
    unfolding Handle_after_sending [OF ok ver assms(6,7)]
    by (simp add: WaitForTimeout_def w1(1) vi_timeout_func_def Let_def)
  moreover have "vehicle_info_collection (vi_goto vi_kIdle (vi_goto vi_kDoIPCtrlTimeout w1)) = ?c"
    using w1(4) by (simp add: vi_goto_def)
  moreover have "?c \<noteq> []" using assms(10) by (simp add: emplace_all_Nil_iff)
  ultimately have "VdConversation_SendVehicleIdentificationRequest io now [] [] ?evs r w =
      Returns (FromValue (map snd ?c), t_end,
        (vi_goto vi_kIdle (vi_goto vi_kDoIPCtrlTimeout w1))\<lparr>vehicle_info_collection := []\<rparr>, rest)"
    by (simp add: vd_call_eq [OF assms(5) ver])
  moreover have "collection_ok ?c"
  proof (rule collection_ok_emplace_all)
    show "collection_ok []" by (simp add: collection_ok_def map_sorted_def)
    show "\<forall>a \<in> set (concat (map snd trs)). case a of (ip, port, dg) \<Rightarrow> 39 \<le> length dg"
      using assms(8) unfolding proper_response_def by fastforce
  qed
  then have "map (\<lambda>i. (logical_address i, i)) (map snd ?c) = ?c"
    by (auto simp: collection_ok_def intro!: map_idI)
  moreover have "map logical_address (map snd ?c) = map fst ?c"
    using \<open>collection_ok ?c\<close> by (auto simp: collection_ok_def)
  then have "sorted_wrt (<) (map logical_address (map snd ?c))"
    using \<open>collection_ok ?c\<close> by (simp only: collection_ok_def map_sorted_def)
  moreover have "map_of ?c = map_of (map entry (concat (map snd trs)))"
    by (rule std_map.lookup_emplace_all_empty) (simp_all add: map_sorted_def)
  moreover have "udp_sent (vi_goto vi_kIdle (vi_goto vi_kDoIPCtrlTimeout w1)) = udp_sent ?w"
    using w1(3) by (simp add: same_but_collection_def vi_goto_def)
  ultimately show ?thesis using w1(3)
    by (auto simp: same_but_collection_def)
qed

text \<open>C27: If the request can be sent and every response is handled before the next datagram comes,
  the call returns at the first clock reading past the window with one entry for each logical address
  that answered in time: the one of the first answer with that address. The socket has one more
  pending receive than before.\<close>

theorem identification_collects_responses:
  assumes "vd_ok w" and "completions (uc_socket w) = []" and "vehicle_info_collection w = []"
    and "request_accepted r" and "DeserializeVehicleInfoRequest r = Inr (mode, val)"
    and "udp_address io (broadcast_address w)"
    and "udp_send io (broadcast_address w) 13400 (request_frame mode val) = (True, length (request_frame mode val))"
    and "\<forall>(t, rs) \<in> set trs. t < now + 2000 \<and> (\<forall>a \<in> set rs. proper_response w a)"
    and "now + 2000 \<le> t_end" and "concat (map snd trs) \<noteq> []"
  shows "\<exists>l w'. VdConversation_SendVehicleIdentificationRequest io now [] []
        (map (\<lambda>(t, rs). (t, concat (map prompt rs))) trs @ (t_end, []) # rest) r w
      = Returns (FromValue l, t_end, w', rest) \<and>
    map_of (map (\<lambda>i. (logical_address i, i)) l) = map_of (map entry (concat (map snd trs))) \<and>
    outstanding (uc_socket w') = outstanding (uc_socket w) + 1"
  using collected_responses [OF assms] by blast

lemma identification_collects_responses_witness:
  "\<exists>l w'. VdConversation_SendVehicleIdentificationRequest udp_io_ok 0 [] []
        (map (\<lambda>(t, rs). (t, concat (map prompt rs))) demo_vd_answers @ (2000, []) # []) demo_vd_request demo_vd
      = Returns (FromValue l, 2000, w', []) \<and>
    map_of (map (\<lambda>i. (logical_address i, i)) l) = map_of (map entry (concat (map snd demo_vd_answers))) \<and>
    outstanding (uc_socket w') = 2"
proof -
  have a: "\<forall>(t, rs) \<in> set demo_vd_answers. t < 0 + 2000 \<and> (\<forall>a \<in> set rs. proper_response demo_vd a)"
    using demo_announcements_ok by (auto simp: demo_vd_answers_def proper_response_def demo_answer_def demo_vd_facts)
  show ?thesis
    using identification_collects_responses [OF demo_vd_ok demo_vd_facts(2,4) demo_vd_request_facts _ _ a, of udp_io_ok 2000 "[]"]
    by (simp add: udp_io_ok_def demo_vd_facts demo_vd_answers_def numeral_2_eq_2)
qed



section \<open>States\<close>

text \<open>C29: In every state the application can reach, whatever it calls and whatever the io context
  does, both sockets keep their buffer and no completion exceeds it, the handler is idle between
  calls, its timer can expire, and the collection is ordered by logical address with entries of the
  right shape.\<close>

theorem discovery_states_are_safe:
  assumes "vd_reachable w"
  shows "udp_ok (uc_socket w) \<and> udp_ok (bc_socket w) \<and> vi_in vi_kIdle w \<and> \<not> exit_request (vi_timer w) \<and>
    in_state (vd_context w) vd_kWaitForVehicleAnnouncement \<and> collection_ok (vehicle_info_collection w)"
  using vd_reachable_ok [OF assms] by (simp add: vd_ok_def udp_chan_ok_def)

lemma discovery_states_are_safe_witness:
  "udp_ok (uc_socket demo_vd_done) \<and> vi_in vi_kIdle demo_vd_done \<and> collection_ok (vehicle_info_collection demo_vd_done)"
proof -
  have "vd_reachable demo_vd"
    by (rule vd_reachable.further [OF vd_reachable.start]) (rule vd_app_step.startup [OF demo_vd_facts(1)])
  then have "vd_reachable demo_vd_done"
    by (rule vd_reachable.further) (rule vd_app_step.request [OF demo_vd_run])
  from discovery_states_are_safe [OF this] show ?thesis by simp
qed

section \<open>Reception\<close>

text \<open>C30: The reception of a datagram ends the process in exactly two situations: the datagram that is
  handed on has fewer than nine bytes, on either socket; or it is an announcement of fewer than
  thirty-nine bytes that the unicast socket receives while a request is waiting.\<close>

theorem datagram_faults_iff:
  assumes "udp_chan_ok w"
  shows "vd_step ev w = Inl e \<longleftrightarrow>
    (\<exists>rx ip port p s. ev = Completion rx \<and> receive_completes (socket_of rx w) = Inr (Some (ip, port, p), s) \<and>
      (length p < 9 \<and> e = Span_Abort \<or>
       9 \<le> length p \<and> length p < 39 \<and> rx = kUnicast \<and> announcement_frame p \<and>
         vi_in vi_kWaitForVehicleIdentificationRes w \<and> e = Vector_Out_Of_Bounds))"
proof (cases ev)
  case (Completion rx)
  obtain mo s where r: "receive_completes (socket_of rx w) = Inr (mo, s)"
    using receive_completes_Inr [OF udp_chan_ok_socket [OF assms]] by blast
  show ?thesis
  proof (cases mo)
    case None
    with r Completion show ?thesis by (auto simp: vd_step_def)
  next
    case (Some m)
    obtain ip port p where m: "m = (ip, port, p)" by (cases m)
    show ?thesis
      using r Completion Some
      by (cases rx) (auto simp: vd_step_def m udp_receive_def HandleMessageBroadcast_eq vd_unicast_eq)
  qed
qed (auto simp: vd_step_def)

lemma datagram_faults_iff_witness:
  "vd_step (Completion kBroadcast)
     (demo_vd\<lparr>bc_socket := datagram_arrives ''172.16.25.128'' 13400 [3, 0xFC] (bc_socket demo_vd)\<rparr>) = Inl Span_Abort"
proof -
  let ?w = "demo_vd\<lparr>bc_socket := datagram_arrives ''172.16.25.128'' 13400 [3, 0xFC] (bc_socket demo_vd)\<rparr>"
  have "udp_chan_ok ?w"
    using demo_vd_ok by (simp add: vd_ok_def udp_chan_ok_def udp_ok_arrives vi_in_def vi_known_def)
  moreover have "\<exists>s. receive_completes (socket_of kBroadcast ?w) = Inr (Some (''172.16.25.128'', 13400, [3, 0xFC]), s)"
    using datagram_then_handler [of "bc_socket demo_vd" "''172.16.25.128''" 13400 "[3, 0xFC]"] demo_vd_ok
      demo_vd_broadcast
    by (auto simp: socket_of_def vd_ok_def udp_chan_ok_def)
  ultimately show ?thesis using datagram_faults_iff [of ?w "Completion kBroadcast" Span_Abort] by auto
qed

text \<open>C31: When a second datagram is received before the handler of the first has run, which takes two
  pending receives, the first datagram is lost: what is handed on is the sender of the second with
  the bytes of the second, padded from the first or cut to the length of the first.\<close>

theorem overlapping_receives_lose_a_datagram:
  assumes "udp_ok s" and "completions s = []" and "2 \<le> outstanding s"
    and "length dg1 \<le> 40" and "length dg2 \<le> 40" and "ip2 \<noteq> local_address s"
  shows "\<exists>s'. receive_completes (datagram_arrives ip2 port2 dg2 (datagram_arrives ip1 port1 dg1 s)) =
    Inr (Some (ip2, port2, take (length dg1) (dg2 @ drop (length dg2) dg1)), s')"
proof -
  let ?s = "datagram_arrives ip2 port2 dg2 (datagram_arrives ip1 port1 dg1 s)"
  have b: "length (rx_buffer s) = 40" using assms(1) by (simp add: udp_ok_def)
  have f: "completions ?s = [length dg1, length dg2]" "remote_endpoint ?s = (ip2, port2)"
    "local_address ?s = local_address s"
    "rx_buffer ?s = dg2 @ drop (length dg2) (dg1 @ drop (length dg1) (rx_buffer s))"
    using assms(2-5) b by (simp_all add: datagram_arrives_def Let_def)
  have "take (length dg1) (rx_buffer ?s) = take (length dg1) (dg2 @ drop (length dg2) dg1)"
    by (cases "length dg2 \<le> length dg1") (simp_all add: f(4))
  moreover have "UdpSocket_Read (length dg1) (?s\<lparr>completions := [length dg2]\<rparr>) =
      Inr (FromValue (ip2, port2, take (length dg1) (rx_buffer ?s)), StartReceivingMessage (?s\<lparr>completions := [length dg2]\<rparr>))"
    using assms(4,6) f by (simp add: UdpSocket_Read_eq)
  ultimately show ?thesis by (simp add: receive_completes_def f(1))
qed

text \<open>Here a vehicle announces itself and another one answers with a truncated announcement: the first
  handler sees the answer of the second vehicle, completed from the first.\<close>

lemma overlapping_receives_lose_a_datagram_witness:
  "\<exists>s'. receive_completes (datagram_arrives ''172.16.25.129'' 13400 [3] (datagram_arrives ''172.16.25.128'' 13400 [1, 2]
      (StartReceivingMessage (uc_socket demo_vd)))) = Inr (Some (''172.16.25.129'', 13400, [3, 2]), s')"
  using overlapping_receives_lose_a_datagram [of "StartReceivingMessage (uc_socket demo_vd)" "[1, 2]" "[3]"
      "''172.16.25.129''" 13400 "''172.16.25.128''" 13400] demo_vd_ok
  by (simp add: demo_vd_facts vd_ok_def udp_chan_ok_def)

text \<open>Responses that arrive between the change of state and a transmission that fails stay in the
  collection; the failed call does not report them, the next successful one does.\<close>

theorem early_responses_survive_failure:
  assumes "vd_ok w" and "ready w" and "request_accepted r" and "DeserializeVehicleInfoRequest r = Inr (mode, val)"
    and "udp_address io (broadcast_address w)"
    and "udp_send io (broadcast_address w) 13400 (request_frame mode val) \<noteq> (True, length (request_frame mode val))"
    and "\<forall>a \<in> set rs. proper_response w a"
  shows "\<exists>w'. VdConversation_SendVehicleIdentificationRequest io now (concat (map prompt rs)) win2 evs r w
      = Returns (FromError kTransmitFailed_VI, now, w', evs) \<and>
    vehicle_info_collection w' = std_map.emplace_all (map entry rs) (vehicle_info_collection w) \<and>
    vi_in vi_kIdle w'"
proof -
  let ?w = "vi_goto vi_kWaitForVehicleIdentificationRes w"
  have ok: "udp_chan_ok w" "vi_in vi_kIdle w" using assms(1) by (simp_all add: vd_ok_def)
  from Deserialize_Inr [OF assms(4)] assms(3)
  have ver: "VerifyVehicleInfoRequest mode (word_of_nat (length val))" by blast
  have "ready ?w" "vi_in vi_kWaitForVehicleIdentificationRes ?w" "\<forall>a \<in> set rs. proper_response ?w a"
    using assms(2,7) ok by (simp_all add: ready_def udp_chan_ok_known proper_response_def)
  from prompts_delivered [OF this] obtain v where v: "deliver_all vd_step (concat (map prompt rs)) ?w = Inr v" "ready v"
    "vehicle_info_collection v = std_map.emplace_all (map entry rs) (vehicle_info_collection ?w)" by blast
  have s: "SendVehicleIdentificationRequest io (vd_message_down (new_VdMessage mode val (broadcast_address w))) v
      = Inr (kTransmitFailed, v)"
    using assms(5,6) by (simp add: SendVehicleIdentificationRequest_def compose_request_payload [OF ver] op_defs)
  have "vi_known v" using v(2) by (simp add: ready_def udp_chan_ok_known)
  with v s ok show ?thesis
    by (simp add: vd_call_eq [OF assms(4) ver] HandleVehicleIdentificationRequest_def vi_goto_def [of _ w]
        vi_goto_def [of _ v] vi_in_def vi_known_def ctx_simps)
qed

lemma early_responses_survive_failure_witness:
  "\<exists>w'. VdConversation_SendVehicleIdentificationRequest (udp_io_ok\<lparr>udp_send := \<lambda>ip port bs. (False, 0)\<rparr>) 0
      (concat (map prompt [demo_answer 0x42])) [] [] demo_vd_request demo_vd
      = Returns (FromError kTransmitFailed_VI, 0, w', []) \<and>
    vehicle_info_collection w' = std_map.emplace_all (map entry [demo_answer 0x42]) [] \<and> vi_in vi_kIdle w'"
proof -
  let ?io = "udp_io_ok\<lparr>udp_send := \<lambda>ip port bs. (False, 0)\<rparr>"
  have "ready demo_vd" using demo_vd_ok by (simp add: ready_def vd_ok_def demo_vd_facts)
  moreover have "udp_address ?io (broadcast_address demo_vd)" by (simp add: udp_io_ok_def)
  moreover have "udp_send ?io (broadcast_address demo_vd) 13400 (request_frame 0 []) \<noteq> (True, length (request_frame 0 []))"
    by simp
  moreover have "\<forall>a \<in> set [demo_answer 0x42]. proper_response demo_vd a"
    using demo_announcements_ok by (simp add: proper_response_def demo_answer_def demo_vd_facts)
  ultimately show ?thesis
    using early_responses_survive_failure [OF demo_vd_ok _ demo_vd_request_facts, of ?io "[demo_answer 0x42]" 0 "[]" "[]"]
    unfolding demo_vd_facts by blast
qed

section \<open>Conversions\<close>

text \<open>C32: Reading the preselection never throws and never leaves the string; it fails only for an EID
  with a blank pair of characters, where the byte is undetermined. What it yields passes the check
  exactly if there is no preselection, or the VIN has 17 characters modulo 256, or the EID has 11 or
  12 digits, colons aside, modulo 256.\<close>

theorem preselection_check:
  "(case DeserializeVehicleInfoRequest r of
      Inl e \<Rightarrow> preselection_mode r = 2 \<and> e = Indeterminate_Value
    | Inr (mode, val) \<Rightarrow> mode = preselection_mode r \<and>
        (VerifyVehicleInfoRequest mode (word_of_nat (length val)) \<longleftrightarrow> request_accepted r))"
  using Deserialize_Inl [of r] Deserialize_Inr [of r]
  by (auto split: sum.splits)

text \<open>A VIN of 17 characters is sent as an identification request with VIN: the frame, read back by
  the parser, has that payload type and length, and its payload is the VIN.\<close>

theorem vin_request_round_trip:
  assumes "length s = 17"
  shows "\<exists>val m. DeserializeVehicleInfoRequest \<lparr>preselection_mode = 1, preselection_value = s\<rparr> = Inr (1, val) \<and>
    new_DoipMessage kUdp ip port (request_frame 1 val) = Inr m \<and>
    payload_type m = kDoip_VehicleIdentificationVIN_ReqType \<and> unat (payload_length m) = length (payload m) \<and>
    map (\<lambda>b. char_of (unat b)) (payload m) = s"
proof -
  let ?val = "map (\<lambda>c. word_of_nat (of_char c)) s :: bytes"
  have d: "DeserializeVehicleInfoRequest \<lparr>preselection_mode = 1, preselection_value = s\<rparr> = Inr (1, ?val)"
    using assms by (simp add: DeserializeVehicleInfoRequest_def SerializeVINFromString_eq unat_u8_length)
  have "?val \<noteq> []" using assms by auto
  note parse = parse_udp_frame [OF this]
  have c: "char_of (unat (word_of_nat (of_char c) :: u8)) = c" for c
    by (simp add: unat_u8_length)
  have "map (\<lambda>b. char_of (unat b)) ?val = s" by (simp add: c comp_def)
  with d parse assms show ?thesis
    by (simp add: request_frame_def doip_consts)
qed

lemma vin_request_round_trip_witness:
  "\<exists>val m. DeserializeVehicleInfoRequest \<lparr>preselection_mode = 1, preselection_value = ''ABCDEFGH123456789''\<rparr> = Inr (1, val) \<and>
    new_DoipMessage kUdp ''255.255.255.255'' 13400 (request_frame 1 val) = Inr m \<and>
    payload_type m = kDoip_VehicleIdentificationVIN_ReqType \<and> unat (payload_length m) = length (payload m) \<and>
    map (\<lambda>b. char_of (unat b)) (payload m) = ''ABCDEFGH123456789''"
  by (rule vin_request_round_trip) simp

text \<open>The EID that a response reports can be used to ask for that vehicle: the text is read back to
  the six bytes, which are the payload of the frame that is sent.\<close>

theorem eid_request_round_trip:
  assumes "length bs = 6"
  shows "\<exists>m. DeserializeVehicleInfoRequest \<lparr>preselection_mode = 2, preselection_value = colon_text bs\<rparr> = Inr (2, bs) \<and>
    new_DoipMessage kUdp ip port (request_frame 2 bs) = Inr m \<and>
    payload_type m = kDoip_VehicleIdentificationEID_ReqType \<and> unat (payload_length m) = length (payload m) \<and>
    payload m = bs"
proof -
  have "DeserializeVehicleInfoRequest \<lparr>preselection_mode = 2, preselection_value = colon_text bs\<rparr> = Inr (2, bs)"
    using SerializeEIDGIDFromString_bytes [of bs] assms
    by (simp add: DeserializeVehicleInfoRequest_def Let_def filter_colon_text length_byte_texts)
  moreover have "bs \<noteq> []" using assms by auto
  note parse = parse_udp_frame [OF this]
  ultimately show ?thesis using parse assms
    by (simp add: request_frame_def doip_consts)
qed

lemma eid_request_round_trip_witness:
  "\<exists>m. DeserializeVehicleInfoRequest \<lparr>preselection_mode = 2, preselection_value = colon_text [0, 2, 0x36, 0x31, 0, 0x1C]\<rparr>
      = Inr (2, [0, 2, 0x36, 0x31, 0, 0x1C]) \<and>
    new_DoipMessage kUdp ''255.255.255.255'' 13400 (request_frame 2 [0, 2, 0x36, 0x31, 0, 0x1C]) = Inr m \<and>
    payload_type m = kDoip_VehicleIdentificationEID_ReqType \<and> unat (payload_length m) = length (payload m) \<and>
    payload m = [0, 2, 0x36, 0x31, 0, 0x1C]"
  by (rule eid_request_round_trip) simp

text \<open>An announcement laid out as VIN, logical address, EID, GID and anything more is decoded to
  these fields.\<close>

theorem announcement_round_trip:
  assumes "length v = 17" and "length e = 6" and "length g = 6"
  shows "DeserializeVehicleInfoResponse
      \<lparr>vdm_host_ip_address = ip, vdm_payload = v @ [u16_hi address, u16_lo address] @ e @ g @ trailing\<rparr> =
    Inr (address, \<lparr>ip_address = ip, logical_address = address, vin = map (\<lambda>b. char_of (unat b)) v,
      eid = colon_text e, gid = colon_text g\<rparr>)"
  using assms by (simp add: DeserializeVehicleInfoResponse_eq announced_def nth_append)

lemma announcement_round_trip_witness:
  "DeserializeVehicleInfoResponse
      \<lparr>vdm_host_ip_address = ''172.16.25.128'',
       vdm_payload = replicate 17 0x41 @ [u16_hi 0xFA01, u16_lo 0xFA01] @ [0, 2, 0x36, 0x31, 0, 0x1C] @ replicate 6 0xFF @ []\<rparr> =
    Inr (0xFA01, \<lparr>ip_address = ''172.16.25.128'', logical_address = 0xFA01,
      vin = map (\<lambda>b. char_of (unat b)) (replicate 17 (0x41 :: u8)),
      eid = colon_text [0, 2, 0x36, 0x31, 0, 0x1C], gid = colon_text (replicate 6 0xFF)\<rparr>)"
  by (rule announcement_round_trip) simp_all

end
