(* ===== verification/End_To_End.thy ===== *)
theory End_To_End
  imports Vehicle_Correct Answered_Request Vd_Properties
begin

text \<open>
  The client together with the simulated vehicle: each side reads what the other has written, on the paths
  through all layers of the client.
\<close>

section \<open>Connecting\<close>

lemma carries_activation:
  assumes "data \<noteq> []" and "unat len \<in> {9, 13}"
  shows "carries (tcp_frame kDoip_RoutingActivation_ResType len a b data) kDoip_RoutingActivation_ResType data"
proof -
  let ?m = "\<lambda>ip port. \<lparr>host_ip_address = ip, host_port_number = port, protocol_version = kDoip_ProtocolVersion,
    protocol_version_inv = NOT kDoip_ProtocolVersion, server_address = b, client_address = a,
    payload_type = kDoip_RoutingActivation_ResType, payload_length = len, payload = data\<rparr>"
  have "fst (ProcessDoIPHeader (?m ip port) 0)" for ip port
    using assms(2)
    by (auto simp: ProcessDoIPHeader_def ProcessDoIPPayloadLength_def doip_consts word_le_nat_alt)
  then show ?thesis unfolding carries_def parse_tcp_frame [OF assms(1)] by simp
qed

lemma activation_step:
  assumes "carries p kDoip_RoutingActivation_ResType data" and "data ! 0 = kDoipRoutingActivationResCodeRoutingSuccessful"
    and "ra_in ra_kWaitForRoutingActivationRes w"
  shows "dm_step io (Rx_Frame ip port p) w = Inr (ra_cancel (ra_goto ra_kRoutingActivationSuccessful w))"
  by (rule carriesD [OF assms(1), of ip port io w])
     (use assms(2,3) in \<open>auto simp: ProcessDoIPPayload_def ProcessDoIPRoutingActivationResponse_def doip_consts span_at_nth\<close>)

lemma peer_update:
  fixes w :: dm_world
  shows "link (w\<lparr>remote_address := ip, target_address := target\<rparr>) = link w"
    "chan_ok (w\<lparr>remote_address := ip, target_address := target\<rparr>) = chan_ok w"
    "sent (w\<lparr>remote_address := ip, target_address := target\<rparr>) = sent w"
    "cv_part_ok (w\<lparr>remote_address := ip, target_address := target\<rparr>) = cv_part_ok w"
proof -
  have "diag_handler.truncate (w\<lparr>remote_address := ip, target_address := target\<rparr>) = diag_handler.truncate w"
    by (simp add: diag_handler.defs)
  from conv_ok_truncate [OF this] show "link (w\<lparr>remote_address := ip, target_address := target\<rparr>) = link w"
    "chan_ok (w\<lparr>remote_address := ip, target_address := target\<rparr>) = chan_ok w"
    "sent (w\<lparr>remote_address := ip, target_address := target\<rparr>) = sent w" by blast+
  show "cv_part_ok (w\<lparr>remote_address := ip, target_address := target\<rparr>) = cv_part_ok w"
    by (simp add: cv_part_ok_def cv_known_def cv_in_def)
qed

text \<open>On a network that does all it is asked, a vehicle that answers within the second is connected to.\<close>

definition obliging :: "asio_io \<Rightarrow> string \<Rightarrow> bool" where
  "obliging io ip \<longleftrightarrow> asio_address io ip \<and> asio_connect io ip DmUdsMessage_GetHostPortNumber \<and> asio_endpoint_connected io \<and>
     (\<forall>frame. asio_write io frame \<and> asio_endpoint_written io frame)"

lemma activated_connection:
  assumes ok: "conv_ok w" and l: "routing (link w) = ra_kIdle" "diag (link w) = dm_kIdle" "connection_state w = kDisconnected"
    and io: "obliging io ip"
    and a: "carries p kDoip_RoutingActivation_ResType data" "data ! 0 = kDoipRoutingActivationResCodeRoutingSuccessful"
    and t: "now \<le> ta" "ta < now + 1000"
  shows "\<exists>w'. ConnectToDiagServer io now [] [] ((ta, [Rx_Frame h port p]) # evs) target ip w =
      Returns (kConnectSuccess, ta, w', evs) \<and> conv_ok w' \<and> routing (link w') = ra_kRoutingActivationSuccessful \<and>
    diag (link w') = dm_kIdle \<and> target_address w' = target \<and> source_address w' = source_address w \<and>
    p2_client_max w' = p2_client_max w \<and> p2_star_client_max w' = p2_star_client_max w \<and>
    rx_buffer_size w' = rx_buffer_size w \<and>
    sent w' = sent w @ [compose_routing_activation_req (uds_message_down (source_address w) target ip [])]"
proof -
  let ?m = "uds_message_down (source_address w) target ip []"
  let ?frame = "compose_routing_activation_req ?m"
  let ?v = "w\<lparr>running := True, connection_state := kConnected\<rparr>"
  let ?w1 = "?v\<lparr>sent := sent w @ [?frame]\<rparr>"
  let ?w2 = "ra_goto ra_kWaitForRoutingActivationRes ?w1"
  let ?w3 = "ra_timer_update SyncTimer_arm ?w2"
  let ?w4 = "ra_cancel (ra_goto ra_kRoutingActivationSuccessful ?w3)"
  have ch: "chan_ok w" "link_inv (link w)" "cv_part_ok w" using ok by (simp_all add: conv_ok_parts)
  have ch3: "chan_ok ?w3" using ch(1) by simp
  have in3: "ra_in ra_kWaitForRoutingActivationRes ?w3" using ch(1) ch3 by (simp add: link_in(1))
  have wait: "WaitForTimeout ra_timer ra_timer_update (dm_step io) ra_timeout_func ra_cancellation_func 1000 now ?w2
      ((ta, [Rx_Frame h port p]) # evs) = Returns (fst (ra_cancellation_func ?w4), ta, snd (ra_cancellation_func ?w4), evs)"
    by (rule one_frame [where step = "dm_step io" and timer_of = ra_timer and timer_update = ra_timer_update,
          OF activation_step [OF a in3]])
       (use t chan_okD(3) [OF ch(1)] in \<open>auto simp: ra_cancel_def ra_goto_def\<close>)
  have cf: "ra_cancellation_func ?w4 = (kConnectionOk, ?w4)"
    using ch3 by (simp add: ra_cancellation_func_def link_in(1))
  have up: "TcpClient_ConnectToHost io ip DmUdsMessage_GetHostPortNumber w = Inr (FromValue (), ?v)"
    using io l(3) by (simp add: TcpClient_ConnectToHost_eq obliging_def)
  have c: "TcpChannel_ConnectToHost io (dm_step io) now [] [] ((ta, [Rx_Frame h port p]) # evs) ?m w =
      Returns (kConnectionOk, ta, ?w4, evs)"
    using l ch(1) io wait cf
    by (simp add: TcpChannel_ConnectToHost_def uds_message_down_def up HandleRoutingActivationRequest_def
        SendRoutingActivationRequest_eq kDoIPRoutingActivationTimeout_def obliging_def link_in
        TcpClient_ConnectToHost_eq)
  have more: "diag_handler.more ?w4 = diag_handler.more w" by simp
  note f = more_fields [OF more]
  let ?w5 = "?w4\<lparr>remote_address := ip, target_address := target\<rparr>"
  have ret: "ConnectToDiagServer io now [] [] ((ta, [Rx_Frame h port p]) # evs) target ip w =
      Returns (kConnectSuccess, ta, ?w5, evs)"
    using c by (simp add: ConnectToDiagServer_def cast_ConnectResult_def)
  have l4: "link ?w4 = link w\<lparr>connected := True, routing := ra_kRoutingActivationSuccessful\<rparr>" "chan_ok ?w4"
    using ch(1) by simp_all
  have l5: "link ?w5 = link ?w4" "chan_ok ?w5 = chan_ok ?w4" "sent ?w5 = sent ?w4"
    by (simp_all only: peer_update)
  have "cv_part_ok ?w5 = cv_part_ok ?w4" by (simp only: peer_update)
  then have "conv_ok ?w5"
    using ch(2,3) l4 l5 cv_part_more [OF more] l(2) by (simp add: conv_ok_parts link_inv_def)
  moreover have "routing (link ?w5) = ra_kRoutingActivationSuccessful" "diag (link ?w5) = dm_kIdle"
    unfolding l5 l4 using l(2) by simp_all
  moreover have "sent ?w4 = sent w @ [?frame]" by simp
  ultimately show ?thesis
    unfolding ret by (simp add: f l5(3))
qed

section \<open>The session\<close>

lemma vehicle_reads_request:
  assumes "uds_payload msg \<noteq> []" and "length (uds_payload msg) < 2 ^ 32 - 4"
  shows "sim_ProcessReceivedTcpMessage (ip, port, compose_diag_req msg) =
    Inr ([], Some (DiagnosticRequest (uds_sa msg) (uds_ta msg) (uds_payload msg)))"
  unfolding compose_diag_req_frame by (rule vehicle_reads_diagnostic_request [OF assms])

text \<open>C23: The vehicle of the component tests understands the two requests of the client: the activation request,
  as one of the client's address with the default type, no manufacturer data and the reserved bytes zero, and a
  diagnostic request with data, as the same data from the client's to the server's address.\<close>

theorem vehicle_understands_requests:
  assumes "uds_payload msg \<noteq> []" and "length (uds_payload msg) < 2 ^ 32 - 4"
  shows "sim_ProcessReceivedTcpMessage (ip, port, compose_diag_req msg) =
      Inr ([], Some (DiagnosticRequest (uds_sa msg) (uds_ta msg) (uds_payload msg))) \<and>
    sim_ProcessReceivedTcpMessage (ip, port, compose_routing_activation_req msg) =
      Inr ([True, True, True, True], Some (RoutingActivationRequest (uds_sa msg) 0 None))"
  using vehicle_reads_request [OF assms] vehicle_reads_activation_request [of ip port msg]
  by (simp add: doip_consts)

theorem vehicle_understands_requests_witness:
  "sim_ProcessReceivedTcpMessage (''172.16.25.127'', 50000, compose_diag_req (uds_message_down 0x0E80 0x1234 ''172.16.25.128'' [0x22, 0xF1, 0x90])) =
     Inr ([], Some (DiagnosticRequest 0x0E80 0x1234 [0x22, 0xF1, 0x90]))"
  using vehicle_understands_requests [of "uds_message_down 0x0E80 0x1234 ''172.16.25.128'' [0x22, 0xF1, 0x90]" "''172.16.25.127''" 50000]
  by (simp add: uds_message_down_def)

text \<open>The frames of the vehicle as the client's channel takes them.\<close>

lemma response_carries:
  assumes "ComposeDiagnosticResponseMessage a b data = Inr (x, i, q, p)" and "data \<noteq> []" and "length data \<le> 4092"
  shows "carries p kDoipDiagMessage data"
proof -
  have p: "p = tcp_frame kDoipDiagMessage (word_of_nat (4 + length data)) a b data"
    using assms(1) by (simp add: vehicle_frames)
  have "unat (word_of_nat (4 + length data) :: u32) = 4 + length data"
    unfolding unat_of_nat using assms(3) by simp
  then show ?thesis unfolding p using assms(2,3) by (intro carries_frame) (auto simp del: of_nat_add)
qed

lemma pending_is_pending:
  assumes "ComposeDiagnosticResponseMessage a b [0x7F, sid, 0x78] = Inr (x, i, q, p)" and "3 \<le> room"
  shows "is_pending_frame room p"
  using response_carries [OF assms(1)] assms(2) by (auto simp: is_pending_frame_def is_pending_def doip_consts)

lemma activation_carries:
  assumes "ComposeRoutingActivationResponse a b code vm = (i, q, p)"
  shows "carries p kDoip_RoutingActivation_ResType [code, 0, 0, 0, 0]"
  using assms by (auto simp: vehicle_frames intro!: carries_activation)

lemma ack_acknowledges:
  assumes "ComposeDiagnosticPositiveAcknowledgementMessage a b 0 = (i, q, p)"
  shows "acknowledgement p"
proof -
  have "p = tcp_frame kDoipDiagMessagePosAck 5 a b [0]" using assms by (simp add: vehicle_frames)
  then have "carries p kDoipDiagMessagePosAck [0]" by (simp add: carries_frame)
  then show ?thesis by (auto simp: acknowledgement_def doip_consts)
qed

text \<open>C3: A whole session with the vehicle of the component tests. A started conversation without a connection
  connects on a network that does what it is asked, the vehicle answers within the second that it activates
  routing, and a request is sent; the vehicle acknowledges it within two seconds, sends any number of pending
  responses and then a response, in time and of a size that fits. Then the connection succeeds, the request
  yields the bytes of the vehicle's response, and the client has sent two frames, which the vehicle reads as the
  activation request of this client and as the request, for the address the client connected to.\<close>

theorem session_with_the_vehicle:
  assumes "app_reachable io conf w" and "connection_state w = kDisconnected" and "obliging io ip"
    and "ComposeRoutingActivationResponse (source_address w) target 0x10 vm = (i0, q0, activation)"
    and "ComposeDiagnosticPositiveAcknowledgementMessage target (source_address w) 0 = (i1, q1, ack)"
    and "\<forall>(tp, tk, p) \<in> set pendings. \<exists>sid x i q.
      ComposeDiagnosticResponseMessage target (source_address w) [0x7F, sid, 0x78] = Inr (x, i, q, p)"
    and "ComposeDiagnosticResponseMessage target (source_address w) data = Inr (x2, i2, q2, response)"
    and "data \<noteq> []" and "length data \<le> 4092" and "max 3 (length data) \<le> unat (rx_buffer_size w)"
    and "data ! 0 = 0x7F \<longrightarrow> 2 < length data \<and> data ! 2 \<noteq> 0x78"
    and "req_payload msg \<noteq> []" and "length (req_payload msg) < 2 ^ 32 - 4"
    and "now \<le> t0" and "t0 < now + 1000" and "now2 \<le> ta" and "ta < now2 + 2000"
    and "in_time (unat (p2_client_max w)) (unat (p2_star_client_max w)) t2 pendings tr"
  shows "\<exists>w1 w' resp f1 f2.
    ConnectToDiagServer io now [] [] [(t0, [Rx_Frame ip port activation])] target ip w = Returns (kConnectSuccess, t0, w1, []) \<and>
    SendDiagnosticRequest io now2 [] []
      ((ta, [Rx_Frame ip port ack]) # (t1, []) # (t2, []) # answers ip port pendings tr te response) (Some msg) w1
      = Returns (FromValue resp, te, w', []) \<and>
    DmUdsResponse_GetPayload resp w' = data \<and> sent w' = sent w @ [f1, f2] \<and>
    sim_ProcessReceivedTcpMessage (ip1, port1, f1) =
      Inr ([True, True, True, True], Some (RoutingActivationRequest (source_address w) 0 None)) \<and>
    sim_ProcessReceivedTcpMessage (ip1, port1, f2) =
      Inr ([], Some (DiagnosticRequest (source_address w) target (req_payload msg)))"
proof -
  have inv: "conv_ok w" "quiet (link w)" "link_inv (link w)"
    using app_reachable_inv [OF assms(1)] by (auto simp: app_inv_def conv_okD)
  have "\<not> connected (link w)" using assms(2) by (simp add: link_def)
  then have l: "routing (link w) = ra_kIdle" "diag (link w) = dm_kIdle"
    using inv(2,3) by (auto simp: quiet_def link_inv_def)
  have code: "[0x10, 0, 0, 0, 0 :: u8] ! 0 = kDoipRoutingActivationResCodeRoutingSuccessful" by (simp add: doip_consts)
  let ?m1 = "uds_message_down (source_address w) target ip []"
  obtain w1 where w1: "ConnectToDiagServer io now [] [] [(t0, [Rx_Frame ip port activation])] target ip w =
        Returns (kConnectSuccess, t0, w1, [])" "conv_ok w1"
      "routing (link w1) = ra_kRoutingActivationSuccessful" "diag (link w1) = dm_kIdle"
    and f: "target_address w1 = target" "source_address w1 = source_address w" "p2_client_max w1 = p2_client_max w"
      "p2_star_client_max w1 = p2_star_client_max w" "rx_buffer_size w1 = rx_buffer_size w"
      "sent w1 = sent w @ [compose_routing_activation_req ?m1]"
    using activated_connection [OF inv(1) l assms(2,3) activation_carries [OF assms(4)] code assms(14,15),
        of ip port "[]" target] by blast
  let ?m2 = "uds_message_down (source_address w) target (req_host_ip msg) (req_payload msg)"
  have rf: "Conversation_Correct.request_frame msg w1 = compose_diag_req ?m2" by (simp add: Conversation_Correct.request_frame_def f)
  have wr: "asio_write io (Conversation_Correct.request_frame msg w1) \<and>
      asio_endpoint_written io (Conversation_Correct.request_frame msg w1)"
    using assms(3) by (simp add: obliging_def)
  have pend: "\<forall>(tp, tk, p) \<in> set pendings. is_pending_frame (unat (rx_buffer_size w1)) p"
    using assms(6,10) unfolding f by (fastforce intro: pending_is_pending)
  have resp: "response_frame_of (unat (rx_buffer_size w1)) data response"
    using response_carries [OF assms(7-9)] assms(10,11) by (simp add: response_frame_of_def f)
  have timing: "in_time (unat (p2_client_max w1)) (unat (p2_star_client_max w1)) t2 pendings tr"
    unfolding f by (rule assms(18))
  obtain w' where w': "SendDiagnosticRequest io now2 [] []
        ((ta, [Rx_Frame ip port ack]) # (t1, []) # (t2, []) # answers ip port pendings tr te response) (Some msg) w1
        = Returns (FromValue Rx_Buffer_Reference, te, w', [])"
      "payload_rx_buffer w' = data" "sent w' = sent w1 @ [compose_diag_req ?m2]"
    using answered_request [OF w1(2-4) wr ack_acknowledges [OF assms(5)] assms(16,17) timing pend resp]
    unfolding rf by blast
  have "DmUdsResponse_GetPayload Rx_Buffer_Reference w' = data" using w'(2) by (simp add: DmUdsResponse_GetPayload_def)
  moreover have "sent w' = sent w @ [compose_routing_activation_req ?m1, compose_diag_req ?m2]" using w'(3) f by simp
  moreover have "sim_ProcessReceivedTcpMessage (ip1, port1, compose_routing_activation_req ?m1) =
      Inr ([True, True, True, True], Some (RoutingActivationRequest (source_address w) 0 None))"
    by (simp add: vehicle_reads_activation_request uds_message_down_def doip_consts)
  moreover have "sim_ProcessReceivedTcpMessage (ip1, port1, compose_diag_req ?m2) =
      Inr ([], Some (DiagnosticRequest (source_address w) target (req_payload msg)))"
    using vehicle_reads_request [of ?m2 ip1 port1] assms(12,13) by (simp add: uds_message_down_def)
  ultimately show ?thesis using w1(1) w'(1) by blast
qed

lemma vehicle_demo_frames:
  "ComposeRoutingActivationResponse 0x0E80 0x1234 0x10 None = ('''', 0, ra_frame)"
  "ComposeDiagnosticPositiveAcknowledgementMessage 0x1234 0x0E80 0 = ('''', 0, ack_frame)"
  "ComposeDiagnosticResponseMessage 0x1234 0x0E80 [0x7F, 0x22, 0x78] = Inr ([True], '''', 0, pending_frame)"
  "ComposeDiagnosticResponseMessage 0x1234 0x0E80 [0x62, 0xF1, 0x90] = Inr ([True], '''', 0, response_frame)"
  by (simp_all add: vehicle_frames ra_frame_def ack_frame_def pending_frame_def response_frame_def)

theorem session_with_the_vehicle_witness:
  "\<exists>w1 w' resp f1 f2.
    ConnectToDiagServer io_ok 0 [] [] [(5, [rx ra_frame])] 0x1234 ''172.16.25.128'' demo_start = Returns (kConnectSuccess, 5, w1, []) \<and>
    SendDiagnosticRequest io_ok 7 [] [] demo_schedule (Some demo_request) w1 = Returns (FromValue resp, 201, w', []) \<and>
    DmUdsResponse_GetPayload resp w' = [0x62, 0xF1, 0x90] \<and> sent w' = sent demo_start @ [f1, f2] \<and>
    sim_ProcessReceivedTcpMessage (''172.16.25.127'', 50000, f2) = Inr ([], Some (DiagnosticRequest 0x0E80 0x1234 [0x22, 0xF1, 0x90]))"
proof -
  have st: "connection_state demo_start = kDisconnected" "source_address demo_start = 0x0E80"
    "unat (rx_buffer_size demo_start) = 100" "unat (p2_client_max demo_start) = 50" "unat (p2_star_client_max demo_start) = 500"
    by code_simp+
  have io: "obliging io_ok ''172.16.25.128''" by (simp add: obliging_def io_ok_def)
  note fr = vehicle_demo_frames(1,2,4) [folded st(2)]
  have pend: "\<forall>(tp, tk, p) \<in> set [(30, 31, pending_frame)]. \<exists>sid x i q.
      ComposeDiagnosticResponseMessage 0x1234 (source_address demo_start) [0x7F, sid, 0x78] = Inr (x, i, q, p)"
    using vehicle_demo_frames(3) st(2) by auto
  have req: "req_payload demo_request = [0x22, 0xF1, 0x90]" by (simp add: demo_request_def)
  have sch: "demo_schedule = (10, [Rx_Frame ''172.16.25.128'' 13400 ack_frame]) # (11, []) # (12, []) #
      answers ''172.16.25.128'' 13400 [(30, 31, pending_frame)] 200 201 response_frame"
    by (simp add: demo_schedule_def rx_def)
  show ?thesis
    using session_with_the_vehicle [OF demo_reachable(1) st(1) io fr(1,2) pend fr(3), of demo_request 0 5 7 10 12 200
        13400 11 201 "''172.16.25.127''" 50000]
    unfolding sch rx_def req by (simp add: st) blast
qed

section \<open>The discovery\<close>

text \<open>The preselections that the vehicle with this VIN and this EID is meant by.\<close>

definition preselects :: "VehicleAddrInfoRequest \<Rightarrow> string \<Rightarrow> bytes \<Rightarrow> bool" where
  "preselects r v eb \<longleftrightarrow> preselection_mode r = 0 \<or> preselection_mode r = 1 \<and> preselection_value r = v \<or>
     preselection_mode r = 2 \<and> preselection_value r = colon_text eb"

lemma preselects_request:
  assumes "preselects r v eb" and "length v = 17" and "length eb = 6"
  shows "\<exists>val. DeserializeVehicleInfoRequest r = Inr (preselection_mode r, val) \<and> request_accepted r \<and> length val < 256 \<and>
    asked_for (preselection_mode r) val =
      (if preselection_mode r = 2 then preselection_value r else '''', if preselection_mode r = 1 then preselection_value r else '''')"
proof -
  consider (all) "preselection_mode r = 0" | (vin) "preselection_mode r = 1" "preselection_value r = v"
    | (eid) "preselection_mode r = 2" "preselection_value r = colon_text eb"
    using assms(1) by (auto simp: preselects_def)
  then show ?thesis
  proof cases
    case all
    then show ?thesis by (simp add: DeserializeVehicleInfoRequest_def asked_for_def request_accepted_def)
  next
    case vin
    have c: "char_of (unat (word_of_nat (of_char c) :: u8)) = c" for c by (simp add: unat_u8_length)
    show ?thesis
      using vin assms(2)
      by (simp add: DeserializeVehicleInfoRequest_def SerializeVINFromString_eq unat_u8_length asked_for_def
          request_accepted_def c comp_def)
  next
    case eid
    have "eb \<noteq> []" using assms(3) by auto
    with eid assms(3) SerializeEIDGIDFromString_bytes [of eb] show ?thesis
      by (simp add: DeserializeVehicleInfoRequest_def Let_def filter_colon_text length_byte_texts asked_for_def
          request_accepted_def)
  qed
qed

lemma announcement_of_frame:
  assumes "length v = 17" and "length eb = 6" and "length gb = 6"
  shows "announcement_frame (announcement_of v address eb gb action_byte sync_status)"
    "39 \<le> length (announcement_of v address eb gb action_byte sync_status)"
  using assms
  by (simp_all add: announcement_frame_def announcement_of_def CreateDoipGenericHeader_def doip_consts split: option.split)

text \<open>C25: A whole discovery of the vehicle of the component tests. The client asks for every vehicle, for the
  VIN or for the EID of this one; the vehicle's announcement comes within the two seconds, and nothing else does.
  Then the call returns exactly one entry, with the vehicle's own VIN, logical address, EID and GID and the
  address the announcement came from, and exactly one datagram was sent, to the broadcast address and port
  13400, which the vehicle reads as asking for what the client was asked to look for.\<close>

theorem discovery_of_the_vehicle:
  assumes "vd_ok w" and "completions (uc_socket w) = []" and "vehicle_info_collection w = []"
    and "preselects r v eb" and "length v = 17" and "length eb = 6" and "length gb = 6"
    and "udp_address io (broadcast_address w)"
    and "\<forall>frame. udp_send io (broadcast_address w) 13400 frame = (True, length frame)"
    and "ComposeVehicleIdentificationResponse ip0 port0 v address (colon_text eb) (colon_text gb) action_byte sync_status =
      Returns (ip1, port1, announcement)"
    and "ip \<noteq> local_address (uc_socket w)" and "ta < now + 2000" and "now + 2000 \<le> t_end"
  shows "\<exists>w' frame. VdConversation_SendVehicleIdentificationRequest io now [] []
        [(ta, prompt (ip, port, announcement)), (t_end, [])] r w =
      Returns (FromValue [\<lparr>ip_address = ip, logical_address = address, vin = v, eid = colon_text eb, gid = colon_text gb\<rparr>],
        t_end, w', []) \<and>
    udp_sent w' = udp_sent w @ [(broadcast_address w, 13400, frame)] \<and>
    sim_ProcessReceivedUdpMessage (ip2, port2, frame) =
      Returns (Some (VehicleIdentificationRequest ip2 port2
        (if preselection_mode r = 2 then preselection_value r else '''')
        (if preselection_mode r = 1 then preselection_value r else '''')))"
proof -
  let ?info = "\<lparr>ip_address = ip, logical_address = address, vin = v, eid = colon_text eb, gid = colon_text gb\<rparr>"
  let ?a = "announcement_of v address eb gb action_byte sync_status"
  obtain val where val: "DeserializeVehicleInfoRequest r = Inr (preselection_mode r, val)" "request_accepted r" "length val < 256"
      "asked_for (preselection_mode r) val = (if preselection_mode r = 2 then preselection_value r else '''',
        if preselection_mode r = 1 then preselection_value r else '''')"
    using preselects_request [OF assms(4-6)] by blast
  have ver: "VerifyVehicleInfoRequest (preselection_mode r) (word_of_nat (length val))"
    using Deserialize_Inr [OF val(1)] val(2) by blast
  have a: "announcement = ?a" using assms(10) by (simp add: vehicle_announces [OF assms(5-7)])
  have e: "entry (ip, port, ?a) = (address, ?info)"
    by (simp add: entry_def announcement_entry [OF assms(5-7)])
  have p: "\<forall>(t, rs) \<in> set [(ta, [(ip, port, ?a)])]. t < now + 2000 \<and> (\<forall>a \<in> set rs. proper_response w a)"
    using announcement_of_frame [OF assms(5-7)] assms(11,12) by (simp add: proper_response_def)
  let ?f = "Vd_Correct.request_frame (preselection_mode r) val"
  have send: "udp_send io (broadcast_address w) 13400 ?f = (True, length ?f)" using assms(9) by blast
  obtain l w' where l: "VdConversation_SendVehicleIdentificationRequest io now [] []
        [(ta, prompt (ip, port, announcement)), (t_end, [])] r w = Returns (FromValue l, t_end, w', [])"
      "map_of (map (\<lambda>i. (logical_address i, i)) l) = [address \<mapsto> ?info]" "sorted_wrt (<) (map logical_address l)"
      "udp_sent w' = udp_sent w @ [(broadcast_address w, 13400, ?f)]"
    using collected_responses [OF assms(1-3) val(2,1) assms(8) send p assms(13), of "[]"] e unfolding a by auto
  have "distinct (map fst (map (\<lambda>i. (logical_address i, i)) l))"
    using l(3) by (simp add: comp_def strict_sorted_iff)
  then have "set (map (\<lambda>i. (logical_address i, i)) l) = {(address, ?info)}" "distinct l"
    using l(2) set_map_of_compr [of "map (\<lambda>i. (logical_address i, i)) l"] by (auto simp: distinct_map comp_def inj_on_def split: if_splits)
  moreover from this(1) have "snd ` set (map (\<lambda>i. (logical_address i, i)) l) = {?info}" by (simp only: image_insert snd_conv image_empty)
  then have "set l = {?info}" by (simp add: image_image)
  ultimately have "l = [?info]" by (cases l) (auto simp: subset_singleton_iff)
  moreover have "sim_ProcessReceivedUdpMessage (ip2, port2, ?f) =
      Returns (Some (VehicleIdentificationRequest ip2 port2
        (if preselection_mode r = 2 then preselection_value r else '''')
        (if preselection_mode r = 1 then preselection_value r else '''')))"
    using vehicle_reads_identification_request [OF ver val(3)] val(4) by simp
  ultimately show ?thesis using l(1,4) by blast
qed

theorem discovery_of_the_vehicle_witness:
  "\<exists>announcement w' frame.
    ComposeVehicleIdentificationResponse ''172.16.25.127'' 13400 ''ABCDEFGH123456789'' 0xFA25 (colon_text [0, 2, 0x36, 0x31, 0, 0x1C])
      (colon_text [0, 2, 0x36, 0x31, 0, 0x1D]) 0 None = Returns (''172.16.25.127'', 13400, announcement) \<and>
    VdConversation_SendVehicleIdentificationRequest udp_io_ok 0 [] []
      [(100, prompt (''172.16.25.128'', 13400, announcement)), (2000, [])]
      \<lparr>preselection_mode = 1, preselection_value = ''ABCDEFGH123456789''\<rparr> demo_vd =
    Returns (FromValue [\<lparr>ip_address = ''172.16.25.128'', logical_address = 0xFA25, vin = ''ABCDEFGH123456789'',
      eid = colon_text [0, 2, 0x36, 0x31, 0, 0x1C], gid = colon_text [0, 2, 0x36, 0x31, 0, 0x1D]\<rparr>], 2000, w', []) \<and>
    sim_ProcessReceivedUdpMessage (''172.16.25.127'', 50000, frame) =
      Returns (Some (VehicleIdentificationRequest ''172.16.25.127'' 50000 '''' ''ABCDEFGH123456789''))"
proof -
  let ?r = "\<lparr>preselection_mode = 1, preselection_value = ''ABCDEFGH123456789''\<rparr>"
  have p: "preselects ?r ''ABCDEFGH123456789'' [0, 2, 0x36, 0x31, 0, 0x1C]" by (simp add: preselects_def)
  have len: "length ''ABCDEFGH123456789'' = 17" "length [0, 2, 0x36, 0x31, 0, 0x1C :: u8] = 6" "length [0, 2, 0x36, 0x31, 0, 0x1D :: u8] = 6"
    by simp_all
  note a = vehicle_announces [OF len, of "''172.16.25.127''" 13400 "0xFA25" 0 None]
  have io: "udp_address udp_io_ok (broadcast_address demo_vd)"
    "\<forall>frame. udp_send udp_io_ok (broadcast_address demo_vd) 13400 frame = (True, length frame)"
    "''172.16.25.128'' \<noteq> local_address (uc_socket demo_vd)"
    by (simp_all add: udp_io_ok_def demo_vd_facts)
  show ?thesis
    using discovery_of_the_vehicle [OF demo_vd_ok demo_vd_facts(2,4) p len io(1,2) a io(3), of 100 0 2000 13400 "''172.16.25.127''" 50000] a
    by simp blast
qed

end
