(* ===== verification/Reception.thy ===== *)
theory Reception
  imports Scenario
begin

text \<open>
  Properties of reception: framing of the TCP stream, the parser, the header checks, and what a
  received frame can and cannot do to the process and to the channel.
\<close>

section \<open>The reader thread and the stream\<close>

fun dm_receive :: "tcp_message \<Rightarrow> dm_world \<Rightarrow> dm_world run" where
  "dm_receive (ip, port, p) w = TcpChannelHandler_HandleMessage DmConversationHandler ip port p w"

declare dm_receive.simps [simp del]
lemmas dm_receive_def = dm_receive.simps

lemma dm_receive_step: "dm_receive (ip, port, p) w = dm_step io (Rx_Frame ip port p) w"
  by (simp add: dm_receive_def dm_step_def)

lemma dm_receive_keeps:
  assumes "dm_receive tm w = Inr w'"
  shows "running w' = running w" "exit_reader w' = exit_reader w"
proof -
  obtain ip port p where "tm = (ip, port, p)" by (cases tm)
  then have "channel_step io_ok DmConversationHandler (Rx_Frame ip port p) w = Inr w'"
    using assms by (simp add: dm_receive_def)
  then have "running w' = running w \<and> exit_reader w' = exit_reader w"
  proof (cases rule: dm_chan.Rx_cases)
    case Kept
    then show ?thesis using truncate_fields(6,8) [OF Kept] by simp
  next
    case (Final m v)
    then show ?thesis using truncate_fields(6,8) [OF Final(4)] by (simp add: dm_goto_def)
  qed (simp_all add: dm_goto_def dm_cancel_def)
  then show "running w' = running w" "exit_reader w' = exit_reader w" by simp_all
qed

lemma running_same: "running w \<Longrightarrow> w\<lparr>running := True\<rparr> = w"
  by simp

text \<open>The connection keeps the remote endpoint it was opened with.\<close>

definition from_peer :: "'s asio_peer \<Rightarrow> string \<Rightarrow> u16 \<Rightarrow> bool" where
  "from_peer peer ip port \<longleftrightarrow> (\<forall>s. peer s = Some (ip, port))"

lemma reader_step:
  assumes "asio_reads rd unread" and "unread s = f @ rest" and "well_framed f"
    and "running w" and "\<not> exit_reader w" and "from_peer peer ip port"
  obtains s' where "unread s' = rest"
    "\<forall>n. reader_thread (Suc n) rd peer dm_receive s w =
       bind_run (dm_receive (ip, port, f) w) (reader_thread n rd peer dm_receive s')"
proof -
  obtain s' where r: "TcpSocket_Read rd peer s = Inr (FromValue (ip, port, f), s')" "unread s' = rest"
    using TcpSocket_Read_full [OF assms(1,2), of peer] assms(3,6) by (auto simp: well_framed_def from_peer_def)
  have "reader_thread (Suc n) rd peer dm_receive s w =
      bind_run (dm_receive (ip, port, f) w) (reader_thread n rd peer dm_receive s')" for n
    using assms(4,5) r(1) dm_receive_keeps [of "(ip, port, f)" w]
    by (cases "dm_receive (ip, port, f) w") (auto simp: ReadMessage_def running_same)
  with r(2) that show thesis by blast
qed

text \<open>C17: The reader thread hands the frames of the stream to the channel one by one, in order and
  unchanged, whatever the peer sends after them: reading \<open>n\<close> well-framed messages is handling each of
  them, and leaves the rest of the stream unread. A fault in the handling of one of them ends the
  process at the same message.\<close>

theorem reader_thread_delivers_frames:
  assumes "asio_reads rd unread" and "from_peer peer ip port" and "unread s = concat fs @ rest"
    and "list_all well_framed fs" and "running w" and "\<not> exit_reader w"
  shows "\<exists>s'. (\<forall>w'. deliver_all (\<lambda>f. dm_receive (ip, port, f)) fs w = Inr w' \<longrightarrow> unread s' = rest) \<and>
    reader_thread (length fs) rd peer dm_receive s w =
      bind_run (deliver_all (\<lambda>f. dm_receive (ip, port, f)) fs w) (\<lambda>w'. Inr (s', w'))"
  using assms(3-6)
proof (induction fs arbitrary: s w)
  case Nil
  then show ?case by auto
next
  case (Cons f fs)
  have u: "unread s = f @ (concat fs @ rest)" "well_framed f" using Cons.prems by simp_all
  obtain s1 where "unread s1 = concat fs @ rest"
    and "\<forall>n. reader_thread (Suc n) rd peer dm_receive s w =
       bind_run (dm_receive (ip, port, f) w) (reader_thread n rd peer dm_receive s1)"
    using reader_step [OF assms(1) u Cons.prems(3,4) assms(2)] by blast
  note s1 = this(1) and eq = this(2) [rule_format]
  show ?case
  proof (cases "dm_receive (ip, port, f) w")
    case (Inl e)
    then show ?thesis using eq [of "length fs"] by simp
  next
    case (Inr v)
    with dm_receive_keeps [OF Inr] Cons.prems have "running v" "\<not> exit_reader v" by simp_all
    with Cons.IH [OF s1] Cons.prems(2) obtain s' where
        "\<forall>w'. deliver_all (\<lambda>f. dm_receive (ip, port, f)) fs v = Inr w' \<longrightarrow> unread s' = rest"
        "reader_thread (length fs) rd peer dm_receive s1 v =
           bind_run (deliver_all (\<lambda>f. dm_receive (ip, port, f)) fs v) (\<lambda>w'. Inr (s', w'))" by auto
    then show ?thesis using Inr eq [of "length fs"] by auto
  qed
qed

definition demo_stream :: "bytes list" where
  "demo_stream = [ra_frame, ack_frame, pending_frame, response_frame]"

definition demo_reading :: dm_world where
  "demo_reading = demo_start\<lparr>running := True, connection_state := kConnected\<rparr>"

definition demo_peer :: "bytes asio_peer" where
  "demo_peer s = Some (''ip'', 13400)"

lemma demo_peer_facts: "from_peer demo_peer ''ip'' 13400"
  by (simp add: from_peer_def demo_peer_def)

lemma demo_reading_facts: "running demo_reading" "\<not> exit_reader demo_reading"
  by code_simp+

theorem reader_thread_delivers_frames_witness:
  "\<exists>s'. reader_thread 4 list_read demo_peer dm_receive (concat demo_stream @ [1, 2]) demo_reading =
      bind_run (deliver_all (\<lambda>f. dm_receive (''ip'', 13400, f)) demo_stream demo_reading) (\<lambda>w'. Inr (s', w'))"
proof -
  have "list_all well_framed demo_stream" by code_simp
  moreover have "length demo_stream = 4" by (simp add: demo_stream_def)
  ultimately show ?thesis
    using reader_thread_delivers_frames [OF asio_reads_list_read demo_peer_facts,
        of "concat demo_stream @ [1, 2]" demo_stream "[1, 2]" demo_reading] demo_reading_facts by auto
qed

text \<open>C20: A message whose length field is zero (an alive check request is one) is taken for a
  disconnection: the reader clears \<open>running_\<close> and never reads again, although the client still counts
  as connected and later frames are on the stream.\<close>

theorem zero_length_frame_stops_reading:
  assumes "asio_reads rd unread" and "unread s = f @ rest" and "length f = 8" and "read_next_bytes f = 0"
    and "running w" and "\<not> exit_reader w"
  shows "\<exists>s'. unread s' = rest \<and>
    reader_thread (Suc n) rd peer dm_receive s w = Inr (s', w\<lparr>running := False\<rparr>)"
proof -
  obtain s' where r: "TcpSocket_Read rd peer s = Inr (FromError kRemoteDisconnected, s')" "unread s' = rest"
    using TcpSocket_Read_zero_length [OF assms(1-4)] by blast
  then have "reader_thread (Suc n) rd peer dm_receive s w = Inr (s', w\<lparr>running := False\<rparr>)"
    using assms(5,6) by (cases n) (simp_all add: ReadMessage_def)
  with r(2) show ?thesis by blast
qed

definition alive_check_frame :: bytes where
  "alive_check_frame = CreateDoipGenericHeader kDoip_AliveCheck_ReqType 0"

theorem zero_length_frame_stops_reading_witness:
  "\<exists>s'. s' = response_frame \<and>
    reader_thread 5 list_read demo_peer dm_receive (alive_check_frame @ response_frame) demo_reading =
      Inr (s', demo_reading\<lparr>running := False\<rparr>)"
proof -
  have "length alive_check_frame = 8 \<and> read_next_bytes alive_check_frame = 0" by code_simp
  then show ?thesis
    using zero_length_frame_stops_reading [OF asio_reads_list_read, of "alive_check_frame @ response_frame"
        alive_check_frame response_frame demo_reading 4 demo_peer] demo_reading_facts by simp
qed

text \<open>C21: A frame cut short by the end of the stream is not rejected. If the socket still knows its
  remote endpoint, the missing bytes are filled with zeros and the message is handed to the channel
  with its full announced length; if the connection is gone, asking for the endpoint throws inside a
  \<open>noexcept\<close> function and the process ends.\<close>

theorem truncated_frame_is_zero_padded:
  assumes "asio_reads rd unread" and "unread s = hdr @ part" and "length hdr = 8"
    and "length part < unat (read_next_bytes hdr)" and "running w" and "\<not> exit_reader w"
  shows "\<exists>s'. reader_thread 1 rd peer dm_receive s w =
    (case peer s' of
       None \<Rightarrow> Inl Uncaught_Exception
     | Some (ip, port) \<Rightarrow>
         bind_run
           (dm_receive (ip, port, hdr @ part @ replicate (unat (read_next_bytes hdr) - length part) 0) w)
           (\<lambda>w'. Inr (s', w')))"
proof -
  let ?f = "hdr @ part @ replicate (unat (read_next_bytes hdr) - length part) 0"
  obtain s' where r: "TcpSocket_Read rd peer s =
      (case peer s' of None \<Rightarrow> Inl Uncaught_Exception | Some (ip, port) \<Rightarrow> Inr (FromValue (ip, port, ?f), s'))"
    using TcpSocket_Read_truncated [OF assms(1-4)] by blast
  show ?thesis
  proof (cases "peer s'")
    case None
    with r assms(5,6) show ?thesis unfolding One_nat_def by (intro exI [of _ s']) (simp add: ReadMessage_def)
  next
    case (Some e)
    obtain ip port where e: "e = (ip, port)" by (cases e)
    have "reader_thread 1 rd peer dm_receive s w = bind_run (dm_receive (ip, port, ?f) w) (\<lambda>w'. Inr (s', w'))"
      unfolding One_nat_def using assms(5,6) r Some e dm_receive_keeps [of "(ip, port, ?f)" w]
      by (cases "dm_receive (ip, port, ?f) w") (auto simp: ReadMessage_def running_same)
    with Some e show ?thesis by (intro exI [of _ s']) simp
  qed
qed

theorem truncated_frame_is_zero_padded_witness:
  "\<exists>s'. reader_thread 1 list_read demo_peer dm_receive (take 12 response_frame) demo_reading =
    bind_run (dm_receive (''ip'', 13400, take 12 response_frame @ [0, 0, 0]) demo_reading) (\<lambda>w'. Inr (s', w'))"
proof -
  have c: "length (take 8 response_frame) = 8 \<and> unat (read_next_bytes (take 8 response_frame)) = 7 \<and>
     take 8 response_frame @ take 4 (drop 8 response_frame) = take 12 response_frame \<and>
     length (take 4 (drop 8 response_frame)) = 4" by code_simp
  have e: "hdr @ part = all \<Longrightarrow> hdr @ part @ z = all @ z" for hdr part all z :: bytes by auto
  show ?thesis
    using truncated_frame_is_zero_padded [OF asio_reads_list_read, of "take 12 response_frame"
        "take 8 response_frame" "take 4 (drop 8 response_frame)" demo_reading demo_peer] c demo_reading_facts
    by (simp add: e numeral_3_eq_3 demo_peer_def)
qed

section \<open>Header checks\<close>

definition header_version_ok :: "DoipMessage \<Rightarrow> bool" where
  "header_version_ok m \<longleftrightarrow> (protocol_version m, protocol_version_inv m) \<in> {(0x03, 0xFC), (0xFF, 0x00)}"

definition header_type_known :: "DoipMessage \<Rightarrow> bool" where
  "header_type_known m \<longleftrightarrow> payload_type m \<in> {0x0006, 0x0007, 0x8001, 0x8002, 0x8003}"

definition header_length_ok :: "DoipMessage \<Rightarrow> bool" where
  "header_length_ok m \<longleftrightarrow>
     (if payload_type m \<in> {0x0006, 0x0007} then unat (payload_length m) \<le> 13 else 5 \<le> unat (payload_length m))"

lemma version_inverse: "NOT kDoip_ProtocolVersion = 0xFC" "NOT kDoip_ProtocolVersion_Def = 0"
  by (simp_all add: doip_consts)

lemma ProcessDoIPPayloadLength_known:
  "header_type_known m \<Longrightarrow> ProcessDoIPPayloadLength (payload_length m) (payload_type m) = header_length_ok m"
  by (auto simp: header_type_known_def header_length_ok_def ProcessDoIPPayloadLength_def doip_consts word_le_nat_alt)

lemma ProcessDoIPHeader_eq:
  "ProcessDoIPHeader m n =
     (if \<not> header_version_ok m then (False, 0x00) else if \<not> header_type_known m then (False, 0x01)
      else if 4096 < unat (payload_length m) then (False, 0x03)
      else if \<not> header_length_ok m then (False, 0x04) else (True, n))"
proof -
  have "unat (payload_length m) < 2 ^ LENGTH(32)" by (rule unsigned_less)
  then have "payload_length m \<le> kDoip_Protocol_MaxPayload" by (simp add: doip_consts word_le_nat_alt)
  note large = this
  have over: "payload_length m \<le> kTcpChannelLength \<longleftrightarrow> \<not> 4096 < unat (payload_length m)"
    by (simp add: doip_consts word_le_nat_alt not_less)
  have known: "(payload_type m = kDoip_RoutingActivation_ResType \<or> payload_type m = kDoipDiagMessagePosAck \<or>
      payload_type m = kDoipDiagMessageNegAck \<or> payload_type m = kDoipDiagMessage \<or>
      payload_type m = kDoip_AliveCheck_ReqType) \<longleftrightarrow> header_type_known m"
    by (auto simp: header_type_known_def doip_consts)
  have version: "(protocol_version m = kDoip_ProtocolVersion \<and> protocol_version_inv m = NOT kDoip_ProtocolVersion \<or>
      protocol_version m = kDoip_ProtocolVersion_Def \<and> protocol_version_inv m = NOT kDoip_ProtocolVersion_Def)
      \<longleftrightarrow> header_version_ok m"
    unfolding header_version_ok_def version_inverse by (simp add: doip_consts)
  show ?thesis
    unfolding ProcessDoIPHeader_def known version over
    by (simp add: large ProcessDoIPPayloadLength_known)
       (simp add: kDoip_GenericHeader_InvalidPayloadLen_def kDoip_GenericHeader_OutOfMemory_def
          kDoip_GenericHeader_UnknownPayload_def kDoip_GenericHeader_IncorrectPattern_def)
qed

text \<open>C22: A received message is processed exactly if its version bytes are 03/FC or FF/00, its type is
  one the tester understands, its announced length is at most 4096 and fits the type (at most 13 for a
  routing activation response or an alive check, at least 5 for an acknowledgement or a diagnostic
  message); otherwise the code of the first violated rule is recorded, and code 2 (message too large)
  never is.\<close>

theorem ProcessDoIPHeader_spec:
  "(fst (ProcessDoIPHeader m n) \<longleftrightarrow>
      header_version_ok m \<and> header_type_known m \<and> unat (payload_length m) \<le> 4096 \<and> header_length_ok m) \<and>
   snd (ProcessDoIPHeader m n) =
     (if \<not> header_version_ok m then 0x00 else if \<not> header_type_known m then 0x01
      else if 4096 < unat (payload_length m) then 0x03 else if \<not> header_length_ok m then 0x04 else n) \<and>
   snd (ProcessDoIPHeader m 0) \<noteq> kDoip_GenericHeader_MessageTooLarge"
  by (simp add: ProcessDoIPHeader_eq doip_consts)

section \<open>Requests as the peer sees them\<close>

text \<open>A diagnostic request with data, read back by the library's own parser, yields the tester's
  address, the server's address, the payload type, the length and exactly the data of the request; and
  the header checks accept it up to 4092 bytes of data and refuse it beyond.\<close>

theorem diag_request_round_trip:
  assumes "uds_payload msg \<noteq> []" and "length (uds_payload msg) < 2 ^ 32 - 4"
  shows "\<exists>m. new_DoipMessage kTcp ip port (compose_diag_req msg) = Inr m \<and>
    client_address m = uds_sa msg \<and> server_address m = uds_ta msg \<and> payload_type m = kDoipDiagMessage \<and>
    unat (payload_length m) = 4 + length (uds_payload msg) \<and> payload m = uds_payload msg \<and>
    (fst (ProcessDoIPHeader m 0) \<longleftrightarrow> length (uds_payload msg) \<le> 4092)"
proof -
  have u: "unat (word_of_nat (4 + length (uds_payload msg)) :: u32) = 4 + length (uds_payload msg)"
    unfolding unat_of_nat using assms(2) by simp
  have len: "1 \<le> length (uds_payload msg)" using assms(1) by (cases "uds_payload msg") auto
  let ?m = "\<lparr>host_ip_address = ip, host_port_number = port, protocol_version = kDoip_ProtocolVersion,
    protocol_version_inv = NOT kDoip_ProtocolVersion, server_address = uds_ta msg, client_address = uds_sa msg,
    payload_type = kDoipDiagMessage, payload_length = word_of_nat (4 + length (uds_payload msg)),
    payload = uds_payload msg\<rparr>"
  have p: "new_DoipMessage kTcp ip port (compose_diag_req msg) = Inr ?m"
    unfolding compose_diag_req_frame by (rule parse_tcp_frame [OF assms(1)])
  have "header_version_ok ?m" by (simp add: header_version_ok_def version_inverse) (simp add: doip_consts)
  moreover have "header_type_known ?m" by (simp add: header_type_known_def doip_consts)
  moreover have l: "unat (payload_length ?m) = 4 + length (uds_payload msg)" unfolding DoipMessage.simps by (rule u)
  moreover have "header_length_ok ?m"
    unfolding header_length_ok_def l using len by (simp add: doip_consts)
  ultimately have "fst (ProcessDoIPHeader ?m 0) \<longleftrightarrow> length (uds_payload msg) \<le> 4092"
    unfolding ProcessDoIPHeader_eq by simp
  with p l show ?thesis by (intro exI [of _ ?m]) simp
qed

theorem diag_request_round_trip_witness:
  "\<exists>m. new_DoipMessage kTcp ''ip'' 1
      (compose_diag_req \<lparr>uds_sa = 0x0E80, uds_ta = 0x1234, uds_host_ip = [], uds_host_port = 13400,
        uds_payload = [0x22, 0xF1, 0x90]\<rparr>) = Inr m \<and>
    client_address m = 0x0E80 \<and> server_address m = 0x1234 \<and> payload m = [0x22, 0xF1, 0x90]"
  using diag_request_round_trip [of "\<lparr>uds_sa = 0x0E80, uds_ta = 0x1234, uds_host_ip = [], uds_host_port = 13400,
        uds_payload = [0x22, 0xF1, 0x90]\<rparr>" "''ip''" 1] by auto

text \<open>Both requests are framed so that a receiver that reads by the length field takes exactly the
  request from the stream: the diagnostic request for any data shorter than 2^32 - 4 bytes, and the
  routing activation request always.\<close>

theorem requests_are_well_framed:
  assumes "length (uds_payload msg) < 2 ^ 32 - 4"
  shows "well_framed (compose_diag_req msg) \<and> well_framed (compose_routing_activation_req msg') \<and>
    length (compose_diag_req msg) = 12 + length (uds_payload msg) \<and>
    length (compose_routing_activation_req msg') = 15"
  using well_framed_diag_req [OF assms] well_framed_routing_activation_req [of msg']
  by (simp add: compose_diag_req_frame compose_routing_activation_req_def ra_header_eq doip_consts)

theorem requests_are_well_framed_witness:
  "well_framed (compose_diag_req \<lparr>uds_sa = 1, uds_ta = 2, uds_host_ip = [], uds_host_port = 13400, uds_payload = [0x3E, 0]\<rparr>)"
  using requests_are_well_framed
    [of "\<lparr>uds_sa = 1, uds_ta = 2, uds_host_ip = [], uds_host_port = 13400, uds_payload = [0x3E, 0]\<rparr>"] by simp

section \<open>What a frame can do to the process\<close>

lemma dm_receive_faults:
  assumes "new_DoipMessage kTcp ip port p = Inr m"
  shows "(\<exists>e. dm_receive (ip, port, p) w = Inl e) \<longleftrightarrow>
    fst (ProcessDoIPHeader m 0) \<and> payload_type m = kDoipDiagMessage \<and> dm_in dm_kWaitForDiagnosticResponse w \<and>
    payload m ! 0 = 0x7F \<and> length (payload m) < 3 \<and> length (payload m) \<le> unat (rx_buffer_size w)"
proof -
  have ne: "payload m \<noteq> []" using new_DoipMessage_tcp_payload [OF assms] by simp
  have ack: "\<exists>v. ProcessDoIPDiagnosticAckMessageResponse m w = Inr v"
    and ra: "\<exists>v. ProcessDoIPRoutingActivationResponse m w = Inr v"
    using ne by (auto simp: ProcessDoIPDiagnosticAckMessageResponse_def ProcessDoIPRoutingActivationResponse_def Let_def)
  have resp: "(\<exists>e. ProcessDoIPDiagnosticMessageResponse DmConversationHandler m w = Inl e) \<longleftrightarrow>
    dm_in dm_kWaitForDiagnosticResponse w \<and>
    payload m ! 0 = 0x7F \<and> length (payload m) < 3 \<and> length (payload m) \<le> unat (rx_buffer_size w)"
  proof (cases "dm_IndicateMessage (server_address m) (client_address m) (length (payload m)) (payload m) w")
    case (Inr x)
    obtain r mo w1 where x: "x = (r, mo, w1)" by (cases x)
    with Inr have i: "dm_IndicateMessage (server_address m) (client_address m) (length (payload m)) (payload m) w = Inr (r, mo, w1)"
      by simp
    then have "\<not> (payload m ! 0 = 0x7F \<and> length (payload m) < 3 \<and> length (payload m) \<le> unat (rx_buffer_size w))"
      by (cases rule: dm_IndicateMessage_Inr_cases) (use ne i in \<open>auto simp: dm_IndicateMessage_def bind_run_Inr_iff\<close>)
    moreover from i have "\<exists>v. ProcessDoIPDiagnosticMessageResponse DmConversationHandler m w = Inr v"
      by (cases rule: dm_IndicateMessage_Inr_cases)
         (use i in \<open>auto simp: ProcessDoIPDiagnosticMessageResponse_def dm_message_copy_def dm_HandleMessage_def\<close>)
    ultimately show ?thesis by auto
  next
    case (Inl e)
    then have "payload m ! 0 = 0x7F \<and> length (payload m) < 3 \<and> length (payload m) \<le> unat (rx_buffer_size w)"
      using ne by (auto simp: dm_IndicateMessage_def bind_run_def Let_def span_at_def CheckIfExpectedOrAbort_def
          split: if_splits sum.splits)
    with Inl show ?thesis by (simp add: ProcessDoIPDiagnosticMessageResponse_def)
  qed
  show ?thesis
  proof (cases "fst (ProcessDoIPHeader m 0)")
    case False
    with assms show ?thesis
      by (auto simp: dm_receive_def TcpChannelHandler_HandleMessage_def split: prod.splits)
  next
    case True
    with assms have "dm_receive (ip, port, p) w = ProcessDoIPPayload DmConversationHandler m w"
      by (auto simp: dm_receive_def TcpChannelHandler_HandleMessage_def split: prod.splits)
    with True ack ra resp show ?thesis
      by (auto simp: ProcessDoIPPayload_def doip_consts split: if_splits)
  qed
qed

text \<open>C24: A received TCP frame ends the process exactly if it is shorter than 13 bytes, whatever its
  type or version (it is parsed before its header is checked), or if it is an acceptable diagnostic
  message for a waiting request whose data starts with 7F and has fewer than three bytes. No other
  frame, in any state, can.\<close>

theorem reception_faults_iff:
  "(\<exists>e. dm_receive (ip, port, p) w = Inl e) \<longleftrightarrow>
     length p < 13 \<or>
     (\<exists>m. new_DoipMessage kTcp ip port p = Inr m \<and> fst (ProcessDoIPHeader m 0) \<and>
        payload_type m = kDoipDiagMessage \<and> dm_in dm_kWaitForDiagnosticResponse w \<and>
        payload m ! 0 = 0x7F \<and> length (payload m) < 3 \<and> length (payload m) \<le> unat (rx_buffer_size w))"
proof (cases "length p < 13")
  case True
  then show ?thesis by (simp add: dm_receive_def TcpChannelHandler_HandleMessage_def new_DoipMessage_tcp_fault)
next
  case False
  then obtain m where m: "new_DoipMessage kTcp ip port p = Inr m"
    using new_DoipMessage_tcp_total [of p ip port] by auto
  with dm_receive_faults [OF m, of w] False show ?thesis by auto
qed

text \<open>A frame nobody waits for changes nothing: with no routing activation, acknowledgement or
  response outstanding, a received frame leaves the whole conversation as it was.\<close>

theorem unsolicited_frames_are_ignored:
  assumes "dm_receive (ip, port, p) w = Inr w'" and "\<not> ra_in ra_kWaitForRoutingActivationRes w"
    and "\<not> dm_in dm_kWaitForDiagnosticAck w" and "\<not> dm_in dm_kWaitForDiagnosticResponse w"
  shows "w' = w"
proof -
  from assms(1) obtain m where
      d: "(case ProcessDoIPHeader m 0 of (ok, nack_code) \<Rightarrow>
       if ok then ProcessDoIPPayload DmConversationHandler m w else Inr w) = Inr w'"
    by (auto simp: dm_receive_def TcpChannelHandler_HandleMessage_def bind_run_Inr_iff)
  have "ProcessDoIPPayload DmConversationHandler m w = Inr w"
    using assms(2-4)
    by (simp add: ProcessDoIPPayload_def ProcessDoIPRoutingActivationResponse_def
        ProcessDoIPDiagnosticAckMessageResponse_def ProcessDoIPDiagnosticMessageResponse_def)
  with d show ?thesis by (simp split: prod.splits if_splits)
qed

theorem unsolicited_frames_are_ignored_witness:
  "dm_receive (''ip'', 13400, response_frame) demo_active = Inr demo_active"
proof -
  have r: "case dm_receive (''ip'', 13400, response_frame) demo_active of Inr w' \<Rightarrow> True | Inl e \<Rightarrow> False"
    by code_simp
  have s: "\<not> ra_in ra_kWaitForRoutingActivationRes demo_active" "\<not> dm_in dm_kWaitForDiagnosticAck demo_active"
      "\<not> dm_in dm_kWaitForDiagnosticResponse demo_active"
    by code_simp+
  from r obtain w' where "dm_receive (''ip'', 13400, response_frame) demo_active = Inr w'"
    by (auto split: sum.splits)
  with unsolicited_frames_are_ignored [OF this s] show ?thesis by simp
qed

end
