(* ===== verification/Restart.thy ===== *)
theory Restart
  imports Reception
begin

text \<open>
  A conversation that is shut down and started again: nothing takes the request to exit back from the
  reader thread, so the new thread ends at once, and no later call can have routing activated.
\<close>

section \<open>The request to exit stays\<close>

lemma reader_keeps_exit:
  assumes "dm_step io e w = Inr w'" and "by_reader e"
  shows "exit_reader w' = exit_reader w"
proof (cases e)
  case (Rx_Frame ip port p)
  with assms(1) show ?thesis using dm_receive_keeps(2) dm_receive_step by metis
qed (use assms in \<open>auto simp: dm_step_def\<close>)

lemma exit_fields [simp]:
  "exit_reader (cv_goto s w) = exit_reader w" "exit_reader (TcpChannelHandler_Reset v) = exit_reader v"
  by (simp_all add: cv_goto_def TcpChannelHandler_Reset_def DiagnosticMessageHandler_Reset_def DiagnosticMessageHandler_Stop_def
      RoutingActivationHandler_Reset_def RoutingActivationHandler_Stop_def dm_cancel_def ra_cancel_def)

lemma app_step_keeps_exit:
  assumes "app_step io w w'" and ex: "exit_reader w"
  shows "exit_reader w'"
  using assms(1)
proof cases
  case startup
  with ex show ?thesis
    by (auto simp: DmConversation_Startup_def TcpChannel_Start_def TcpChannelHandler_Start_def TcpClient_Initialize_eq
        DiagnosticMessageHandler_Start_def RoutingActivationHandler_Start_def bind_run_Inr_iff split: if_splits)
next
  case shutdown
  with ex show ?thesis
    by (auto simp: DmConversation_Shutdown_def TcpChannel_Stop_eq bind_run_Inr_iff split: if_splits)
next
  case (connect now win1 win2 evs target ip r t rest)
  then obtain r0 w0 where c: "TcpChannel_ConnectToHost io (dm_step io) now win1 win2 evs
      (uds_message_down (source_address w) target ip []) w = Returns (r0, t, w0, rest)" and w': "exit_reader w' = exit_reader w0"
    by (auto simp: ConnectToDiagServer_def bind_call_Returns_iff)
  have "exit_reader w0"
    by (rule Connect_keeps [where P = exit_reader and E = "Collect by_reader", OF c ex _ reader_onlyD [OF connect(2)]])
       (use reader_keeps_exit in auto)
  with w' show ?thesis by simp
next
  case disconnect
  with ex show ?thesis
    by (auto simp: DisconnectFromDiagServer_def TcpChannel_DisconnectFromHost_eq Let_def split: prod.splits if_splits)
next
  case (send now win1 win2 evs message r t rest)
  show ?thesis
  proof (cases message)
    case None
    with send ex show ?thesis by (simp add: SendDiagnosticRequest_def Let_def)
  next
    case (Some msg)
    show ?thesis
    proof (rule Send_keeps [where P = exit_reader, OF send(1) [unfolded Some] reader_onlyD(3) [OF send(2)]], goal_cases)
      case (4 tr t1 w1 evs1)
      show ?case
        by (rule Transmit_keeps [where P = exit_reader and E = "Collect by_reader", OF 4 ex _ reader_onlyD [OF send(2)]])
           (use reader_keeps_exit in auto)
    qed (use reader_keeps_exit in auto)
  qed
next
  case (background e)
  with ex reader_keeps_exit show ?thesis by blast
qed

lemma exit_stays: "(app_step io)\<^sup>*\<^sup>* w w' \<Longrightarrow> exit_reader w \<Longrightarrow> exit_reader w'"
  by (induction rule: rtranclp_induct) (auto dest: app_step_keeps_exit)

lemma Shutdown_exits:
  "DmConversation_Shutdown io w = Inr w' \<Longrightarrow> activity_status w = kActive \<Longrightarrow> exit_reader w'"
  by (auto simp: DmConversation_Shutdown_def TcpChannel_Stop_eq bind_run_Inr_iff split: if_splits)

lemma exited_reader: "exit_reader w \<Longrightarrow> reader_thread n rd peer handler s w = Inr (s, w)"
  by (cases n) simp_all

section \<open>Connecting without a reader\<close>

text \<open>A call that connects succeeds only through a frame that arrives meanwhile.\<close>

lemma no_frame_no_activation:
  assumes cn: "TcpChannel_ConnectToHost io (dm_step io) now [] [] evs msg w = Returns (r, t, w', rest)"
    and no: "events_of evs = {}" and inv: "app_inv w"
  shows "r \<noteq> kConnectionOk"
proof
  assume r: "r = kConnectionOk"
  have rd: "reader_only [] [] evs" using no by (auto simp: reader_only_def list_all_iff events_of_def)
  let ?P = "\<lambda>v. chan_ok v \<and> routing (link v) \<noteq> ra_kRoutingActivationSuccessful"
  have "?P w" using inv Connect_link(4) [OF cn inv rd r] by (simp add: app_inv_def conv_okD)
  then have "?P w'"
    by (rule Connect_keeps [where P = ?P and E = "{}", OF cn]) (use no in auto)
  with Connect_link(4) [OF cn inv rd r] show False by simp
qed

text \<open>C14: Shutting down a conversation is final. After a shutdown of an active conversation, whatever the
  application calls later, starting it again included, the reader thread ends without reading anything;
  and a call that connects never succeeds, because it would take a frame from the reader.\<close>

theorem shutdown_is_final:
  assumes "app_reachable io conf w" and "activity_status w = kActive" and "DmConversation_Shutdown io w = Inr v"
    and "(app_step io)\<^sup>*\<^sup>* v u" and "events_of evs = {}"
  shows "reader_thread n rd peer dm_receive s u = Inr (s, u) \<and>
    (\<forall>r t u' rest. ConnectToDiagServer io now [] [] evs target ip u = Returns (r, t, u', rest) \<longrightarrow>
       r \<in> {kConnectFailed, kConnectTimeout})"
proof -
  have "exit_reader u" using exit_stays [OF assms(4) Shutdown_exits [OF assms(3,2)]] .
  moreover
  have "app_reachable io conf u"
    using assms(1,4) app_step.shutdown [OF assms(3)]
    unfolding app_reachable_def by (meson converse_rtranclp_into_rtranclp rtranclp_trans)
  then have "app_inv u" using app_reachable_inv by blast
  have "r \<in> {kConnectFailed, kConnectTimeout}"
    if ret: "ConnectToDiagServer io now [] [] evs target ip u = Returns (r, t, u', rest)" for r t u' rest
  proof -
    from ret obtain r0 w0 where c: "TcpChannel_ConnectToHost io (dm_step io) now [] [] evs
        (uds_message_down (source_address u) target ip []) u = Returns (r0, t, w0, rest)" and r: "r = cast_ConnectResult r0"
      by (auto simp: ConnectToDiagServer_def bind_call_Returns_iff)
    have "r0 \<noteq> kConnectionOk" by (rule no_frame_no_activation [OF c assms(5) \<open>app_inv u\<close>])
    then show ?thesis by (cases r0) (simp_all add: r cast_ConnectResult_def)
  qed
  ultimately show ?thesis by (simp add: exited_reader)
qed

definition demo_restarted :: dm_world where
  "demo_restarted =
     (case DmConversation_Shutdown io_ok demo_start of
        Inr v \<Rightarrow> (case DmConversation_Startup io_ok v of Inr u \<Rightarrow> u | Inl e \<Rightarrow> demo_start)
      | Inl e \<Rightarrow> demo_start)"

theorem shutdown_is_final_witness:
  "reader_started demo_restarted \<and> activity_status demo_restarted = kActive \<and>
   reader_thread 5 list_read demo_peer dm_receive ra_frame demo_restarted = Inr (ra_frame, demo_restarted) \<and>
   (case ConnectToDiagServer io_ok 0 [] [] [(1000, [])] 0x1234 ''172.16.25.128'' demo_restarted of
      Returns (r, t, u, rest) \<Rightarrow> r = kConnectTimeout | _ \<Rightarrow> False)"
proof -
  have act: "activity_status demo_start = kActive" by code_simp
  then obtain v where v: "DmConversation_Shutdown io_ok demo_start = Inr v"
    by (simp add: DmConversation_Shutdown_def TcpChannel_Stop_eq io_ok_def)
  then obtain u where u: "DmConversation_Startup io_ok v = Inr u"
    by (auto simp: DmConversation_Startup_def TcpChannel_Start_def TcpChannelHandler_Start_def TcpClient_Initialize_eq
        DiagnosticMessageHandler_Start_def RoutingActivationHandler_Start_def io_ok_def opens_def)
  have "demo_restarted = u" by (simp add: demo_restarted_def v u)
  with shutdown_is_final [OF demo_reachable(1) act v r_into_rtranclp [of "app_step io_ok", OF app_step.startup [OF u]],
      where evs = "[(1000, [])]" and n = 5 and rd = list_read and peer = demo_peer and s = ra_frame]
  have "reader_thread 5 list_read demo_peer dm_receive ra_frame demo_restarted = Inr (ra_frame, demo_restarted)"
    by (simp add: events_of_def)
  moreover have "reader_started demo_restarted \<and> activity_status demo_restarted = kActive" by code_simp
  moreover have "case ConnectToDiagServer io_ok 0 [] [] [(1000, [])] 0x1234 ''172.16.25.128'' demo_restarted of
      Returns (r, t, u, rest) \<Rightarrow> r = kConnectTimeout | _ \<Rightarrow> False" by code_simp
  ultimately show ?thesis by blast
qed

end
