(* ===== verification/Request_Timing.thy ===== *)
theory Request_Timing
  imports Answered_Request Liveness Reception
begin

text \<open>
  What the moment at which a frame arrives does to the calls of a diagnostic conversation: an answer that
  comes before the caller has armed its timer is lost, however the server behaves afterwards; and the calls
  that wait for the server always return, unless a frame that cannot be parsed ends the process.
\<close>

section \<open>Answers that come too early\<close>

text \<open>No frame of \<open>E\<close> that passes the header checks has one of the types \<open>T\<close>.\<close>

definition no_frame_of :: "u16 set \<Rightarrow> channel_event set \<Rightarrow> bool" where
  "no_frame_of T E \<longleftrightarrow>
     (\<forall>ip port p m. Rx_Frame ip port p \<in> E \<longrightarrow> accepted p m \<longrightarrow> payload_type m \<notin> T)"

lemma no_frame_ofD: "no_frame_of T E \<Longrightarrow> Rx_Frame ip port p \<in> E \<Longrightarrow> accepted p m \<Longrightarrow> payload_type m \<notin> T"
  by (simp add: no_frame_of_def)

text \<open>Only an answer takes the timer of a call back.\<close>

context tcp_conversation begin

lemma timers_keep_running:
  assumes st: "channel_step io h e w = Inr w'" and e: "e \<in> E" "by_reader e"
  shows "no_frame_of {kDoip_RoutingActivation_ResType} E \<Longrightarrow> ra_timer w' = ra_timer w"
    and "no_frame_of {kDoipDiagMessagePosAck, kDoipDiagMessageNegAck} E \<Longrightarrow> dm_timer w' = dm_timer w"
proof -
  have "(no_frame_of {kDoip_RoutingActivation_ResType} E \<longrightarrow> ra_timer w' = ra_timer w) \<and>
    (no_frame_of {kDoipDiagMessagePosAck, kDoipDiagMessageNegAck} E \<longrightarrow> dm_timer w' = dm_timer w)"
  proof (cases e)
    case (Rx_Frame ip port p)
    from st [unfolded Rx_Frame] show ?thesis
    proof (cases rule: Rx_cases)
      case Kept
      from truncate_fields(2,4) [OF this] show ?thesis by simp
    next
      case (Final m v)
      from truncate_fields(2,4) [OF Final(4)] Final(5) show ?thesis by simp
    qed (use e(1) Rx_Frame in \<open>auto dest!: no_frame_ofD\<close>)
  qed (use st e(2) in auto)
  then show "no_frame_of {kDoip_RoutingActivation_ResType} E \<Longrightarrow> ra_timer w' = ra_timer w"
    and "no_frame_of {kDoipDiagMessagePosAck, kDoipDiagMessageNegAck} E \<Longrightarrow> dm_timer w' = dm_timer w" by blast+
qed

lemma early_activation_is_lost:
  assumes ret: "HandleRoutingActivationRequest io (channel_step io h) now win1 win2 evs msg w = Returns (r, t, w', rest)"
    and ok: "chan_ok w" and conn: "connection_state w = kConnected"
    and l: "routing (link w) = ra_kIdle" "diag (link w) = dm_kIdle"
    and rd: "set win1 \<subseteq> Collect by_reader" "set win2 \<subseteq> Collect by_reader" "events_of evs \<subseteq> Collect by_reader"
    and none: "no_frame_of {kDoip_RoutingActivation_ResType} (events_of evs)"
  shows "r = (if asio_write io (compose_routing_activation_req msg) then kConnectionTimeout else kConnectionFailed)"
  using ret ok conn l(2) rd
proof (cases rule: activation_cases)
  case Sent
  have keep: "chan_ok v'" if "deliver_all (channel_step io h) es v = Inr v'" "chan_ok v" for es v v'
    by (rule deliver_all_invariant [of _ chan_ok, OF _ that]) (rule channel_step_ok)
  from ret Sent(1,2) ok conn obtain w2 w3 where
      w2: "deliver_all (channel_step io h) win1 (w\<lparr>sent := sent w @ [compose_routing_activation_req msg]\<rparr>) = Inr w2"
    and w3: "deliver_all (channel_step io h) win2 (ra_goto ra_kWaitForRoutingActivationRes w2) = Inr w3"
    and wt: "WaitForTimeout ra_timer ra_timer_update (channel_step io h) ra_timeout_func ra_cancellation_func
       kDoIPRoutingActivationTimeout now w3 evs = Returns (r, t, w', rest)"
    by (auto simp: HandleRoutingActivationRequest_def link_in SendRoutingActivationRequest_eq
        bind_call_Returns_iff call_of_run_Returns_iff split: if_splits)
  have "chan_ok w3" using keep [OF w3] keep [OF w2] ok by simp
  then have "now + kDoIPRoutingActivationTimeout \<le> t"
    by (intro ra_wait.no_cancel_means_timeout [OF wt, where E = "events_of evs"])
       (use rd(3) timers_keep_running(1) none in \<open>auto simp: chan_okD\<close>)
  with Sent(2,5) show ?thesis by auto
qed (use l(1) in auto)

lemma early_acknowledgement_is_lost:
  assumes ret: "HandleDiagnosticRequest io (channel_step io h) now win1 win2 evs msg w = Returns (r, t, w', rest)"
    and ok: "chan_ok w" and conn: "connection_state w = kConnected"
    and l: "routing (link w) = ra_kRoutingActivationSuccessful" "diag (link w) = dm_kIdle"
    and rd: "set win1 \<subseteq> Collect by_reader" "set win2 \<subseteq> Collect by_reader" "events_of evs \<subseteq> Collect by_reader"
    and none: "no_frame_of {kDoipDiagMessagePosAck, kDoipDiagMessageNegAck} (events_of evs)"
  shows "r = (if asio_write io (compose_diag_req msg) then kNoTransmitAckReceived else kTransmitFailed)"
  using ret ok conn l(1) rd
proof (cases rule: diagnostic_cases)
  case Sent
  have keep: "chan_ok v'" if "deliver_all (channel_step io h) es v = Inr v'" "chan_ok v" for es v v'
    by (rule deliver_all_invariant [of _ chan_ok, OF _ that]) (rule channel_step_ok)
  from ret Sent(1,2) ok conn obtain w2 w3 where
      w2: "deliver_all (channel_step io h) win1 (w\<lparr>sent := sent w @ [compose_diag_req msg]\<rparr>) = Inr w2"
    and w3: "deliver_all (channel_step io h) win2 (dm_goto dm_kWaitForDiagnosticAck w2) = Inr w3"
    and wt: "WaitForTimeout dm_timer dm_timer_update (channel_step io h) dm_timeout_func dm_cancellation_func
       kDoIPDiagnosticAckTimeout now w3 evs = Returns (r, t, w', rest)"
    by (auto simp: HandleDiagnosticRequest_def link_in dm_SendDiagnosticRequest_eq
        bind_call_Returns_iff call_of_run_Returns_iff split: if_splits)
  have "chan_ok w3" using keep [OF w3] keep [OF w2] ok by simp
  then have "now + kDoIPDiagnosticAckTimeout \<le> t"
    by (intro dm_wait.no_cancel_means_timeout [OF wt, where E = "events_of evs"])
       (use rd(3) timers_keep_running(2) none in \<open>auto simp: chan_okD\<close>)
  with Sent(2,5) show ?thesis by auto
qed (use l(2) in auto)

end

text \<open>C9: An answer that comes before the caller has armed its timer is lost, because arming sets the flag
  that the answer has cleared. If all answers to a routing activation, or all acknowledgements of a request,
  come in the windows between the transmission and the arming of the timer, connecting never succeeds and no
  request is ever answered: whatever the server sent, the call reports the timeout, unless it did not get as
  far as waiting.\<close>

theorem early_answers_are_lost:
  assumes "app_reachable io conf w" and "reader_only win1 win2 evs"
    and "no_frame_of {kDoip_RoutingActivation_ResType, kDoipDiagMessagePosAck, kDoipDiagMessageNegAck} (events_of evs)"
  shows "(ConnectToDiagServer io now win1 win2 evs target ip w = Returns (c, t, w', rest) \<longrightarrow>
      c = (if \<not> IsRoutingActivated w \<and> (TcpChannel_IsConnectedToHost w \<or> asio_connect io ip DmUdsMessage_GetHostPortNumber) \<and>
              asio_write io (compose_routing_activation_req (uds_message_down (source_address w) target ip []))
           then kConnectTimeout else kConnectFailed)) \<and>
    (SendDiagnosticRequest io now win1 win2 evs (Some msg) w = Returns (r, t, w', rest) \<longrightarrow>
      r = FromError
        (if IsRoutingActivated w \<and> \<not> dm_in dm_kIdle w then kDiagBusyProcessing
         else if IsRoutingActivated w \<and> asio_write io (request_frame msg w) then kDiagAckTimeout
         else kDiagRequestSendFailed))"
proof -
  have inv: "app_inv w" using app_reachable_inv [OF assms(1)] by simp
  then have ok: "chan_ok w" "link_inv (link w)" "quiet (link w)" by (auto simp: app_inv_def conv_okD)
  note rd = reader_onlyD [OF assms(2)]
  have none: "no_frame_of {kDoip_RoutingActivation_ResType} (events_of evs)"
    "no_frame_of {kDoipDiagMessagePosAck, kDoipDiagMessageNegAck} (events_of evs)"
    using assms(3) by (auto simp: no_frame_of_def)
  show ?thesis
  proof (intro conjI impI, goal_cases)
    case 1
    let ?m = "uds_message_down (source_address w) target ip []"
    from 1 obtain r0 w0 where c: "TcpChannel_ConnectToHost io (dm_step io) now win1 win2 evs ?m w = Returns (r0, t, w0, rest)"
      and r0: "c = cast_ConnectResult r0"
      by (auto simp: ConnectToDiagServer_def bind_call_Returns_iff)
    define v where "v = (if connection_state w = kConnected then w else w\<lparr>running := True, connection_state := kConnected\<rparr>)"
    have v: "chan_ok v" "connection_state v = kConnected" "routing (link v) = routing (link w)" "diag (link v) = diag (link w)"
      using ok(1) by (auto simp: v_def)
    show ?case
    proof (cases "connection_state w = kConnected \<or> asio_connect io ip DmUdsMessage_GetHostPortNumber")
      case False
      with c r0 show ?thesis
        by (auto simp: TcpChannel_ConnectToHost_def TcpClient_ConnectToHost_eq uds_message_down_def
            TcpChannel_IsConnectedToHost_def TcpClient_IsConnectedToHost_def cast_ConnectResult_def split: if_splits)
    next
      case True
      then have h: "HandleRoutingActivationRequest io (channel_step io DmConversationHandler) now win1 win2 evs ?m v = Returns (r0, t, w0, rest)"
        using c by (auto simp: TcpChannel_ConnectToHost_def TcpClient_ConnectToHost_eq uds_message_down_def dm_step_def v_def
            split: if_splits)
      show ?thesis
      proof (cases "IsRoutingActivated w")
        case act: True
        then have "routing (link v) = ra_kRoutingActivationSuccessful" using ok(1) v(3) by (simp add: IsRoutingActivated_def link_in)
        with h v(1) act r0 show ?thesis
          by (auto simp: HandleRoutingActivationRequest_def link_in cast_ConnectResult_def)
      next
        case False
        then have l: "routing (link v) = ra_kIdle" using ok v(3) by (auto simp: IsRoutingActivated_def link_in quiet_def)
        then have "diag (link v) = dm_kIdle" using ok(2) v(3,4) by (auto simp: link_inv_def)
        from dm_chan.early_activation_is_lost [OF h v(1,2) l this rd none(1)] True False r0 show ?thesis
          by (auto simp: cast_ConnectResult_def TcpChannel_IsConnectedToHost_def TcpClient_IsConnectedToHost_def)
      qed
    qed
  next
    case 2
    let ?m = "uds_message_down (source_address w) (target_address w) (req_host_ip msg) (req_payload msg)"
    from 2 obtain tr t1 w1 evs1 where tx:
        "TcpChannel_Transmit io (dm_step io) now win1 win2 evs ?m w = Returns (tr, t1, w1, evs1)"
      by (cases "TcpChannel_Transmit io (dm_step io) now win1 win2 evs ?m w")
         (auto simp: SendDiagnosticRequest_def Let_def)
    have tr: "tr = (if \<not> IsRoutingActivated w then kTransmitFailed else if \<not> dm_in dm_kIdle w then kBusyProcessing
        else if asio_write io (compose_diag_req ?m) then kNoTransmitAckReceived else kTransmitFailed)"
    proof (cases "IsRoutingActivated w \<and> dm_in dm_kIdle w")
      case True
      then have l: "routing (link w) = ra_kRoutingActivationSuccessful" "diag (link w) = dm_kIdle"
        using ok(1) by (simp_all add: IsRoutingActivated_def link_in)
      with ok(2) have "connection_state w = kConnected" by (auto simp: link_inv_def)
      moreover have "HandleDiagnosticRequest io (channel_step io DmConversationHandler) now win1 win2 evs ?m w = Returns (tr, t1, w1, evs1)"
        using tx True by (simp add: TcpChannel_Transmit_def dm_step_def)
      ultimately show ?thesis using dm_chan.early_acknowledgement_is_lost [OF _ ok(1) _ l rd none(2)] True by simp
    next
      case False
      with tx show ?thesis by (auto simp: TcpChannel_Transmit_def HandleDiagnosticRequest_def split: if_splits)
    qed
    have "tr \<noteq> kTransmitOk" by (simp add: tr)
    with 2 tx have "r = FromError (ConvertResponseType tr)"
      by (simp add: SendDiagnosticRequest_def Let_def EmplaceError_def)
    then show ?case by (simp add: tr request_frame_def ConvertResponseType_def)
  qed
qed

theorem early_answers_are_lost_witness:
  "(\<exists>t w' rest. ConnectToDiagServer io_ok 0 [] [rx ra_frame] [(1000, [])] 0x1234 ''172.16.25.128'' demo_start =
      Returns (kConnectTimeout, t, w', rest)) \<and>
   (\<exists>t w' rest. SendDiagnosticRequest io_ok 0 [] [rx ack_frame] [(2000, [])] (Some demo_request) demo_active =
      Returns (FromError kDiagAckTimeout, t, w', rest))"
proof -
  have "case ConnectToDiagServer io_ok 0 [] [rx ra_frame] [(1000, [])] 0x1234 ''172.16.25.128'' demo_start of
      Returns x \<Rightarrow> True | _ \<Rightarrow> False"
    "case SendDiagnosticRequest io_ok 0 [] [rx ack_frame] [(2000, [])] (Some demo_request) demo_active of
      Returns x \<Rightarrow> True | _ \<Rightarrow> False"
    by code_simp+
  then obtain c t1 v1 rest1 r t2 v2 rest2 where
      1: "ConnectToDiagServer io_ok 0 [] [rx ra_frame] [(1000, [])] 0x1234 ''172.16.25.128'' demo_start = Returns (c, t1, v1, rest1)"
    and 2: "SendDiagnosticRequest io_ok 0 [] [rx ack_frame] [(2000, [])] (Some demo_request) demo_active = Returns (r, t2, v2, rest2)"
    by (auto split: call.splits)
  have st: "\<not> IsRoutingActivated demo_start" "IsRoutingActivated demo_active" "dm_in dm_kIdle demo_active"
    by code_simp+
  have rd: "reader_only [] [rx ra_frame] [(1000, [])]" "reader_only [] [rx ack_frame] [(2000, [])]"
    by (simp_all add: reader_only_def rx_def)
  have none: "no_frame_of T (events_of [(t0, [])])" for T t0 by (simp add: no_frame_of_def)
  from early_answers_are_lost [OF demo_reachable(1) rd(1) none, THEN conjunct1, rule_format, OF 1] st(1)
  have "c = kConnectTimeout" by (simp add: io_ok_def)
  moreover from early_answers_are_lost [OF demo_reachable(2) rd(2) none, THEN conjunct2, rule_format, OF 2] st(2,3)
  have "r = FromError kDiagAckTimeout" by (simp add: io_ok_def)
  ultimately show ?thesis using 1 2 by blast
qed

section \<open>Calls that do not end the process\<close>

definition survives :: "'a call \<Rightarrow> bool" where
  "survives c \<longleftrightarrow> (\<forall>e. c \<noteq> Crashes e)"

lemma survives_simps [simp]: "survives (Returns x)" "survives Blocks" "\<not> survives (Crashes e)"
  by (simp_all add: survives_def)

lemma survives_bind: "survives c \<Longrightarrow> (\<And>x. c = Returns x \<Longrightarrow> survives (f x)) \<Longrightarrow> survives (bind_call c f)"
  by (cases c) simp_all

text \<open>Threads whose actions \<open>E\<close> never fault cannot make the waits of the caller end the process.\<close>

locale faultless =
  fixes step :: "'ev \<Rightarrow> 'w \<Rightarrow> 'w run" and E :: "'ev set"
  assumes total: "e \<in> E \<Longrightarrow> \<exists>w'. step e w = Inr w'"
begin

lemma deliver_total: "set es \<subseteq> E \<Longrightarrow> \<exists>w'. deliver_all step es w = Inr w'"
  using deliver_all_total_on [of E "\<lambda>_. True" step es w] total by simp

lemma deliver_survives: "set es \<subseteq> E \<Longrightarrow> survives (call_of_run (deliver_all step es w))"
  using deliver_total [of es w] by auto

lemma next_window_survives: "events_of evs \<subseteq> E \<Longrightarrow> survives (next_window step now w evs)"
  by (cases evs) (auto simp: next_window_def intro!: survives_bind deliver_survives split: prod.splits)

lemma wait_until_survives: "events_of evs \<subseteq> E \<Longrightarrow> survives (wait_until timer_of step expiry now w evs)"
proof (induction evs arbitrary: now w)
  case (Cons b evs)
  obtain t es where b: "b = (t, es)" by (cases b)
  with Cons.prems have "set es \<subseteq> E" "events_of evs \<subseteq> E" by auto
  then show ?case using Cons.IH by (auto simp: b intro!: survives_bind deliver_survives)
qed simp

lemma WaitForTimeout_survives:
  "events_of evs \<subseteq> E \<Longrightarrow> survives (WaitForTimeout timer_of timer_update step tf cf timeout now w evs)"
  using wait_until_survives [of evs timer_of "now + timeout" now "timer_update SyncTimer_arm w"]
  by (cases "wait_until timer_of step (now + timeout) now (timer_update SyncTimer_arm w) evs")
     (auto simp: WaitForTimeout_def)

end

text \<open>A frame that can be parsed is handled, unless it is a diagnostic message cut off in a negative response.\<close>

fun harmless :: "channel_event \<Rightarrow> bool" where
  "harmless (Rx_Frame ip port p) =
     (case new_DoipMessage kTcp ip port p of
        Inl e \<Rightarrow> False
      | Inr m \<Rightarrow> payload_type m = kDoipDiagMessage \<and> payload m ! 0 = 0x7F \<longrightarrow> 3 \<le> length (payload m))"
| "harmless Rx_End = True"
| "harmless e = False"

lemma harmless_by_reader: "harmless e \<Longrightarrow> by_reader e"
  by (cases e) simp_all

lemma harmless_step: "harmless e \<Longrightarrow> \<exists>w'. dm_step io e w = Inr w'"
proof (cases e)
  case (Rx_Frame ip port p)
  assume "harmless e"
  with Rx_Frame obtain m where m: "new_DoipMessage kTcp ip port p = Inr m"
      "payload_type m = kDoipDiagMessage \<Longrightarrow> payload m ! 0 = 0x7F \<Longrightarrow> 3 \<le> length (payload m)"
    by (auto split: sum.splits)
  from dm_receive_faults [OF m(1), of w] m(2) show ?thesis
    by (cases "dm_step io e w") (auto simp: dm_receive_step [of _ _ _ _ io] Rx_Frame)
qed (simp_all add: dm_step_def)

interpretation reader_events: faultless "dm_step io" "Collect harmless" for io
  by unfold_locales (use harmless_step in simp)

lemma harmless_events: "E \<subseteq> Collect harmless \<Longrightarrow> E \<subseteq> Collect by_reader"
  using harmless_by_reader by blast

lemma response_loop_survives:
  assumes "conv_ok w" and "events_of evs \<subseteq> Collect harmless"
  shows "survives (response_loop (dm_step io) now res w evs)"
  using assms
proof (induction "length evs" arbitrary: now res w evs rule: less_induct)
  case less
  note ev = less.prems(2) and rd = harmless_events [OF less.prems(2)]
  from less.prems(1) obtain s where "cv_in s w" by (auto simp: conv_ok_def)
  note gs = GetActiveState_cv [OF this]
  show ?case
  proof (cases "s = cv_kIdle \<or> evs = []")
    case True
    with gs show ?thesis by (auto simp: response_loop.simps [of _ now res w evs])
  next
    case False
    show ?thesis
      unfolding response_loop.simps [of _ now res w evs] gs call_of_run_simps bind_call_simps
    proof (subst if_not_P, use False in blast, subst if_not_P, use False in blast,
        rule survives_bind [OF reader_events.next_window_survives [OF ev]], unfold split_paired_all prod.case)
      fix t w1 evs1
      assume win: "next_window (dm_step io) now w evs = Returns (t, w1, evs1)"
      have ok1: "conv_ok w1"
        by (rule next_window_inv(1) [OF win rd, of conv_ok, OF less.prems(1)]) (use dm_step_conv_ok(1) in blast)
      have ev1: "events_of evs1 \<subseteq> Collect harmless"
        by (rule next_window_inv(2) [OF win ev, of "\<lambda>_. True"]) simp_all
      have sh: "length evs1 < length evs" using next_window_consumes [OF win] False by simp
      note IH = less.hyps [OF sh _ ev1]
      have wait: "survives (bind_call
          (WaitForTimeout cv_timer cv_timer_update (dm_step io) (p2_star_timeout_func res)
             (p2_star_cancellation_func res) (unat (p2_star_client_max w1)) t w1 evs1)
          (\<lambda>(result', t', w2, evs2). response_loop (dm_step io) t' result' w2 evs2))"
      proof (rule survives_bind [OF reader_events.WaitForTimeout_survives [OF ev1]], unfold split_paired_all prod.case)
        fix r2 t2 w2 evs2
        assume wt: "WaitForTimeout cv_timer cv_timer_update (dm_step io) (p2_star_timeout_func res)
             (p2_star_cancellation_func res) (unat (p2_star_client_max w1)) t w1 evs1 = Returns (r2, t2, w2, evs2)"
        have "conv_ok w2 \<and> events_of evs2 \<subseteq> Collect harmless"
          by (rule cv_wait_keeps [where P = conv_ok, OF wt _ _ _ callbacks_keep(3,4) ev1 ok1])
             (use dm_step_conv_ok(1) harmless_by_reader in auto)
        with WaitForTimeout_rest [OF wt] sh show "survives (response_loop (dm_step io) t2 r2 w2 evs2)"
          by (intro less.hyps) auto
      qed
      show "survives (case s of
             cv_kDiagRecvdPendingRes \<Rightarrow> response_loop (dm_step io) t res (cv_goto cv_kDiagStartP2StarTimer w1) evs1
           | cv_kDiagStartP2StarTimer \<Rightarrow>
               bind_call
                 (WaitForTimeout cv_timer cv_timer_update (dm_step io) (p2_star_timeout_func res)
                    (p2_star_cancellation_func res) (unat (p2_star_client_max w1)) t w1 evs1)
                 (\<lambda>(result', t', w2, evs2). response_loop (dm_step io) t' result' w2 evs2)
           | cv_kDiagSuccess \<Rightarrow>
               response_loop (dm_step io) t (EmplaceValue Rx_Buffer_Reference res) (cv_goto cv_kIdle w1) evs1
           | _ \<Rightarrow> response_loop (dm_step io) t res w1 evs1)"
        using wait IH ok1 by (cases s) simp_all
    qed
  qed
qed

lemma response_phase_survives:
  assumes "conv_ok w1" and "events_of evs1 \<subseteq> Collect harmless"
  shows "survives (bind_call (next_window (dm_step io) t1 w1 evs1) (\<lambda>(t2, w2, evs2).
    bind_call (next_window (dm_step io) t2 (cv_goto cv_kDiagWaitForRes w2) evs2) (\<lambda>(t3, w3, evs3).
    bind_call (WaitForTimeout cv_timer cv_timer_update (dm_step io) (p2_timeout_func res) (p2_cancellation_func res)
        (unat (p2_client_max w3)) t3 w3 evs3)
      (\<lambda>(result', t4, w4, evs4). response_loop (dm_step io) t4 result' w4 evs4))))"
proof (rule survives_bind [OF reader_events.next_window_survives [OF assms(2)]], unfold split_paired_all prod.case)
  have st: "conv_ok v'" if "e \<in> Collect harmless" "dm_step io e v = Inr v'" "conv_ok v" for e v v'
    using that dm_step_conv_ok(1) harmless_by_reader by auto
  fix t2 w2 evs2
  assume w2: "next_window (dm_step io) t1 w1 evs1 = Returns (t2, w2, evs2)"
  have 2: "conv_ok w2" "events_of evs2 \<subseteq> Collect harmless"
    by (rule next_window_inv [OF w2 assms(2), of conv_ok], rule assms(1), rule st, assumption+)+
  show "survives (bind_call (next_window (dm_step io) t2 (cv_goto cv_kDiagWaitForRes w2) evs2) (\<lambda>(t3, w3, evs3).
      bind_call (WaitForTimeout cv_timer cv_timer_update (dm_step io) (p2_timeout_func res) (p2_cancellation_func res)
          (unat (p2_client_max w3)) t3 w3 evs3)
        (\<lambda>(result', t4, w4, evs4). response_loop (dm_step io) t4 result' w4 evs4)))"
  proof (rule survives_bind [OF reader_events.next_window_survives [OF 2(2)]], unfold split_paired_all prod.case)
    fix t3 w3 evs3
    assume w3: "next_window (dm_step io) t2 (cv_goto cv_kDiagWaitForRes w2) evs2 = Returns (t3, w3, evs3)"
    have 3: "conv_ok w3" "events_of evs3 \<subseteq> Collect harmless"
      by (rule next_window_inv [OF w3 2(2), of conv_ok], use 2(1) in simp, rule st, assumption+)+
    show "survives (bind_call (WaitForTimeout cv_timer cv_timer_update (dm_step io) (p2_timeout_func res)
          (p2_cancellation_func res) (unat (p2_client_max w3)) t3 w3 evs3)
        (\<lambda>(result', t4, w4, evs4). response_loop (dm_step io) t4 result' w4 evs4))"
    proof (rule survives_bind [OF reader_events.WaitForTimeout_survives [OF 3(2)]], unfold split_paired_all prod.case)
      fix res' t4 w4 evs4
      assume wt: "WaitForTimeout cv_timer cv_timer_update (dm_step io) (p2_timeout_func res)
          (p2_cancellation_func res) (unat (p2_client_max w3)) t3 w3 evs3 = Returns (res', t4, w4, evs4)"
      have "conv_ok w4 \<and> events_of evs4 \<subseteq> Collect harmless"
        by (rule cv_wait_keeps [where P = conv_ok, OF wt st _ _ callbacks_keep(1,2) 3(2,1)]) simp_all
      then show "survives (response_loop (dm_step io) t4 res' w4 evs4)" by (intro response_loop_survives) auto
    qed
  qed
qed

text \<open>The two calls of the channel, the windows and the wait included.\<close>

lemma HandleDiagnosticRequest_survives:
  assumes "set win1 \<subseteq> Collect harmless" "set win2 \<subseteq> Collect harmless" "events_of evs \<subseteq> Collect harmless"
    and "asio_write io (compose_diag_req msg) \<longrightarrow> asio_endpoint_written io (compose_diag_req msg)"
  shows "survives (HandleDiagnosticRequest io (dm_step io) now win1 win2 evs msg w)"
  using assms
  by (auto simp: HandleDiagnosticRequest_def dm_SendDiagnosticRequest_eq
      intro!: survives_bind reader_events.deliver_survives reader_events.WaitForTimeout_survives)

lemma HandleRoutingActivationRequest_survives:
  assumes "set win1 \<subseteq> Collect harmless" "set win2 \<subseteq> Collect harmless" "events_of evs \<subseteq> Collect harmless"
    and "asio_write io (compose_routing_activation_req msg) \<longrightarrow> asio_endpoint_written io (compose_routing_activation_req msg)"
  shows "survives (HandleRoutingActivationRequest io (dm_step io) now win1 win2 evs msg w)"
  using assms
  by (auto simp: HandleRoutingActivationRequest_def SendRoutingActivationRequest_eq
      intro!: survives_bind reader_events.deliver_survives reader_events.WaitForTimeout_survives)

lemma HandleRoutingActivationRequest_bounded:
  assumes "chan_ok w" and "\<exists>b \<in> set evs. now + kDoIPRoutingActivationTimeout \<le> fst b"
  shows "HandleRoutingActivationRequest io (dm_step io) now win1 win2 evs msg w \<noteq> Blocks"
proof -
  have keep: "chan_ok v'" if "deliver_all (dm_step io) es v = Inr v'" "chan_ok v" for es v v'
    by (rule deliver_all_invariant [of _ chan_ok, OF _ that]) (auto simp: dm_step_def intro: dm_chan.channel_step_ok)
  have "WaitForTimeout ra_timer ra_timer_update (dm_step io) ra_timeout_func ra_cancellation_func
      kDoIPRoutingActivationTimeout now w3 evs \<noteq> Blocks"
    if "deliver_all (dm_step io) win1 (w\<lparr>sent := fs\<rparr>) = Inr w2"
      "deliver_all (dm_step io) win2 (ra_goto ra_kWaitForRoutingActivationRes w2) = Inr w3" for w2 w3 fs
  proof -
    have "chan_ok w3" using keep [OF that(2)] keep [OF that(1)] assms(1) by simp
    then show ?thesis
      unfolding dm_step_def by (intro dm_chan.ra_wait.WaitForTimeout_bounded assms(2)) (simp add: chan_okD)
  qed
  then show ?thesis
    by (auto simp: HandleRoutingActivationRequest_def SendRoutingActivationRequest_eq bind_call_Blocks_iff call_of_run_Returns_iff)
qed





section \<open>What a response is\<close>

text \<open>C16: A response is a view of the receive buffer of its conversation, not a copy. Once a later request
  has been answered, whatever the application did between the two, the first response yields the data of the
  second.\<close>

theorem response_changes_with_the_next:
  assumes "app_reachable io conf w" and "reader_only win1 win2 evs" and "reader_only win3 win4 evs2"
    and "SendDiagnosticRequest io now win1 win2 evs (Some msg) w = Returns (FromValue resp, t, w1, rest)"
    and "(app_step io)\<^sup>*\<^sup>* w1 v"
    and "SendDiagnosticRequest io now2 win3 win4 evs2 (Some msg2) v = Returns (FromValue resp2, t2, w2, rest2)"
  shows "(\<exists>ip port p m. Rx_Frame ip port p \<in> events_of evs \<and> accepted p m \<and> payload_type m = kDoipDiagMessage \<and>
       DmUdsResponse_GetPayload resp w1 = payload m) \<and>
    (\<exists>ip port p m. Rx_Frame ip port p \<in> events_of evs2 \<and> accepted p m \<and> payload_type m = kDoipDiagMessage \<and>
       DmUdsResponse_GetPayload resp2 w2 = payload m \<and> DmUdsResponse_GetPayload resp w2 = payload m)"
proof -
  have ok: "conv_ok w" using app_reachable_inv [OF assms(1)] by (simp add: app_inv_def)
  have "app_step io w w1" by (rule app_step.send [OF assms(4,2)])
  with assms(1,5) have "app_reachable io conf v" unfolding app_reachable_def by (meson rtranclp.rtrancl_into_rtrancl rtranclp_trans)
  then have okv: "conv_ok v" using app_reachable_inv by (auto simp: app_inv_def)
  have 1: "resp = Rx_Buffer_Reference" "answered (events_of evs) w1"
    by (rule SendDiagnosticRequest_cases [OF assms(4) ok reader_onlyD [OF assms(2)]]; simp add: settled_def)+
  have 2: "resp2 = Rx_Buffer_Reference" "answered (events_of evs2) w2"
    by (rule SendDiagnosticRequest_cases [OF assms(6) okv reader_onlyD [OF assms(3)]]; simp add: settled_def)+
  from 1(2) 2(2) show ?thesis unfolding 1(1) 2(1) answered_def DmUdsResponse_GetPayload_def by auto
qed

theorem response_changes_with_the_next_witness:
  "\<exists>t w2 rest. SendDiagnosticRequest io_ok 300 [] []
       [(310, [rx ack_frame]), (311, []), (312, []), (330, [rx (tcp_frame kDoipDiagMessage 6 0x1234 0x0E80 [0x50, 0x01])]), (331, [])]
       (Some demo_request) demo_done = Returns (FromValue Rx_Buffer_Reference, t, w2, rest) \<and>
     DmUdsResponse_GetPayload Rx_Buffer_Reference w2 = [0x50, 0x01]"
proof -
  let ?frame = "tcp_frame kDoipDiagMessage 6 0x1234 0x0E80 [0x50, 0x01]"
  let ?evs = "[(310, [rx ack_frame]), (311, []), (312, []), (330, [rx ?frame]), (331, [])]"
  have "case SendDiagnosticRequest io_ok 300 [] [] ?evs (Some demo_request) demo_done of
      Returns (FromValue r, t, w2, rest) \<Rightarrow> True | _ \<Rightarrow> False" by code_simp
  then obtain resp t w2 rest where s: "SendDiagnosticRequest io_ok 300 [] [] ?evs (Some demo_request) demo_done =
      Returns (FromValue resp, t, w2, rest)"
    by (auto split: call.splits Result.splits) (metis Result.exhaust)
  have rd: "reader_only [] [] demo_schedule" "reader_only [] [] ?evs"
    by (simp_all add: reader_only_def demo_schedule_def rx_def)
  from response_changes_with_the_next [OF demo_reachable(2) rd demo_answers rtranclp.rtrancl_refl s]
  obtain ip port p m where m: "Rx_Frame ip port p \<in> events_of ?evs" "accepted p m" "payload_type m = kDoipDiagMessage"
      "DmUdsResponse_GetPayload Rx_Buffer_Reference w2 = payload m"
    by blast
  from m(1) have "p = ack_frame \<or> p = ?frame" by (auto simp: rx_def)
  with m(2,3) have "payload m = [0x50, 0x01]"
    by (auto simp: accepted_def ack_frame_def parse_tcp_frame doip_consts)
  with m(4) s show ?thesis by (cases resp) auto
qed

end
