(* ===== verification/Conversation_Manager.thy ===== *)
theory Conversation_Manager
  imports Vd_Request Application Protocol_Handler "HOL-Library.AList"
begin

text \<open>
  The conversation manager (\<open>dcm/conversation/conversation_manager.cpp\<close>) with the configuration it
  is built from (\<open>dcm/config_parser/config_parser_type.cpp\<close>). The manager owns one conversation
  object for each name, created on demand; everybody else holds references to these objects, so the
  objects live in a store and a reference is an address of it.
\<close>

section \<open>Configuration\<close>

record DoipNetworkType =
  tcp_ip_address :: string
  tls_handling :: bool

record ConversationType =
  ct_p2_client_max :: u16
  ct_p2_star_client_max :: u16
  ct_rx_buffer_size :: u16
  ct_source_address :: u16
  conversation_name :: string
  network :: DoipNetworkType

record DcmClientConfig =
  udp_ip_address :: string
  udp_broadcast_address :: string
  num_of_conversation :: u8
  conversations :: "ConversationType list"

text \<open>
  The property tree comes from Boost. What the reader of the configuration relies on is the
  parameter \<open>boost_tree\<close>: looking a path up yields a value of the type asked for or throws.
\<close>

record 'tree boost_tree =
  get_string :: "'tree \<Rightarrow> string \<Rightarrow> string run"
  get_u8 :: "'tree \<Rightarrow> string \<Rightarrow> u8 run"
  get_u16 :: "'tree \<Rightarrow> string \<Rightarrow> u16 run"
  get_bool :: "'tree \<Rightarrow> string \<Rightarrow> bool run"
  get_child :: "'tree \<Rightarrow> string \<Rightarrow> 'tree list run"

definition ReadConversation :: "'tree boost_tree \<Rightarrow> 'tree \<Rightarrow> ConversationType run" where
  "ReadConversation b t =
     bind_run (get_string b t ''ConversationName'') (\<lambda>name.
     bind_run (get_u16 b t ''P2ClientMax'') (\<lambda>p2.
     bind_run (get_u16 b t ''P2StarClientMax'') (\<lambda>p2_star.
     bind_run (get_u16 b t ''RxBufferSize'') (\<lambda>rx.
     bind_run (get_u16 b t ''SourceAddress'') (\<lambda>sa.
     bind_run (get_string b t ''Network.TcpIpAddress'') (\<lambda>ip.
     bind_run (get_bool b t ''Network.TlsHandling'') (\<lambda>tls.
     Inr \<lparr>ct_p2_client_max = p2, ct_p2_star_client_max = p2_star, ct_rx_buffer_size = rx,
          ct_source_address = sa, conversation_name = name,
          network = \<lparr>tcp_ip_address = ip, tls_handling = tls\<rparr>\<rparr>)))))))"

definition ReadDcmClientConfig :: "'tree boost_tree \<Rightarrow> 'tree \<Rightarrow> DcmClientConfig run" where
  "ReadDcmClientConfig b t =
     bind_run (get_string b t ''UdpIpAddress'') (\<lambda>udp.
     bind_run (get_string b t ''UdpBroadcastAddress'') (\<lambda>bc.
     bind_run (get_u8 b t ''Conversation.NumberOfConversation'') (\<lambda>n.
     bind_run (get_child b t ''Conversation.ConversationProperty'') (\<lambda>ts.
     bind_run (map_run (ReadConversation b) ts) (\<lambda>cs.
     Inr \<lparr>udp_ip_address = udp, udp_broadcast_address = bc, num_of_conversation = n, conversations = cs\<rparr>)))))"

section \<open>State\<close>

datatype conversation_type = DM_Type DMConversationType | VD_Type VDConversationType

datatype conversation = DM_Conversation dm_world | VD_Conversation vd_world

record ConversationStorage =
  conversation_type :: conversation_type
  conversation :: "nat option"

text \<open>
  Addresses are handed out in order and never reused, also not by a later manager, which starts at the
  address \<open>base\<close>; a destroyed object leaves its address empty.
\<close>

record ConversationManager =
  conversation_map :: "(string \<times> ConversationStorage) list"
  objects :: "nat \<Rightarrow> conversation option"
  next_address :: nat

definition kRandomPortNumber :: u16 where "kRandomPortNumber = 0"

definition kVdConversationName :: string where "kVdConversationName = ''VdConversation''"

definition vd_storage :: "DcmClientConfig \<Rightarrow> ConversationStorage" where
  "vd_storage config =
     \<lparr>conversation_type =
        VD_Type \<lparr>conf_udp_address = udp_ip_address config,
          conf_udp_broadcast_address = udp_broadcast_address config,
          conf_udp_port_num = kRandomPortNumber, conf_udp_handler_id = 0\<rparr>,
      conversation = None\<rparr>"

text \<open>The 16-bit buffer size of the configuration is widened; the TLS setting is not looked at.\<close>

definition dm_storage :: "ConversationType \<Rightarrow> ConversationStorage" where
  "dm_storage c =
     \<lparr>conversation_type =
        DM_Type \<lparr>conf_p2_client_max = ct_p2_client_max c, conf_p2_star_client_max = ct_p2_star_client_max c,
          conf_source_address = ct_source_address c, conf_rx_buffer_size = ucast (ct_rx_buffer_size c),
          conf_tcp_address = tcp_ip_address (network c), conf_port_num = kRandomPortNumber, conf_handler_id = 0\<rparr>,
      conversation = None\<rparr>"

text \<open>
  The loop runs over the number of conversations the configuration states, whatever the length of
  the list is.
\<close>

definition StoreConversationConfig ::
    "DcmClientConfig \<Rightarrow> (string \<times> ConversationStorage) list \<Rightarrow> (string \<times> ConversationStorage) list run" where
  "StoreConversationConfig config m =
     bind_run
       (map_run (\<lambda>conv_count. vector_at (conversations config) conv_count) [0 ..< unat (num_of_conversation config)])
       (\<lambda>cs. Inr (fold (\<lambda>c. umap_emplace (conversation_name c) (dm_storage c)) cs
                    (umap_emplace kVdConversationName (vd_storage config) m)))"

definition new_ConversationManager :: "nat \<Rightarrow> DcmClientConfig \<Rightarrow> ConversationManager run" where
  "new_ConversationManager base config =
     bind_run (StoreConversationConfig config []) (\<lambda>m.
       Inr \<lparr>conversation_map = m, objects = (\<lambda>a. None), next_address = base\<rparr>)"

section \<open>Operations\<close>

definition ConversationManager_Startup :: "ConversationManager \<Rightarrow> ConversationManager" where
  "ConversationManager_Startup m = m"

text \<open>
  What the operating system does for the sockets is a parameter for each object: the calls of the
  TCP socket and those of the two UDP sockets.
\<close>

type_synonym network = "nat \<Rightarrow> asio_io \<times> asio_udp \<times> asio_udp"

text \<open>The conversation object with a fresh channel.\<close>

definition conversation_of :: "conversation_type \<Rightarrow> conversation" where
  "conversation_of ty =
     (case ty of
        DM_Type c \<Rightarrow> DM_Conversation (new_DmConversation c)
      | VD_Type c \<Rightarrow> VD_Conversation (new_VdConversation (conf_udp_address c) c))"

text \<open>
  The object is made first and then the connection registered with it, which the transport protocol handler
  builds around the channel.
\<close>

definition CreateConversation :: "asio_io \<times> asio_udp \<times> asio_udp \<Rightarrow> conversation_type \<Rightarrow> conversation run" where
  "CreateConversation net ty =
     (case net of (io, bc_io, uc_io) \<Rightarrow>
        case ty of
          DM_Type c \<Rightarrow>
            bind_run (DoipTransportProtocolHandler_CreateTcpConnection io (conf_tcp_address c) (conf_port_num c))
              (\<lambda>_. Inr (conversation_of ty))
        | VD_Type c \<Rightarrow>
            bind_run (DoipTransportProtocolHandler_CreateUdpConnection bc_io uc_io (conf_udp_address c) (conf_udp_port_num c))
              (\<lambda>_. Inr (conversation_of ty)))"

text \<open>
  Destroying a diagnostic conversation joins the reader thread of its connection without telling it
  to exit: if the thread was started and not stopped, the destructor never returns. The io context
  of a discovery conversation is told to exit.
\<close>

definition DestroyConversation :: "nat \<Rightarrow> ConversationManager \<Rightarrow> ConversationManager call" where
  "DestroyConversation a m =
     (case objects m a of
        Some (DM_Conversation w) \<Rightarrow>
          if reader_started w then Blocks else Returns (m\<lparr>objects := (objects m)(a := None)\<rparr>)
      | _ \<Rightarrow> Returns (m\<lparr>objects := (objects m)(a := None)\<rparr>))"

text \<open>The destruction of the manager destroys all its objects.\<close>

fun destroy_all :: "(string \<times> ConversationStorage) list \<Rightarrow> ConversationManager \<Rightarrow> ConversationManager call" where
  "destroy_all [] m = Returns m"
| "destroy_all ((name, st) # sts) m =
     bind_call (case conversation st of None \<Rightarrow> Returns m | Some a \<Rightarrow> DestroyConversation a m) (destroy_all sts)"

definition DestroyConversationManager :: "ConversationManager \<Rightarrow> ConversationManager call" where
  "DestroyConversationManager m = destroy_all (conversation_map m) m"

text \<open>
  The new object is made before the old one is destroyed; the storage refers to the new one from
  then on. A name that is not configured ends the process.
\<close>

definition GetDiagnosticClientConversation ::
    "network \<Rightarrow> string \<Rightarrow> ConversationManager \<Rightarrow> (nat \<times> ConversationManager) call" where
  "GetDiagnosticClientConversation net name m =
     (case map_of (conversation_map m) name of
        None \<Rightarrow> Crashes Fatal_Error
      | Some st \<Rightarrow>
          let a = next_address m in
          bind_call (call_of_run (CreateConversation (net a) (conversation_type st))) (\<lambda>c.
          let m1 = m\<lparr>objects := (objects m)(a \<mapsto> c), next_address := a + 1,
                     conversation_map := AList.update name (st\<lparr>conversation := Some a\<rparr>) (conversation_map m)\<rparr>
          in bind_call (case conversation st of None \<Rightarrow> Returns m1 | Some old \<Rightarrow> DestroyConversation old m1)
               (\<lambda>m2. Returns (a, m2))))"

definition Conversation_Startup :: "asio_io \<times> asio_udp \<times> asio_udp \<Rightarrow> conversation \<Rightarrow> conversation run" where
  "Conversation_Startup net c =
     (case net of (io, bc_io, uc_io) \<Rightarrow>
        case c of
          DM_Conversation w \<Rightarrow> bind_run (DmConversation_Startup io w) (\<lambda>w'. Inr (DM_Conversation w'))
        | VD_Conversation w \<Rightarrow> bind_run (VdConversation_Startup bc_io uc_io w) (\<lambda>w'. Inr (VD_Conversation w')))"

definition Conversation_Shutdown :: "asio_io \<times> asio_udp \<times> asio_udp \<Rightarrow> conversation \<Rightarrow> conversation run" where
  "Conversation_Shutdown net c =
     (case net of (io, bc_io, uc_io) \<Rightarrow>
        case c of
          DM_Conversation w \<Rightarrow> bind_run (DmConversation_Shutdown io w) (\<lambda>w'. Inr (DM_Conversation w'))
        | VD_Conversation w \<Rightarrow> bind_run (VdConversation_Shutdown bc_io uc_io w) (\<lambda>w'. Inr (VD_Conversation w')))"

definition GetActivityStatus :: "conversation \<Rightarrow> ActivityStatusType" where
  "GetActivityStatus c = (case c of DM_Conversation w \<Rightarrow> activity_status w | VD_Conversation w \<Rightarrow> vd_activity_status w)"

text \<open>An operation on the object a reference points to.\<close>

definition on_object ::
    "nat \<Rightarrow> (conversation \<Rightarrow> conversation run) \<Rightarrow> ConversationManager \<Rightarrow> ConversationManager run" where
  "on_object a f m =
     (case objects m a of
        None \<Rightarrow> Inl Use_After_Free
      | Some c \<Rightarrow> bind_run (f c) (\<lambda>c'. Inr (m\<lparr>objects := (objects m)(a \<mapsto> c')\<rparr>)))"

text \<open>Conversations the application has not shut down are shut down, in the order of the map.\<close>

definition shutdown_if_active :: "asio_io \<times> asio_udp \<times> asio_udp \<Rightarrow> conversation \<Rightarrow> conversation run" where
  "shutdown_if_active net c = (if GetActivityStatus c \<noteq> kInactive then Conversation_Shutdown net c else Inr c)"

fun shutdown_all ::
    "network \<Rightarrow> (string \<times> ConversationStorage) list \<Rightarrow> ConversationManager \<Rightarrow> ConversationManager run" where
  "shutdown_all net [] m = Inr m"
| "shutdown_all net ((name, st) # sts) m =
     bind_run (case conversation st of None \<Rightarrow> Inr m | Some a \<Rightarrow> on_object a (shutdown_if_active (net a)) m)
       (shutdown_all net sts)"

definition ConversationManager_Shutdown :: "network \<Rightarrow> ConversationManager \<Rightarrow> ConversationManager run" where
  "ConversationManager_Shutdown net m = shutdown_all net (conversation_map m) m"

end
