(* ===== verification/Dcm_Client.thy ===== *)
theory Dcm_Client
  imports Conversation_Manager
begin

text \<open>
  The client as the application sees it: \<open>DCMClient\<close> (\<open>dcm/dcm_client.cpp\<close>) with the thread that runs
  it (\<open>common/diagnostic_manager.cpp\<close>), the facade \<open>DiagClient\<close> (\<open>diagnostic_client.cpp\<close>) and the
  handles on conversations it gives out (\<open>diagnostic_client_conversation.cpp\<close>).
\<close>

section \<open>The diagnostic communication manager\<close>

record DCMClient =
  conversation_mgr :: ConversationManager
  vehicle_discovery_conversation :: nat

definition new_DCMClient :: "network \<Rightarrow> nat \<Rightarrow> DcmClientConfig \<Rightarrow> DCMClient call" where
  "new_DCMClient net base dcm_client_config =
     bind_call (call_of_run (new_ConversationManager base dcm_client_config)) (\<lambda>m.
     bind_call (GetDiagnosticClientConversation net kVdConversationName m) (\<lambda>(a, m').
       Returns \<lparr>conversation_mgr = m', vehicle_discovery_conversation = a\<rparr>))"

text \<open>The transport protocol manager below has nothing to start, run or stop.\<close>

definition UdsTransportProtocolManager_Startup :: "DCMClient \<Rightarrow> DCMClient" where
  "UdsTransportProtocolManager_Startup d = d"

definition UdsTransportProtocolManager_Run :: "DCMClient \<Rightarrow> DCMClient" where
  "UdsTransportProtocolManager_Run d = d"

definition UdsTransportProtocolManager_Shutdown :: "DCMClient \<Rightarrow> DCMClient" where
  "UdsTransportProtocolManager_Shutdown d = d"

definition DCMClient_Initialize :: "network \<Rightarrow> DCMClient \<Rightarrow> DCMClient run" where
  "DCMClient_Initialize net d =
     (let d1 = UdsTransportProtocolManager_Startup (d\<lparr>conversation_mgr := ConversationManager_Startup (conversation_mgr d)\<rparr>);
          a = vehicle_discovery_conversation d1 in
      bind_run (on_object a (Conversation_Startup (net a)) (conversation_mgr d1)) (\<lambda>m.
        Inr (d1\<lparr>conversation_mgr := m\<rparr>)))"

definition DCMClient_Run :: "DCMClient \<Rightarrow> DCMClient" where
  "DCMClient_Run d = UdsTransportProtocolManager_Run d"

definition DCMClient_Shutdown :: "network \<Rightarrow> DCMClient \<Rightarrow> DCMClient run" where
  "DCMClient_Shutdown net d =
     (let a = vehicle_discovery_conversation d in
      bind_run (on_object a (Conversation_Shutdown (net a)) (conversation_mgr d)) (\<lambda>m.
      let d1 = UdsTransportProtocolManager_Shutdown (d\<lparr>conversation_mgr := m\<rparr>) in
      bind_run (ConversationManager_Shutdown net (conversation_mgr d1)) (\<lambda>m'.
        Inr (d1\<lparr>conversation_mgr := m'\<rparr>))))"

section \<open>The client\<close>

text \<open>
  \<open>main_phase\<close> is where the thread \<open>DcmClientMain\<close> is in \<open>DiagnosticManager::Main\<close>; without a thread
  it is \<open>None\<close>.
\<close>

datatype main_phase = Main_Initializing | Main_Waiting | Main_Finished

record DiagClient =
  dcm_instance :: "DCMClient option"
  dcm_thread :: "main_phase option"
  exit_requested :: bool

definition new_DiagClient :: DiagClient where
  "new_DiagClient = \<lparr>dcm_instance = None, dcm_thread = None, exit_requested = False\<rparr>"

text \<open>The next thing the main thread does by itself; it waits until the exit is requested.\<close>

definition Main_step :: "network \<Rightarrow> DiagClient \<Rightarrow> DiagClient run" where
  "Main_step net c =
     (case (dcm_instance c, dcm_thread c) of
        (Some d, Some Main_Initializing) \<Rightarrow>
          bind_run (DCMClient_Initialize net d) (\<lambda>d'.
            Inr (c\<lparr>dcm_instance := Some (DCMClient_Run d'), dcm_thread := Some Main_Waiting\<rparr>))
      | (Some d, Some Main_Waiting) \<Rightarrow>
          if exit_requested c then
            bind_run (DCMClient_Shutdown net d) (\<lambda>d'.
              Inr (c\<lparr>dcm_instance := Some d', dcm_thread := Some Main_Finished\<rparr>))
          else Inr c
      | _ \<Rightarrow> Inr c)"

definition SignalShutdown :: "DiagClient \<Rightarrow> (unit, ErrorCode) Result \<times> DiagClient" where
  "SignalShutdown c = (FromValue (), c\<lparr>exit_requested := True\<rparr>)"

datatype ParsingErrorCode = kError

text \<open>Reading the file is Boost's; a file it cannot read is \<open>None\<close>.\<close>

definition json_Read :: "(string \<Rightarrow> 'tree option) \<Rightarrow> string \<Rightarrow> ('tree, ParsingErrorCode) Result" where
  "json_Read read_json config_path =
     (let parse_result = FromError kError in
      case read_json config_path of
        Some json_tree \<Rightarrow> EmplaceValue json_tree parse_result
      | None \<Rightarrow> EmplaceError kError parse_result)"

text \<open>
  A second initialisation replaces the instance, which destroys the old one with all its
  conversations. It then assigns to the thread object, which ends the process if that still has its
  thread.
\<close>

definition DiagClient_Initialize ::
    "network \<Rightarrow> 'tree boost_tree \<Rightarrow> (string \<Rightarrow> 'tree option) \<Rightarrow> string \<Rightarrow> DiagClient \<Rightarrow>
     ((unit, ErrorCode) Result \<times> DiagClient) call" where
  "DiagClient_Initialize net b read_json config_path c =
     (case json_Read read_json config_path of
        FromValue config \<Rightarrow>
          bind_call (call_of_run (ReadDcmClientConfig b config)) (\<lambda>cfg.
          bind_call (new_DCMClient net (case dcm_instance c of None \<Rightarrow> 0 | Some old \<Rightarrow> next_address (conversation_mgr old)) cfg) (\<lambda>d.
          bind_call (case dcm_instance c of None \<Rightarrow> Returns ()
                     | Some old \<Rightarrow> bind_call (DestroyConversationManager (conversation_mgr old)) (\<lambda>_. Returns ())) (\<lambda>_.
            if dcm_thread c \<noteq> None then Crashes Uncaught_Exception
            else Returns (FromValue (), c\<lparr>dcm_instance := Some d, dcm_thread := Some Main_Initializing,
                                          exit_requested := False\<rparr>))))
      | FromError e \<Rightarrow> Returns (FromError (dm_MakeErrorCode dm_kInitializationFailed 0), c))"

text \<open>
  The shutdown is signalled and the main thread joined, which it only is once it has done the steps
  it has left.
\<close>

definition DiagClient_DeInitialize :: "network \<Rightarrow> DiagClient \<Rightarrow> ((unit, ErrorCode) Result \<times> DiagClient) run" where
  "DiagClient_DeInitialize net c =
     (if dcm_instance c = None then Inl Null_Dereference
      else
        case SignalShutdown c of (r, c1) \<Rightarrow>
          bind_run (Main_step net c1) (\<lambda>c2.
          bind_run (Main_step net c2) (\<lambda>c3.
            Inr (r, c3\<lparr>dcm_thread := None\<rparr>))))"

definition DiagClient_GetDiagnosticClientConversation :: "network \<Rightarrow> string \<Rightarrow> DiagClient \<Rightarrow> (nat \<times> DiagClient) call" where
  "DiagClient_GetDiagnosticClientConversation net name c =
     (case dcm_instance c of
        None \<Rightarrow> Crashes Fatal_Error
      | Some d \<Rightarrow>
          bind_call (GetDiagnosticClientConversation net name (conversation_mgr d)) (\<lambda>(a, m).
            Returns (a, c\<lparr>dcm_instance := Some (d\<lparr>conversation_mgr := m\<rparr>)\<rparr>)))"

section \<open>Operations on a conversation, through a reference\<close>

definition on_conversation ::
    "nat \<Rightarrow> (conversation \<Rightarrow> ('r \<times> conversation) call) \<Rightarrow> DiagClient \<Rightarrow> ('r \<times> DiagClient) call" where
  "on_conversation a f c =
     (case dcm_instance c of
        None \<Rightarrow> Crashes Null_Dereference
      | Some d \<Rightarrow>
          (case objects (conversation_mgr d) a of
             None \<Rightarrow> Crashes Use_After_Free
           | Some v \<Rightarrow>
               bind_call (f v) (\<lambda>(r, v').
                 Returns (r, c\<lparr>dcm_instance := Some (d\<lparr>conversation_mgr := (conversation_mgr d)
                   \<lparr>objects := (objects (conversation_mgr d))(a \<mapsto> v')\<rparr>\<rparr>)\<rparr>))))"

definition default_SendVehicleIdentificationRequest :: vd_result where
  "default_SendVehicleIdentificationRequest = FromError kTransmitFailed_VI"

definition DiagClient_SendVehicleIdentificationRequest ::
    "network \<Rightarrow> nat \<Rightarrow> udp_event list \<Rightarrow> udp_event list \<Rightarrow> (nat \<times> udp_event list) list \<Rightarrow>
     VehicleAddrInfoRequest \<Rightarrow> DiagClient \<Rightarrow> (vd_result \<times> DiagClient) call" where
  "DiagClient_SendVehicleIdentificationRequest net now win1 win2 evs r c =
     (case dcm_instance c of
        None \<Rightarrow> Crashes Fatal_Error
      | Some d \<Rightarrow>
          let a = vehicle_discovery_conversation d in
          on_conversation a (\<lambda>v.
            case v of
              VD_Conversation w \<Rightarrow>
                bind_call (VdConversation_SendVehicleIdentificationRequest (snd (snd (net a))) now win1 win2 evs r w)
                  (\<lambda>(res, t, w', rest). Returns (res, VD_Conversation w'))
            | DM_Conversation w \<Rightarrow> Returns (default_SendVehicleIdentificationRequest, v)) c)"

definition DiagClientConversation_Startup :: "network \<Rightarrow> nat \<Rightarrow> DiagClient \<Rightarrow> (unit \<times> DiagClient) call" where
  "DiagClientConversation_Startup net a =
     on_conversation a (\<lambda>v. bind_call (call_of_run (Conversation_Startup (net a) v)) (\<lambda>v'. Returns ((), v')))"

definition DiagClientConversation_Shutdown :: "network \<Rightarrow> nat \<Rightarrow> DiagClient \<Rightarrow> (unit \<times> DiagClient) call" where
  "DiagClientConversation_Shutdown net a =
     on_conversation a (\<lambda>v. bind_call (call_of_run (Conversation_Shutdown (net a) v)) (\<lambda>v'. Returns ((), v')))"

text \<open>
  A discovery conversation has the default operations of the base class
  (\<open>dcm/conversation/conversation.h\<close>), which do nothing.
\<close>

definition default_ConnectToDiagServer :: ConnectResult where
  "default_ConnectToDiagServer = kConnectFailed"

definition default_DisconnectFromDiagServer :: DisconnectResult where
  "default_DisconnectFromDiagServer = kDisconnectFailed"

definition default_SendDiagnosticRequest :: diag_result where
  "default_SendDiagnosticRequest = FromError kDiagRequestSendFailed"

definition DiagClientConversation_ConnectToDiagServer ::
    "network \<Rightarrow> nat \<Rightarrow> nat \<Rightarrow> channel_event list \<Rightarrow> channel_event list \<Rightarrow> (nat \<times> channel_event list) list \<Rightarrow>
     u16 \<Rightarrow> string \<Rightarrow> DiagClient \<Rightarrow> (ConnectResult \<times> DiagClient) call" where
  "DiagClientConversation_ConnectToDiagServer net a now win1 win2 evs target host_ip =
     on_conversation a (\<lambda>v.
       case v of
         DM_Conversation w \<Rightarrow>
           bind_call (ConnectToDiagServer (fst (net a)) now win1 win2 evs target host_ip w)
             (\<lambda>(res, t, w', rest). Returns (res, DM_Conversation w'))
       | VD_Conversation w \<Rightarrow> Returns (default_ConnectToDiagServer, v))"

definition DiagClientConversation_DisconnectFromDiagServer ::
    "network \<Rightarrow> nat \<Rightarrow> DiagClient \<Rightarrow> (DisconnectResult \<times> DiagClient) call" where
  "DiagClientConversation_DisconnectFromDiagServer net a =
     on_conversation a (\<lambda>v.
       case v of
         DM_Conversation w \<Rightarrow>
           (case DisconnectFromDiagServer (fst (net a)) w of (res, w') \<Rightarrow> Returns (res, DM_Conversation w'))
       | VD_Conversation w \<Rightarrow> Returns (default_DisconnectFromDiagServer, v))"

definition DiagClientConversation_SendDiagnosticRequest ::
    "network \<Rightarrow> nat \<Rightarrow> nat \<Rightarrow> channel_event list \<Rightarrow> channel_event list \<Rightarrow> (nat \<times> channel_event list) list \<Rightarrow>
     UdsRequestMessage option \<Rightarrow> DiagClient \<Rightarrow> (diag_result \<times> DiagClient) call" where
  "DiagClientConversation_SendDiagnosticRequest net a now win1 win2 evs message =
     on_conversation a (\<lambda>v.
       case v of
         DM_Conversation w \<Rightarrow>
           bind_call (SendDiagnosticRequest (fst (net a)) now win1 win2 evs message w)
             (\<lambda>(res, t, w', rest). Returns (res, DM_Conversation w'))
       | VD_Conversation w \<Rightarrow> Returns (default_SendDiagnosticRequest, v))"

end
