(* ===== verification/Client_Correct.thy ===== *)
theory Client_Correct
  imports Dcm_Client
begin

text \<open>
  The steps of a client and what every one of them keeps: each live object belongs to one configured
  name, has the type configured for it and is in a state its own step relation reaches, so that what is
  proved of a single conversation holds of every conversation of a client.
\<close>

section \<open>Invariant of the manager\<close>

definition owns :: "ConversationManager \<Rightarrow> string \<Rightarrow> nat \<Rightarrow> bool" where
  "owns m name a \<longleftrightarrow> (\<exists>st. map_of (conversation_map m) name = Some st \<and> conversation st = Some a)"

fun conv_typed :: "network \<Rightarrow> nat \<Rightarrow> conversation_type \<Rightarrow> conversation \<Rightarrow> bool" where
  "conv_typed net a (DM_Type conf) (DM_Conversation w) \<longleftrightarrow> app_reachable (fst (net a)) conf w"
| "conv_typed net a (VD_Type conf) (VD_Conversation w) \<longleftrightarrow> vd_reachable w"
| "conv_typed net a ty c \<longleftrightarrow> False"

definition objects_owned :: "ConversationManager \<Rightarrow> bool" where
  "objects_owned m \<longleftrightarrow>
     umap_distinct (conversation_map m) \<and>
     (\<forall>a. objects m a \<noteq> None \<longleftrightarrow> (\<exists>name. owns m name a)) \<and>
     (\<forall>name name' a. owns m name a \<longrightarrow> owns m name' a \<longrightarrow> name = name') \<and>
     (\<forall>a. objects m a \<noteq> None \<longrightarrow> a < next_address m)"

definition objects_typed :: "network \<Rightarrow> ConversationManager \<Rightarrow> bool" where
  "objects_typed net m \<longleftrightarrow>
     (\<forall>name st a c. map_of (conversation_map m) name = Some st \<longrightarrow> conversation st = Some a \<longrightarrow>
        objects m a = Some c \<longrightarrow> conv_typed net a (conversation_type st) c)"

definition manager_ok :: "network \<Rightarrow> ConversationManager \<Rightarrow> bool" where
  "manager_ok net m \<longleftrightarrow> objects_owned m \<and> objects_typed net m"

lemma owns_object: "objects_owned m \<Longrightarrow> owns m name a \<Longrightarrow> \<exists>c. objects m a = Some c"
  by (auto simp: objects_owned_def)

lemma object_owned:
  assumes "objects_owned m" and "objects m a = Some c"
  shows "\<exists>name. owns m name a"
proof -
  have "objects m a \<noteq> None" using assms(2) by simp
  with assms(1) show ?thesis unfolding objects_owned_def by blast
qed

lemma owner_unique: "objects_owned m \<Longrightarrow> owns m name a \<Longrightarrow> owns m name' a \<Longrightarrow> name = name'"
  unfolding objects_owned_def by blast

lemma owns_live: "objects_owned m \<Longrightarrow> owns m name a \<Longrightarrow> a < next_address m"
  unfolding objects_owned_def by blast

section \<open>Operations on objects\<close>

text \<open>An operation that works on objects in place changes nothing else of the manager.\<close>

definition same_shape :: "ConversationManager \<Rightarrow> ConversationManager \<Rightarrow> bool" where
  "same_shape m m' \<longleftrightarrow> conversation_map m' = conversation_map m \<and> next_address m' = next_address m \<and>
     (\<forall>a. objects m' a = None \<longleftrightarrow> objects m a = None)"

lemma same_shape_refl [simp]: "same_shape m m"
  by (simp add: same_shape_def)

lemma same_shape_trans: "same_shape m1 m2 \<Longrightarrow> same_shape m2 m3 \<Longrightarrow> same_shape m1 m3"
  by (auto simp: same_shape_def)

lemma same_shape_owns: "same_shape m m' \<Longrightarrow> owns m' = owns m"
  by (simp add: same_shape_def owns_def fun_eq_iff)

lemma same_shape_owned: "same_shape m m' \<Longrightarrow> objects_owned m' = objects_owned m"
  unfolding objects_owned_def by (simp only: same_shape_owns) (simp add: same_shape_def del: not_None_eq)

lemma replace_object_shape:
  "objects m a = Some c \<Longrightarrow> same_shape m (m\<lparr>objects := (objects m)(a \<mapsto> c')\<rparr>)"
  by (simp add: same_shape_def)

lemma replace_object_ok:
  assumes ok: "manager_ok net m" and a: "objects m a = Some c"
    and keep: "\<And>ty. conv_typed net a ty c \<Longrightarrow> conv_typed net a ty c'"
  shows "manager_ok net (m\<lparr>objects := (objects m)(a \<mapsto> c')\<rparr>)"
  using assms same_shape_owned [OF replace_object_shape [of m a c c']]
  by (auto simp: manager_ok_def objects_typed_def)

lemma on_object_keeps:
  assumes "on_object a f m = Inr m'"
  shows "same_shape m m'"
    and "manager_ok net m \<Longrightarrow>
      (\<And>ty c c'. conv_typed net a ty c \<Longrightarrow> f c = Inr c' \<Longrightarrow> conv_typed net a ty c') \<Longrightarrow> manager_ok net m'"
proof -
  from assms obtain c c' where c: "objects m a = Some c" "f c = Inr c'" "m' = m\<lparr>objects := (objects m)(a \<mapsto> c')\<rparr>"
    by (auto simp: on_object_def bind_run_Inr_iff split: option.splits)
  then show "same_shape m m'" by (simp add: replace_object_shape)
  show "manager_ok net m'" if "manager_ok net m"
      "\<And>ty c c'. conv_typed net a ty c \<Longrightarrow> f c = Inr c' \<Longrightarrow> conv_typed net a ty c'"
    unfolding c(3) by (rule replace_object_ok [OF that(1) c(1)]) (rule that(2) [OF _ c(2)])
qed

lemma app_reachable_step: "app_reachable io conf w \<Longrightarrow> app_step io w w' \<Longrightarrow> app_reachable io conf w'"
  by (auto simp: app_reachable_def intro: rtranclp.rtrancl_into_rtrancl)

lemma conv_typed_DM: "conv_typed net a ty (DM_Conversation w) \<longleftrightarrow> (\<exists>conf. ty = DM_Type conf \<and> app_reachable (fst (net a)) conf w)"
  by (cases ty) auto

lemma conv_typed_VD: "conv_typed net a ty (VD_Conversation w) \<longleftrightarrow> (\<exists>conf. ty = VD_Type conf) \<and> vd_reachable w"
  by (cases ty) auto

lemmas conv_typed_steps =
  app_reachable_step [OF _ app_step.startup] app_reachable_step [OF _ app_step.shutdown]
  vd_reachable.further [OF _ vd_app_step.startup] vd_reachable.further [OF _ vd_app_step.shutdown]

lemma Conversation_Startup_typed:
  "conv_typed net a ty c \<Longrightarrow> Conversation_Startup (net a) c = Inr c' \<Longrightarrow> conv_typed net a ty c'"
  by (cases "net a"; cases c)
     (auto simp: Conversation_Startup_def bind_run_Inr_iff conv_typed_DM conv_typed_VD
       intro: conv_typed_steps)

lemma Conversation_Shutdown_typed:
  "conv_typed net a ty c \<Longrightarrow> Conversation_Shutdown (net a) c = Inr c' \<Longrightarrow> conv_typed net a ty c'"
  by (cases "net a"; cases c)
     (auto simp: Conversation_Shutdown_def bind_run_Inr_iff conv_typed_DM conv_typed_VD
       intro: conv_typed_steps)

lemma shutdown_if_active_typed:
  "conv_typed net a ty c \<Longrightarrow> shutdown_if_active (net a) c = Inr c' \<Longrightarrow> conv_typed net a ty c'"
  by (auto simp: shutdown_if_active_def Conversation_Shutdown_typed split: if_splits)

lemma shutdown_all_keeps:
  assumes "shutdown_all net sts m = Inr m'"
  shows "same_shape m m'" and "manager_ok net m \<Longrightarrow> manager_ok net m'"
  using assms
proof (induction sts arbitrary: m)
  case (Cons nst sts)
  obtain name st where n: "nst = (name, st)" by (cases nst)
  { case 1
    with n Cons.IH(1) show ?case
      by (auto simp: bind_run_Inr_iff split: option.splits
          intro: same_shape_trans dest: on_object_keeps(1)) }
  { case 2
    with n Cons.IH(2) show ?case
      by (auto simp: bind_run_Inr_iff split: option.splits
          dest: on_object_keeps(2) intro: shutdown_if_active_typed) }
qed simp_all


section \<open>Getting a conversation\<close>

lemma umap_distinct_update: "umap_distinct m \<Longrightarrow> umap_distinct (AList.update k v m)"
  by (simp add: umap_distinct_def distinct_update)

lemma owns_update:
  "owns (m\<lparr>objects := ob, next_address := n, conversation_map := AList.update name (st\<lparr>conversation := Some a\<rparr>) (conversation_map m)\<rparr>) name' a'
     \<longleftrightarrow> (if name' = name then a' = a else owns m name' a')"
  by (auto simp: owns_def update_conv')

text \<open>What a call that returns has done, and when it does not return.\<close>

definition running_reader :: "ConversationManager \<Rightarrow> nat \<Rightarrow> bool" where
  "running_reader m a \<longleftrightarrow> (\<exists>w. objects m a = Some (DM_Conversation w) \<and> reader_started w)"

definition after_get :: "string \<Rightarrow> ConversationStorage \<Rightarrow> ConversationManager \<Rightarrow> ConversationManager" where
  "after_get name st m =
     m\<lparr>objects := (\<lambda>a. if conversation st = Some a then None
                       else if a = next_address m then Some (conversation_of (conversation_type st)) else objects m a),
       next_address := next_address m + 1,
       conversation_map := AList.update name (st\<lparr>conversation := Some (next_address m)\<rparr>) (conversation_map m)\<rparr>"

lemma Destroy_eq:
  "DestroyConversation a m =
     (if running_reader m a then Blocks else Returns (m\<lparr>objects := (objects m)(a := None)\<rparr>))"
  by (auto simp: DestroyConversation_def running_reader_def split: option.splits conversation.splits)

text \<open>A conversation can be created if the socket that belongs to it can read its local address.\<close>

definition local_address_ok :: "asio_io \<times> asio_udp \<times> asio_udp \<Rightarrow> conversation_type \<Rightarrow> bool" where
  "local_address_ok net ty =
     (case net of (io, bc_io, uc_io) \<Rightarrow>
        case ty of
          DM_Type c \<Rightarrow> asio_address io (conf_tcp_address c)
        | VD_Type c \<Rightarrow> udp_address bc_io (conf_udp_address c) \<and> udp_address uc_io (conf_udp_address c))"

lemma CreateConversation_eq:
  "CreateConversation net ty = (if local_address_ok net ty then Inr (conversation_of ty) else Inl Uncaught_Exception)"
  by (auto simp: CreateConversation_def local_address_ok_def CreateTcpConnection_eq CreateUdpConnection_eq
      split: conversation_type.split prod.split)

lemma Get_eq:
  assumes ok: "objects_owned m" and st: "map_of (conversation_map m) name = Some st"
  shows "GetDiagnosticClientConversation net name m =
    (if \<not> local_address_ok (net (next_address m)) (conversation_type st) then Crashes Uncaught_Exception
     else if \<exists>old. conversation st = Some old \<and> running_reader m old then Blocks
     else Returns (next_address m, after_get name st m))"
proof (cases "conversation st")
  case None
  then show ?thesis 
    by (auto simp: GetDiagnosticClientConversation_def CreateConversation_eq st after_get_def fun_eq_iff Let_def)
next
  case (Some old)
  with st have "owns m name old" by (auto simp: owns_def)
  then have "old \<noteq> next_address m" using owns_live [OF ok] by blast
  with Some show ?thesis
    by (auto simp: GetDiagnosticClientConversation_def CreateConversation_eq Let_def st after_get_def Destroy_eq running_reader_def fun_eq_iff)
qed

lemma owns_after_get:
  "owns (after_get name st m) name' a \<longleftrightarrow> (if name' = name then a = next_address m else owns m name' a)"
  by (simp add: after_get_def owns_update)

lemma objects_after_get:
  "objects (after_get name st m) a =
     (if conversation st = Some a then None
      else if a = next_address m then Some (conversation_of (conversation_type st)) else objects m a)"
  by (simp add: after_get_def)

lemma after_get_owned:
  assumes ok: "objects_owned m" and st: "map_of (conversation_map m) name = Some st"
  shows "objects_owned (after_get name st m)"
proof -
  note fresh = owns_live [OF ok]
  have old: "owns m name a \<longleftrightarrow> conversation st = Some a" for a using st by (simp add: owns_def)
  have live: "objects m a \<noteq> None \<longleftrightarrow> (\<exists>name'. owns m name' a)" for a using ok by (simp add: objects_owned_def)
  have "objects (after_get name st m) a \<noteq> None \<longleftrightarrow> (\<exists>name'. owns (after_get name st m) name' a)" for a
  proof (cases "conversation st = Some a")
    case True
    then have "owns m name a" by (simp add: old)
    with fresh owner_unique [OF ok] True show ?thesis
      by (auto simp: owns_after_get) (auto simp: after_get_def)
  next
    case False
    have "(\<exists>name'. owns (after_get name st m) name' a) \<longleftrightarrow> a = next_address m \<or> (\<exists>name'. owns m name' a)"
      using False by (simp add: owns_after_get) (metis old)
    with live [of a] False show ?thesis by (auto simp: objects_after_get simp del: not_None_eq)
  qed
  moreover have "umap_distinct (conversation_map (after_get name st m))"
    using ok by (simp add: objects_owned_def after_get_def umap_distinct_update)
  moreover have "owns (after_get name st m) n1 a \<Longrightarrow> owns (after_get name st m) n2 a \<Longrightarrow> n1 = n2" for n1 n2 a
    using owner_unique [OF ok, of n1 a n2] fresh by (auto simp: owns_after_get split: if_splits)
  moreover have "objects (after_get name st m) a \<noteq> None \<Longrightarrow> a < next_address (after_get name st m)" for a
    using ok by (auto simp: after_get_def objects_owned_def less_Suc_eq split: if_splits)
  ultimately show ?thesis unfolding objects_owned_def by blast
qed

lemma conversation_of_typed: "conv_typed net a ty (conversation_of ty)"
  by (cases ty) (simp_all add: conversation_of_def app_reachable_def vd_reachable.start)

lemma after_get_ok:
  assumes ok: "manager_ok net m" and st: "map_of (conversation_map m) name = Some st"
  shows "manager_ok net (after_get name st m)"
proof -
  have owned: "objects_owned m" and ty: "objects_typed net m" using ok by (simp_all add: manager_ok_def)
  have "conv_typed net a (conversation_type st') c"
    if s: "map_of (conversation_map (after_get name st m)) name' = Some st'" "conversation st' = Some a"
      "objects (after_get name st m) a = Some c" for name' st' a c
  proof (cases "name' = name")
    case True
    with s show ?thesis by (auto simp: after_get_def update_conv' conversation_of_typed split: if_splits)
  next
    case False
    with s have o: "map_of (conversation_map m) name' = Some st'" by (simp add: after_get_def update_conv')
    with s(2) have "owns m name' a" by (auto simp: owns_def)
    then have "a \<noteq> next_address m" using owns_live [OF owned] by blast
    with s(3) have "objects m a = Some c" by (auto simp: after_get_def split: if_splits)
    with o s(2) ty show ?thesis by (simp add: objects_typed_def)
  qed
  then show ?thesis using after_get_owned [OF owned st] unfolding manager_ok_def objects_typed_def by blast
qed

text \<open>The types of the conversations never change.\<close>

definition type_of :: "ConversationManager \<Rightarrow> string \<Rightarrow> conversation_type option" where
  "type_of m name = map_option conversation_type (map_of (conversation_map m) name)"

lemma type_of_after_get: "map_of (conversation_map m) name = Some st \<Longrightarrow> type_of (after_get name st m) = type_of m"
  by (auto simp: type_of_def after_get_def update_conv' fun_eq_iff)

lemma type_of_same_shape: "same_shape m m' \<Longrightarrow> type_of m' = type_of m"
  by (simp add: same_shape_def type_of_def fun_eq_iff)

lemma owned_type:
  "manager_ok net m \<Longrightarrow> owns m name a \<Longrightarrow> objects m a = Some c \<Longrightarrow>
     \<exists>ty. type_of m name = Some ty \<and> conv_typed net a ty c"
  by (auto simp: manager_ok_def objects_typed_def owns_def type_of_def)


section \<open>Construction\<close>

text \<open>The configuration of a manager: the discovery conversation, then the list as far as it is counted.\<close>

definition configured :: "DcmClientConfig \<Rightarrow> (string \<times> ConversationStorage) list" where
  "configured config =
     (kVdConversationName, vd_storage config) #
     map (\<lambda>c. (conversation_name c, dm_storage c)) (take (unat (num_of_conversation config)) (conversations config))"

lemma map_run_counted:
  "map_run (\<lambda>i. vector_at xs i) [0 ..< n] = (if n \<le> length xs then Inr (take n xs) else Inl Vector_Out_Of_Bounds)"
proof -
  have "map_run (\<lambda>i. vector_at xs i) [k ..< n] =
      (if n \<le> length xs then Inr (take (n - k) (drop k xs)) else Inl Vector_Out_Of_Bounds)" if "k \<le> n" "k \<le> length xs" for k
    using that
  proof (induction "n - k" arbitrary: k)
    case (Suc d)
    then have k: "[k ..< n] = k # [Suc k ..< n]" "d = n - Suc k" "Suc k \<le> n" by (simp_all add: upt_conv_Cons)
    show ?case
    proof (cases "k < length xs")
      case True
      then have "take (n - k) (drop k xs) = xs ! k # take (n - Suc k) (drop (Suc k) xs)"
        using Suc(2) k(3) by (simp add: Cons_nth_drop_Suc [symmetric] take_Cons' Suc_diff_Suc)
      with Suc(1) [OF k(2,3)] True show ?thesis by (simp add: k(1) vector_at_def)
    qed (use k in \<open>simp add: vector_at_def\<close>)
  qed simp
  from this [of 0] show ?thesis by simp
qed

lemma StoreConversationConfig_eq:
  "StoreConversationConfig config m =
     (if unat (num_of_conversation config) \<le> length (conversations config)
      then Inr (std_unordered_map.emplace_all (configured config) m) else Inl Vector_Out_Of_Bounds)"
  by (simp add: StoreConversationConfig_def map_run_counted configured_def std_unordered_map.emplace_all_def fold_map comp_def)

lemma conversation_configured: "map_of (configured config) name = Some st \<Longrightarrow> conversation st = None"
  by (auto simp: configured_def vd_storage_def dm_storage_def dest!: map_of_SomeD split: if_splits)

lemma new_ConversationManager_ok:
  assumes "new_ConversationManager base config = Inr m"
  shows "objects_owned m" and "manager_ok net m" and "next_address m = base"
    and "map_of (conversation_map m) = map_of (configured config)"
proof -
  from assms have m: "conversation_map m = std_unordered_map.emplace_all (configured config) []" "objects m = (\<lambda>a. None)"
    and n: "next_address m = base"
    by (auto simp: new_ConversationManager_def StoreConversationConfig_eq bind_run_Inr_iff split: if_splits)
  have d: "umap_distinct (conversation_map m)"
    unfolding m(1) by (rule std_unordered_map.ok_emplace_all) (simp add: umap_distinct_def)
  show l: "map_of (conversation_map m) = map_of (configured config)"
    unfolding m(1) by (rule std_unordered_map.lookup_emplace_all_empty) (simp_all add: umap_distinct_def)
  then have "\<not> owns m name a" for name a by (auto simp: owns_def dest: conversation_configured)
  with d m show "objects_owned m" by (simp add: objects_owned_def)
  then show "manager_ok net m" using m(2) by (simp add: manager_ok_def objects_typed_def)
  show "next_address m = base" by (rule n)
qed

text \<open>
  In a client the reserved name has the discovery conversation and every other a diagnostic one; the
  client's own reference is to an object the reserved name has or had.
\<close>

definition dcm_ok :: "network \<Rightarrow> DCMClient \<Rightarrow> bool" where
  "dcm_ok net d \<longleftrightarrow> manager_ok net (conversation_mgr d) \<and>
     (\<forall>name ty. type_of (conversation_mgr d) name = Some ty \<longrightarrow> (name = kVdConversationName \<longleftrightarrow> (\<exists>conf. ty = VD_Type conf))) \<and>
     type_of (conversation_mgr d) kVdConversationName \<noteq> None \<and>
     vehicle_discovery_conversation d < next_address (conversation_mgr d) \<and>
     (\<forall>name. owns (conversation_mgr d) name (vehicle_discovery_conversation d) \<longrightarrow> name = kVdConversationName)"

lemma dcm_okD:
  assumes "dcm_ok net d"
  shows "manager_ok net (conversation_mgr d)" "objects_owned (conversation_mgr d)"
  using assms by (simp_all add: dcm_ok_def manager_ok_def)

lemma configured_types:
  "map_of (configured config) name = Some st \<Longrightarrow> name = kVdConversationName \<longleftrightarrow> (\<exists>conf. conversation_type st = VD_Type conf)"
  by (auto simp: configured_def vd_storage_def dm_storage_def dest!: map_of_SomeD split: if_splits)

lemma new_DCMClient_ok:
  assumes "new_DCMClient net base config = Returns d"
  shows "dcm_ok net d" and "vehicle_discovery_conversation d = base" and "next_address (conversation_mgr d) = Suc base"
    and "objects (conversation_mgr d) a \<noteq> None \<longleftrightarrow> a = base"
    and "owns (conversation_mgr d) name a \<longleftrightarrow> name = kVdConversationName \<and> a = base"
proof -
  from assms obtain m a' m' where m: "new_ConversationManager base config = Inr m"
    and g: "GetDiagnosticClientConversation net kVdConversationName m = Returns (a', m')"
    and d: "d = \<lparr>conversation_mgr = m', vehicle_discovery_conversation = a'\<rparr>"
    by (auto simp: new_DCMClient_def bind_call_Returns_iff call_of_run_Returns_iff)
  note n = new_ConversationManager_ok [OF m]
  have st: "map_of (conversation_map m) kVdConversationName = Some (vd_storage config)"
    by (simp add: n(4) configured_def)
  have no: "conversation (vd_storage config) = None" by (simp add: vd_storage_def)
  from g no have m': "a' = base" "m' = after_get kVdConversationName (vd_storage config) m"
    by (simp_all add: Get_eq [OF n(1) st] n(3) split: if_splits)
  have nobody: "\<not> owns m name a" for name a by (auto simp: owns_def n(4) dest: conversation_configured)
  show "owns (conversation_mgr d) name a \<longleftrightarrow> name = kVdConversationName \<and> a = base" for name a
    by (simp add: d m' owns_after_get n(3) nobody)
  moreover have "type_of m' = map_option conversation_type \<circ> map_of (configured config)"
    by (simp add: m' type_of_after_get [OF st] type_of_def n(4) fun_eq_iff)
  moreover have "manager_ok net m'" unfolding m' by (rule after_get_ok [OF n(2) st])
  moreover have nx: "next_address m' = Suc base" by (simp add: m' after_get_def n(3))
  moreover have "map_of (configured config) kVdConversationName = Some (vd_storage config)" by (simp add: configured_def)
  moreover have "\<exists>conf. conversation_type (vd_storage config) = VD_Type conf" by (simp add: vd_storage_def)
  ultimately show "dcm_ok net d"
    by (auto simp: dcm_ok_def d m'(1) configured_types)
  show "vehicle_discovery_conversation d = base" "next_address (conversation_mgr d) = Suc base"
    using nx by (simp_all add: d m'(1))
  have "objects m a = None" using n(1) nobody by (auto simp: objects_owned_def simp del: not_None_eq)
  then show "objects (conversation_mgr d) a \<noteq> None \<longleftrightarrow> a = base"
    by (simp add: d m' objects_after_get no n(3))
qed

end
