(* ===== verification/Client_Steps.thy ===== *)
theory Client_Steps
  imports Client_Correct
begin

text \<open>
  The client over its lifetime: the calls of the application, the main thread and the threads that
  receive, as a labelled step relation, and how long a handle on a conversation stays valid.
\<close>

section \<open>Steps\<close>

text \<open>What the reader thread of a diagnostic and the io context of a discovery conversation do.\<close>

definition reader_step :: "network \<Rightarrow> nat \<Rightarrow> channel_event \<Rightarrow> DiagClient \<Rightarrow> (unit \<times> DiagClient) call" where
  "reader_step net a e =
     on_conversation a (\<lambda>v. case v of
         DM_Conversation w \<Rightarrow> bind_call (call_of_run (dm_step (fst (net a)) e w)) (\<lambda>w'. Returns ((), DM_Conversation w'))
       | VD_Conversation w \<Rightarrow> Returns ((), v))"

definition io_context_step :: "nat \<Rightarrow> udp_event \<Rightarrow> DiagClient \<Rightarrow> (unit \<times> DiagClient) call" where
  "io_context_step a e =
     on_conversation a (\<lambda>v. case v of
         VD_Conversation w \<Rightarrow> bind_call (call_of_run (vd_step e w)) (\<lambda>w'. Returns ((), VD_Conversation w'))
       | DM_Conversation w \<Rightarrow> Returns ((), v))"

datatype client_label = Initialised | Got string | Worked

inductive client_step ::
    "network \<Rightarrow> 'tree boost_tree \<Rightarrow> (string \<Rightarrow> 'tree option) \<Rightarrow> string \<Rightarrow> client_label \<Rightarrow> DiagClient \<Rightarrow> DiagClient \<Rightarrow> bool"
  for net b read_json path where
  initialised: "DiagClient_Initialize net b read_json path c = Returns (FromValue (), c') \<Longrightarrow>
    client_step net b read_json path Initialised c c'"
| unreadable: "DiagClient_Initialize net b read_json path c = Returns (FromError e, c') \<Longrightarrow>
    client_step net b read_json path Worked c c'"
| deinitialised: "DiagClient_DeInitialize net c = Inr (r, c') \<Longrightarrow> client_step net b read_json path Worked c c'"
| main_thread: "Main_step net c = Inr c' \<Longrightarrow> client_step net b read_json path Worked c c'"
| got: "DiagClient_GetDiagnosticClientConversation net name c = Returns (a, c') \<Longrightarrow>
    client_step net b read_json path (Got name) c c'"
| identified: "DiagClient_SendVehicleIdentificationRequest net now uwin1 uwin2 uevs request c = Returns (res, c') \<Longrightarrow>
    client_step net b read_json path Worked c c'"
| started: "DiagClientConversation_Startup net a c = Returns (u, c') \<Longrightarrow> client_step net b read_json path Worked c c'"
| stopped: "DiagClientConversation_Shutdown net a c = Returns (u, c') \<Longrightarrow> client_step net b read_json path Worked c c'"
| connected: "DiagClientConversation_ConnectToDiagServer net a now win1 win2 evs target ip c = Returns (cr, c') \<Longrightarrow>
    reader_only win1 win2 evs \<Longrightarrow> client_step net b read_json path Worked c c'"
| disconnected: "DiagClientConversation_DisconnectFromDiagServer net a c = Returns (dr, c') \<Longrightarrow>
    client_step net b read_json path Worked c c'"
| requested: "DiagClientConversation_SendDiagnosticRequest net a now win1 win2 evs message c = Returns (sr, c') \<Longrightarrow>
    reader_only win1 win2 evs \<Longrightarrow> client_step net b read_json path Worked c c'"
| reader: "reader_step net a ev c = Returns (u, c') \<Longrightarrow> by_reader ev \<Longrightarrow> client_step net b read_json path Worked c c'"
| io_context: "io_context_step a uev c = Returns (u, c') \<Longrightarrow> client_step net b read_json path Worked c c'"

inductive_cases client_stepE: "client_step net b read_json path l c c'"

inductive client_run ::
    "network \<Rightarrow> 'tree boost_tree \<Rightarrow> (string \<Rightarrow> 'tree option) \<Rightarrow> string \<Rightarrow> client_label list \<Rightarrow> DiagClient \<Rightarrow> DiagClient \<Rightarrow> bool"
  for net b read_json path where
  finished: "client_run net b read_json path [] c c"
| further: "client_step net b read_json path l c c1 \<Longrightarrow> client_run net b read_json path ls c1 c2 \<Longrightarrow>
    client_run net b read_json path (l # ls) c c2"

definition client_reachable ::
    "network \<Rightarrow> 'tree boost_tree \<Rightarrow> (string \<Rightarrow> 'tree option) \<Rightarrow> string \<Rightarrow> DiagClient \<Rightarrow> bool" where
  "client_reachable net b read_json path c \<longleftrightarrow> (\<exists>ls. client_run net b read_json path ls new_DiagClient c)"

section \<open>What the steps keep\<close>

definition client_ok :: "network \<Rightarrow> DiagClient \<Rightarrow> bool" where
  "client_ok net c \<longleftrightarrow> (case dcm_instance c of None \<Rightarrow> dcm_thread c = None | Some d \<Rightarrow> dcm_ok net d)"

lemma client_okD: "client_ok net c \<Longrightarrow> dcm_instance c = Some d \<Longrightarrow> dcm_ok net d"
  by (simp add: client_ok_def)

text \<open>All steps but two work in place: the same objects belong to the same names afterwards.\<close>

definition in_place :: "DiagClient \<Rightarrow> DiagClient \<Rightarrow> bool" where
  "in_place c c' \<longleftrightarrow>
     rel_option (\<lambda>d d'. same_shape (conversation_mgr d) (conversation_mgr d') \<and>
       vehicle_discovery_conversation d' = vehicle_discovery_conversation d) (dcm_instance c) (dcm_instance c')"

lemma in_place_same: "dcm_instance c' = dcm_instance c \<Longrightarrow> in_place c c'"
  by (simp add: in_place_def option.rel_refl)

lemma dcm_ok_shape:
  "dcm_ok net d \<Longrightarrow> same_shape (conversation_mgr d) (conversation_mgr d') \<Longrightarrow> manager_ok net (conversation_mgr d') \<Longrightarrow>
   vehicle_discovery_conversation d' = vehicle_discovery_conversation d \<Longrightarrow> dcm_ok net d'"
  by (simp add: dcm_ok_def same_shape_owns type_of_same_shape) (simp add: same_shape_def)

lemma on_conversation_keeps:
  assumes "on_conversation a f c = Returns (r, c')" and ok: "client_ok net c"
    and f: "\<And>ty v r v'. conv_typed net a ty v \<Longrightarrow> f v = Returns (r, v') \<Longrightarrow> conv_typed net a ty v'"
  shows "in_place c c' \<and> client_ok net c'"
proof -
  from assms(1) obtain d v v' where d: "dcm_instance c = Some d" and v: "objects (conversation_mgr d) a = Some v"
    and fv: "f v = Returns (r, v')"
    and c': "c' = c\<lparr>dcm_instance := Some (d\<lparr>conversation_mgr := (conversation_mgr d)
                   \<lparr>objects := (objects (conversation_mgr d))(a \<mapsto> v')\<rparr>\<rparr>)\<rparr>"
    by (auto simp: on_conversation_def bind_call_Returns_iff split: option.splits)
  let ?m = "(conversation_mgr d)\<lparr>objects := (objects (conversation_mgr d))(a \<mapsto> v')\<rparr>"
  have d_ok: "dcm_ok net d" using ok d by (rule client_okD)
  have s: "same_shape (conversation_mgr d) ?m" using v by (rule replace_object_shape)
  have "manager_ok net ?m"
    by (rule replace_object_ok [OF dcm_okD(1) [OF d_ok] v]) (rule f [OF _ fv])
  with s d_ok have "dcm_ok net (d\<lparr>conversation_mgr := ?m\<rparr>)" by (auto intro: dcm_ok_shape)
  with s show ?thesis by (simp add: in_place_def client_ok_def c' d)
qed

lemma on_object_dcm:
  assumes "on_object a f (conversation_mgr d) = Inr m" and "dcm_ok net d"
    and "\<And>ty c c'. conv_typed net a ty c \<Longrightarrow> f c = Inr c' \<Longrightarrow> conv_typed net a ty c'"
  shows "dcm_ok net (d\<lparr>conversation_mgr := m\<rparr>)" and "same_shape (conversation_mgr d) m"
proof -
  show s: "same_shape (conversation_mgr d) m" by (rule on_object_keeps [OF assms(1)])
  have "manager_ok net m"
    by (rule on_object_keeps(2) [OF assms(1)]) (use assms(2,3) in \<open>auto simp: dcm_ok_def\<close>)
  with s assms(2) show "dcm_ok net (d\<lparr>conversation_mgr := m\<rparr>)" by (auto intro: dcm_ok_shape)
qed

lemmas uds_manager_defs = UdsTransportProtocolManager_Startup_def UdsTransportProtocolManager_Run_def
  UdsTransportProtocolManager_Shutdown_def ConversationManager_Startup_def DCMClient_Run_def Let_def

lemma DCMClient_Initialize_keeps:
  assumes "DCMClient_Initialize net d = Inr d'" and "dcm_ok net d"
  shows "dcm_ok net d' \<and> same_shape (conversation_mgr d) (conversation_mgr d') \<and>
    vehicle_discovery_conversation d' = vehicle_discovery_conversation d"
proof -
  from assms(1) obtain m where
      m: "on_object (vehicle_discovery_conversation d) (Conversation_Startup (net (vehicle_discovery_conversation d)))
            (conversation_mgr d) = Inr m" and d': "d' = d\<lparr>conversation_mgr := m\<rparr>"
    by (auto simp: DCMClient_Initialize_def uds_manager_defs bind_run_Inr_iff)
  from on_object_dcm [OF m assms(2) Conversation_Startup_typed] show ?thesis by (simp add: d')
qed

lemma DCMClient_Shutdown_keeps:
  assumes "DCMClient_Shutdown net d = Inr d'" and "dcm_ok net d"
  shows "dcm_ok net d' \<and> same_shape (conversation_mgr d) (conversation_mgr d') \<and>
    vehicle_discovery_conversation d' = vehicle_discovery_conversation d"
proof -
  from assms(1) obtain m m' where
      m: "on_object (vehicle_discovery_conversation d) (Conversation_Shutdown (net (vehicle_discovery_conversation d)))
            (conversation_mgr d) = Inr m"
    and m': "shutdown_all net (conversation_map m) m = Inr m'" and d': "d' = d\<lparr>conversation_mgr := m'\<rparr>"
    by (auto simp: DCMClient_Shutdown_def uds_manager_defs ConversationManager_Shutdown_def bind_run_Inr_iff)
  note 1 = on_object_dcm [OF m assms(2) Conversation_Shutdown_typed]
  note s = same_shape_trans [OF 1(2) shutdown_all_keeps(1) [OF m']]
  have "manager_ok net m'"
    using shutdown_all_keeps(2) [OF m'] dcm_okD(1) [OF 1(1)] by simp
  with s assms(2) show ?thesis by (auto simp: d' intro: dcm_ok_shape)
qed


lemma in_place_mgr:
  "dcm_instance c = Some d \<Longrightarrow> dcm_instance c' = Some d' \<Longrightarrow> same_shape (conversation_mgr d) (conversation_mgr d') \<Longrightarrow>
   vehicle_discovery_conversation d' = vehicle_discovery_conversation d \<Longrightarrow> in_place c c'"
  by (simp add: in_place_def)

lemma in_place_trans: "in_place c1 c2 \<Longrightarrow> in_place c2 c3 \<Longrightarrow> in_place c1 c3"
  by (auto simp: in_place_def option_rel_Some1 option_rel_Some2 elim!: option.rel_cases intro: same_shape_trans)

lemma Main_step_keeps:
  assumes "Main_step net c = Inr c'" and "client_ok net c"
  shows "in_place c c' \<and> client_ok net c'"
  using assms(1)
proof (cases "dcm_instance c")
  case (Some d)
  have d_ok: "dcm_ok net d" using assms(2) Some by (rule client_okD)
  show ?thesis
    using assms Some DCMClient_Initialize_keeps [OF _ d_ok] DCMClient_Shutdown_keeps [OF _ d_ok]
    by (auto simp: Main_step_def bind_run_Inr_iff client_ok_def uds_manager_defs in_place_same intro: in_place_mgr
        split: option.splits main_phase.splits if_splits)
qed (use assms in \<open>auto simp: Main_step_def in_place_same\<close>)

lemma DeInitialize_keeps:
  assumes "DiagClient_DeInitialize net c = Inr (r, c')" and "client_ok net c"
  shows "in_place c c' \<and> client_ok net c'"
proof -
  let ?c1 = "c\<lparr>exit_requested := True\<rparr>"
  from assms(1) obtain c2 c3 where 2: "Main_step net ?c1 = Inr c2" and 3: "Main_step net c2 = Inr c3"
    and c': "c' = c3\<lparr>dcm_thread := None\<rparr>"
    by (auto simp: DiagClient_DeInitialize_def SignalShutdown_def bind_run_Inr_iff split: if_splits)
  have 1: "client_ok net ?c1" using assms(2) by (cases "dcm_instance c") (simp_all add: client_ok_def)
  note k2 = Main_step_keeps [OF 2 1] note k3 = Main_step_keeps [OF 3 conjunct2 [OF k2]]
  have "in_place c c3" using k2 k3 by (metis in_place_trans in_place_same DiagClient.select_convs(1) DiagClient.surjective DiagClient.update_convs(3))
  then have "in_place c c'" by (simp add: c' in_place_def)
  moreover have "client_ok net c'" using k3 by (auto simp: c' client_ok_def split: option.splits)
  ultimately show ?thesis by simp
qed

text \<open>The calls on one conversation keep it in a reachable state of its own step relation.\<close>

lemmas typed_call_simps = conv_typed_DM conv_typed_VD bind_call_Returns_iff call_of_run_Returns_iff

lemmas app_typed = app_reachable_step [OF _ app_step.connect] app_reachable_step [OF _ app_step.send]
  app_reachable_step [OF _ app_step.background] vd_reachable.further [OF _ vd_app_step.request]
  vd_reachable.further [OF _ vd_app_step.io_context]

lemma app_reachable_disconnect:
  "app_reachable io conf w \<Longrightarrow> DisconnectFromDiagServer io w = (r, w') \<Longrightarrow> app_reachable io conf w'"
  using app_reachable_step [OF _ app_step.disconnect, of io conf w] by simp

lemma worked_keeps:
  assumes "client_step net b read_json path l c c'" and "l = Worked" and ok: "client_ok net c"
  shows "in_place c c' \<and> client_ok net c'"
  using assms(1,2)
proof cases
  case (unreadable e)
  then have "c' = c"
    by (auto simp: DiagClient_Initialize_def bind_call_Returns_iff split: Result.splits if_splits)
  with ok show ?thesis by (simp add: in_place_same)
next
  case (deinitialised r)
  with ok show ?thesis by (intro DeInitialize_keeps)
next
  case main_thread
  with ok show ?thesis by (intro Main_step_keeps)
next
  case (identified now uwin1 uwin2 uevs request res)
  then obtain d where d: "dcm_instance c = Some d"
    by (auto simp: DiagClient_SendVehicleIdentificationRequest_def split: option.splits)
  from identified have "on_conversation (vehicle_discovery_conversation d) (\<lambda>v.
            case v of
              VD_Conversation w \<Rightarrow>
                bind_call (VdConversation_SendVehicleIdentificationRequest
                    (snd (snd (net (vehicle_discovery_conversation d)))) now uwin1 uwin2 uevs request w)
                  (\<lambda>(res, t, w', rest). Returns (res, VD_Conversation w'))
            | DM_Conversation w \<Rightarrow> Returns (default_SendVehicleIdentificationRequest, v)) c = Returns (res, c')"
    by (simp add: DiagClient_SendVehicleIdentificationRequest_def d Let_def)
  then show ?thesis
    by (rule on_conversation_keeps [OF _ ok])
       (auto simp: typed_call_simps split: conversation.splits, erule (1) app_typed(4))
next
  case (started a u)
  then show ?thesis unfolding DiagClientConversation_Startup_def
    by (intro on_conversation_keeps [OF _ ok]) (auto simp: typed_call_simps intro: Conversation_Startup_typed)
next
  case (stopped a u)
  then show ?thesis unfolding DiagClientConversation_Shutdown_def
    by (intro on_conversation_keeps [OF _ ok]) (auto simp: typed_call_simps intro: Conversation_Shutdown_typed)
next
  case (connected a now win1 win2 evs target ip cr)
  then show ?thesis unfolding DiagClientConversation_ConnectToDiagServer_def
    by (intro on_conversation_keeps [OF _ ok])
       (auto simp: typed_call_simps split: conversation.splits, erule (2) app_typed(1))
next
  case (disconnected a dr)
  then show ?thesis unfolding DiagClientConversation_DisconnectFromDiagServer_def
    by (intro on_conversation_keeps [OF _ ok])
       (auto simp: typed_call_simps split: conversation.splits prod.splits, erule (1) app_reachable_disconnect)
next
  case (requested a now win1 win2 evs message sr)
  then show ?thesis unfolding DiagClientConversation_SendDiagnosticRequest_def
    by (intro on_conversation_keeps [OF _ ok])
       (auto simp: typed_call_simps split: conversation.splits, erule (2) app_typed(2))
next
  case (reader a ev u)
  then show ?thesis unfolding reader_step_def
    by (intro on_conversation_keeps [OF _ ok])
       (auto simp: typed_call_simps split: conversation.splits, erule (2) app_typed(3))
next
  case (io_context a uev u)
  then show ?thesis unfolding io_context_step_def
    by (intro on_conversation_keeps [OF _ ok])
       (auto simp: typed_call_simps split: conversation.splits, erule (1) app_typed(5))
qed simp_all


text \<open>The two steps that do more.\<close>

definition live :: "DiagClient \<Rightarrow> nat \<Rightarrow> bool" where
  "live c a \<longleftrightarrow> (case dcm_instance c of None \<Rightarrow> False | Some d \<Rightarrow> objects (conversation_mgr d) a \<noteq> None)"

definition belongs :: "DiagClient \<Rightarrow> string \<Rightarrow> nat \<Rightarrow> bool" where
  "belongs c name a \<longleftrightarrow> (case dcm_instance c of None \<Rightarrow> False | Some d \<Rightarrow> owns (conversation_mgr d) name a)"

definition next_handle :: "DiagClient \<Rightarrow> nat" where
  "next_handle c = (case dcm_instance c of None \<Rightarrow> 0 | Some d \<Rightarrow> next_address (conversation_mgr d))"

lemma live_iff_belongs: "client_ok net c \<Longrightarrow> live c a \<longleftrightarrow> (\<exists>name. belongs c name a)"
  by (auto simp: live_def belongs_def client_ok_def dcm_ok_def manager_ok_def objects_owned_def simp del: not_None_eq
      split: option.splits)

lemma belongs_unique: "client_ok net c \<Longrightarrow> belongs c name a \<Longrightarrow> belongs c name' a \<Longrightarrow> name = name'"
  by (auto simp: belongs_def client_ok_def split: option.splits dest: dcm_okD(2) owner_unique)

lemma belongs_next: "client_ok net c \<Longrightarrow> belongs c name a \<Longrightarrow> a < next_handle c"
  by (auto simp: belongs_def next_handle_def client_ok_def split: option.splits dest: dcm_okD(2) owns_live)

lemma in_place_belongs: "in_place c c' \<Longrightarrow> belongs c' = belongs c" "in_place c c' \<Longrightarrow> next_handle c' = next_handle c"
  by (auto simp: in_place_def belongs_def next_handle_def fun_eq_iff option.rel_sel same_shape_owns split: option.splits)
     (auto simp: same_shape_def)

lemma initialised_facts:
  assumes "DiagClient_Initialize net b read_json path c = Returns (FromValue (), c')"
  shows "client_ok net c'" and "next_handle c' = Suc (next_handle c)"
    and "belongs c' name a \<longleftrightarrow> name = kVdConversationName \<and> a = next_handle c"
proof -
  from assms obtain cfg d where n: "new_DCMClient net (next_handle c) cfg = Returns d"
    and c': "dcm_instance c' = Some d"
    by (auto simp: DiagClient_Initialize_def bind_call_Returns_iff next_handle_def split: Result.splits if_splits)
  note f = new_DCMClient_ok [OF n]
  show "client_ok net c'" by (simp add: client_ok_def c' f(1))
  show "next_handle c' = Suc (next_handle c)"
    using f(3) by (simp add: next_handle_def [of c'] c')
  show "belongs c' name a \<longleftrightarrow> name = kVdConversationName \<and> a = next_handle c"
    by (simp add: belongs_def c' f(5))
qed

lemma got_facts:
  assumes "DiagClient_GetDiagnosticClientConversation net name c = Returns (a, c')" and ok: "client_ok net c"
  shows "client_ok net c'" and "a = next_handle c" and "next_handle c' = Suc (next_handle c)"
    and "belongs c' name' a' \<longleftrightarrow> (if name' = name then a' = a else belongs c name' a')"
proof -
  from assms(1) obtain d m where d: "dcm_instance c = Some d"
    and g: "GetDiagnosticClientConversation net name (conversation_mgr d) = Returns (a, m)"
    and c': "c' = c\<lparr>dcm_instance := Some (d\<lparr>conversation_mgr := m\<rparr>)\<rparr>"
    by (auto simp: DiagClient_GetDiagnosticClientConversation_def bind_call_Returns_iff split: option.splits)
  have d_ok: "dcm_ok net d" using ok d by (rule client_okD)
  note mgr = dcm_okD [OF d_ok]
  from g obtain st where st: "map_of (conversation_map (conversation_mgr d)) name = Some st"
    by (auto simp: GetDiagnosticClientConversation_def split: option.splits)
  from g have m: "a = next_address (conversation_mgr d)" "m = after_get name st (conversation_mgr d)"
    by (auto simp: Get_eq [OF mgr(2) st] split: if_splits)
  have fresh: "\<not> owns (conversation_mgr d) n (next_address (conversation_mgr d))" for n
    using owns_live [OF mgr(2)] by blast
  have nx: "next_address m = Suc (next_address (conversation_mgr d))" by (simp add: m(2) after_get_def)
  show "a = next_handle c" "next_handle c' = Suc (next_handle c)"
    using nx by (simp_all add: next_handle_def c' d m(1))
  show "belongs c' name' a' \<longleftrightarrow> (if name' = name then a' = a else belongs c name' a')"
    by (simp add: belongs_def c' d m owns_after_get)
  have "vehicle_discovery_conversation d < next_address (conversation_mgr d)"
    "\<And>n. owns (conversation_mgr d) n (vehicle_discovery_conversation d) \<Longrightarrow> n = kVdConversationName"
    using d_ok by (simp_all add: dcm_ok_def)
  then have "owns m n (vehicle_discovery_conversation d) \<Longrightarrow> n = kVdConversationName" for n
    by (auto simp: m(2) owns_after_get split: if_splits)
  with d_ok after_get_ok [OF mgr(1) st] nx show "client_ok net c'"
    by (simp add: client_ok_def c' dcm_ok_def m(2) type_of_after_get [OF st])
qed

lemma client_step_ok:
  assumes "client_step net b read_json path l c c'" and ok: "client_ok net c"
  shows "client_ok net c'"
  using assms(1)
proof cases
  case initialised
  show ?thesis by (rule initialised_facts(1) [OF initialised(2)])
next
  case (got name a)
  show ?thesis by (rule got_facts(1) [OF got(2) ok])
qed (use worked_keeps [OF assms(1) _ ok] in simp_all)

lemma client_run_ok: "client_run net b read_json path ls c c' \<Longrightarrow> client_ok net c \<Longrightarrow> client_ok net c'"
  by (induction rule: client_run.induct) (auto intro: client_step_ok)

lemma client_ok_new: "client_ok net new_DiagClient"
  by (simp add: client_ok_def new_DiagClient_def)

lemma client_reachable_ok: "client_reachable net b read_json path c \<Longrightarrow> client_ok net c"
  by (auto simp: client_reachable_def dest: client_run_ok intro: client_ok_new)

section \<open>How long a handle is valid\<close>

lemma handle_step:
  assumes st: "client_step net b read_json path l c c'" and ok: "client_ok net c"
  shows "next_handle c \<le> next_handle c'"
    and "a < next_handle c \<Longrightarrow> belongs c' name a \<longleftrightarrow> belongs c name a \<and> l \<noteq> Initialised \<and> l \<noteq> Got name"
proof -
  have "next_handle c \<le> next_handle c' \<and>
      (a < next_handle c \<longrightarrow> belongs c' name a = (belongs c name a \<and> l \<noteq> Initialised \<and> l \<noteq> Got name))"
    using st
  proof cases
    case initialised
    then show ?thesis using initialised_facts(2,3) [OF initialised(2)] by simp
  next
    case (got name' a')
    then show ?thesis using got_facts(2,3,4) [OF got(2) ok] by auto
  qed (use worked_keeps [OF st _ ok] in_place_belongs [of c c'] in simp_all)
  then show "next_handle c \<le> next_handle c'"
    and "a < next_handle c \<Longrightarrow> belongs c' name a \<longleftrightarrow> belongs c name a \<and> l \<noteq> Initialised \<and> l \<noteq> Got name"
    by auto
qed

lemma handle_run:
  assumes "client_run net b read_json path ls c c'" and "client_ok net c" and "a < next_handle c"
  shows "belongs c' name a \<longleftrightarrow> belongs c name a \<and> Initialised \<notin> set ls \<and> Got name \<notin> set ls"
  using assms
proof (induction rule: client_run.induct)
  case (further l c c1 ls c2)
  note s = handle_step [OF further(1,4)]
  have "belongs c2 name a \<longleftrightarrow> belongs c1 name a \<and> Initialised \<notin> set ls \<and> Got name \<notin> set ls"
    by (rule further.IH) (use further s(1) client_step_ok in auto)
  with s(2) [OF further(5)] show ?case by auto
qed simp


section \<open>Shutting everything down\<close>

text \<open>When shutting a conversation down does not end the process, and what it leaves.\<close>

definition stops :: "asio_io \<times> asio_udp \<times> asio_udp \<Rightarrow> conversation \<Rightarrow> bool" where
  "stops net c \<longleftrightarrow> GetActivityStatus c = kInactive \<or>
     (case net of (io, bc_io, uc_io) \<Rightarrow> case c of
        DM_Conversation w \<Rightarrow> asio_close io
      | VD_Conversation w \<Rightarrow> udp_close bc_io \<and> udp_close uc_io)"

definition stop_conversation :: "conversation \<Rightarrow> conversation" where
  "stop_conversation c =
     (case c of
        DM_Conversation w \<Rightarrow>
          DM_Conversation (if activity_status w = kActive
            then (TcpChannelHandler_Reset (w\<lparr>exit_reader := True, running := False, reader_started := False\<rparr>))
              \<lparr>activity_status := kInactive\<rparr>
            else w)
      | VD_Conversation w \<Rightarrow> VD_Conversation (w\<lparr>vd_activity_status := kInactive\<rparr>))"

lemma not_active: "s \<noteq> kActive \<longleftrightarrow> s = kInactive"
  by (cases s) simp_all

lemma Conversation_Shutdown_eq:
  "Conversation_Shutdown net c = (if stops net c then Inr (stop_conversation c) else Inl Uncaught_Exception)"
proof (cases c)
  case (DM_Conversation w)
  then show ?thesis
    by (cases net; cases "activity_status w")
       (simp_all add: Conversation_Shutdown_def stops_def stop_conversation_def GetActivityStatus_def
         DmConversation_Shutdown_def TcpChannel_Stop_eq)
next
  case (VD_Conversation w)
  then show ?thesis
    by (cases net; cases "vd_activity_status w"; cases "udp_close (fst (snd net))"; cases "udp_close (snd (snd net))")
       (simp_all add: Conversation_Shutdown_def stops_def stop_conversation_def GetActivityStatus_def
         VdConversation_Shutdown_def UdpChannel_Stop_def UdpClient_DeInitialize_def UdpConnection_DeInitialize_def
         UdpSocket_Close_def)
qed

lemma stopped_inactive [simp]: "GetActivityStatus (stop_conversation c) = kInactive"
  by (cases c) (simp_all add: GetActivityStatus_def stop_conversation_def not_active)

lemma stopped_stops [simp]: "stops net (stop_conversation c)"
  by (simp add: stops_def)

lemma inactive_stopped: "GetActivityStatus c = kInactive \<Longrightarrow> stop_conversation c = c"
  by (cases c) (simp_all add: GetActivityStatus_def stop_conversation_def)

lemma stopped_idem [simp]: "stop_conversation (stop_conversation c) = stop_conversation c"
  by (simp add: inactive_stopped)

lemma shutdown_if_active_eq: "shutdown_if_active net c = Conversation_Shutdown net c"
  by (simp add: shutdown_if_active_def Conversation_Shutdown_eq inactive_stopped stops_def)

text \<open>Stopping the objects at a set of addresses, all at once.\<close>

definition stop_at :: "nat set \<Rightarrow> ConversationManager \<Rightarrow> ConversationManager" where
  "stop_at A m = m\<lparr>objects := (\<lambda>a. if a \<in> A then map_option stop_conversation (objects m a) else objects m a)\<rparr>"

definition addresses :: "(string \<times> ConversationStorage) list \<Rightarrow> nat set" where
  "addresses sts = {a. \<exists>(name, st) \<in> set sts. conversation st = Some a}"

lemma addresses_simps [simp]:
  "addresses [] = {}"
  "addresses ((name, st) # sts) = (case conversation st of None \<Rightarrow> {} | Some a \<Rightarrow> {a}) \<union> addresses sts"
  by (auto simp: addresses_def split: option.splits)

lemma stop_at_empty [simp]: "stop_at {} m = m"
  by (simp add: stop_at_def)

lemma stop_at_stop_at: "stop_at B (stop_at A m) = stop_at (A \<union> B) m"
  by (auto simp: stop_at_def fun_eq_iff option.map_comp intro!: arg_cong [where f = "\<lambda>f. objects_update f m"] option.map_cong)

lemma objects_stop_at: "objects (stop_at A m) a = (if a \<in> A then map_option stop_conversation (objects m a) else objects m a)"
  by (simp add: stop_at_def)

lemma shutdown_all_eq:
  assumes "\<forall>a \<in> addresses sts. objects m a \<noteq> None"
  shows "shutdown_all net sts m =
    (if \<forall>a \<in> addresses sts. stops (net a) (the (objects m a)) then Inr (stop_at (addresses sts) m)
     else Inl Uncaught_Exception)"
  using assms
proof (induction sts arbitrary: m)
  case (Cons nst sts)
  obtain name st where n: "nst = (name, st)" by (cases nst)
  show ?case
  proof (cases "conversation st")
    case None
    with Cons n show ?thesis by simp
  next
    case (Some a)
    with Cons.prems n obtain v where v: "objects m a = Some v" by auto
    let ?m = "stop_at {a} m"
    have m': "on_object a (shutdown_if_active (net a)) m = (if stops (net a) v then Inr ?m else Inl Uncaught_Exception)"
      using v by (auto simp: on_object_def shutdown_if_active_eq Conversation_Shutdown_eq stop_at_def fun_eq_iff
          intro!: arg_cong [where f = "\<lambda>f. objects_update f m"])
    have "\<forall>b \<in> addresses sts. objects ?m b \<noteq> None" using Cons.prems n by (auto simp: objects_stop_at)
    note ih = Cons.IH [OF this]
    have "stops (net b) (the (objects ?m b)) \<longleftrightarrow> stops (net b) (the (objects m b)) \<or> b = a" if "b \<in> addresses sts" for b
      using v by (auto simp: objects_stop_at)
    with Some n m' ih v show ?thesis by (auto simp: stop_at_stop_at)
  qed
qed simp

lemma addresses_owned:
  assumes "objects_owned m" and "set sts = set (conversation_map m)"
  shows "a \<in> addresses sts \<longleftrightarrow> objects m a \<noteq> None"
proof -
  have d: "distinct (map fst (conversation_map m))" using assms(1) by (simp add: objects_owned_def umap_distinct_def)
  have "a \<in> addresses sts \<longleftrightarrow> (\<exists>name. owns m name a)"
    using d by (auto simp: addresses_def owns_def assms(2) map_of_eq_Some_iff [OF d])
  with assms(1) show ?thesis by (simp add: objects_owned_def)
qed

lemma stop_at_all: "(\<And>a. a \<in> A \<longleftrightarrow> objects m a \<noteq> None) \<Longrightarrow> stop_at A m = stop_at UNIV m"
  by (auto simp: stop_at_def fun_eq_iff intro!: arg_cong [where f = "\<lambda>f. objects_update f m"])

definition all_stop :: "network \<Rightarrow> ConversationManager \<Rightarrow> bool" where
  "all_stop net m \<longleftrightarrow> (\<forall>a v. objects m a = Some v \<longrightarrow> stops (net a) v)"

text \<open>The result is the same for every order in which the map is gone through.\<close>

lemma shutdown_all_owned:
  assumes ok: "objects_owned m" and sts: "set sts = set (conversation_map m)"
  shows "shutdown_all net sts m = (if all_stop net m then Inr (stop_at UNIV m) else Inl Uncaught_Exception)"
proof -
  note a = addresses_owned [OF ok sts]
  have "(\<forall>a \<in> addresses sts. stops (net a) (the (objects m a))) \<longleftrightarrow> all_stop net m"
    unfolding all_stop_def Ball_def a by auto
  with shutdown_all_eq [of sts m net] a stop_at_all [of "addresses sts" m, OF a] show ?thesis by simp
qed

lemma all_stop_stop_at: "all_stop net m \<Longrightarrow> all_stop net (stop_at A m)"
  by (auto simp: all_stop_def objects_stop_at)

lemma all_stop_object:
  "objects m a = Some v \<Longrightarrow> all_stop net m \<longleftrightarrow> stops (net a) v \<and> all_stop net (stop_at {a} m)"
proof (intro iffI conjI)
  assume v: "objects m a = Some v" and r: "stops (net a) v \<and> all_stop net (stop_at {a} m)"
  have "stops (net b) u" if "objects m b = Some u" for b u
  proof (cases "b = a")
    case False
    with that have "objects (stop_at {a} m) b = Some u" by (simp add: objects_stop_at)
    with r show ?thesis by (simp add: all_stop_def)
  qed (use that v r in simp)
  then show "all_stop net m" by (simp add: all_stop_def)
qed (auto simp: all_stop_def intro: all_stop_stop_at [unfolded all_stop_def, rule_format])

lemma DCMClient_Shutdown_eq:
  assumes ok: "dcm_ok net d"
  shows "DCMClient_Shutdown net d =
    (if objects (conversation_mgr d) (vehicle_discovery_conversation d) = None then Inl Use_After_Free
     else if all_stop net (conversation_mgr d) then Inr (d\<lparr>conversation_mgr := stop_at UNIV (conversation_mgr d)\<rparr>)
     else Inl Uncaught_Exception)"
proof (cases "objects (conversation_mgr d) (vehicle_discovery_conversation d)")
  case None
  then show ?thesis by (simp add: DCMClient_Shutdown_def on_object_def Let_def)
next
  case (Some v)
  let ?m = "conversation_mgr d" and ?a = "vehicle_discovery_conversation d"
  have s: "same_shape ?m (stop_at {?a} ?m)" by (simp add: same_shape_def objects_stop_at) (simp add: stop_at_def)
  have owned: "objects_owned (stop_at {?a} ?m)" using same_shape_owned [OF s] dcm_okD(2) [OF ok] by simp
  have "on_object ?a (Conversation_Shutdown (net ?a)) ?m =
      (if stops (net ?a) v then Inr (stop_at {?a} ?m) else Inl Uncaught_Exception)"
    using Some by (auto simp: on_object_def Conversation_Shutdown_eq stop_at_def fun_eq_iff
        intro!: arg_cong [where f = "\<lambda>f. objects_update f ?m"])
  moreover have "all_stop net ?m \<longleftrightarrow> stops (net ?a) v \<and> all_stop net (stop_at {?a} ?m)"
    by (rule all_stop_object [OF Some])
  ultimately show ?thesis using Some shutdown_all_owned [OF owned refl, of net]
    by (simp add: DCMClient_Shutdown_def uds_manager_defs ConversationManager_Shutdown_def stop_at_stop_at)
qed


section \<open>Using a handle that is not valid\<close>

lemma step_instance:
  assumes st: "client_step net b read_json path l c c'" and ok: "client_ok net c" and "dcm_instance c \<noteq> None"
  shows "dcm_instance c' \<noteq> None"
    and "l \<noteq> Initialised \<Longrightarrow> map_option vehicle_discovery_conversation (dcm_instance c') =
      map_option vehicle_discovery_conversation (dcm_instance c)"
proof -
  have "dcm_instance c' \<noteq> None \<and> (l \<noteq> Initialised \<longrightarrow> map_option vehicle_discovery_conversation (dcm_instance c') =
      map_option vehicle_discovery_conversation (dcm_instance c))"
    using st
  proof cases
    case initialised
    with initialised_facts(3) [OF initialised(2), of kVdConversationName "next_handle c"] show ?thesis
      by (auto simp: belongs_def split: option.splits)
  next
    case (got name a)
    then show ?thesis
      by (auto simp: DiagClient_GetDiagnosticClientConversation_def bind_call_Returns_iff split: option.splits)
  qed (use worked_keeps [OF st _ ok] assms(3) in \<open>auto simp: in_place_def option.rel_sel option.map_sel\<close>)
  then show "dcm_instance c' \<noteq> None"
    and "l \<noteq> Initialised \<Longrightarrow> map_option vehicle_discovery_conversation (dcm_instance c') =
      map_option vehicle_discovery_conversation (dcm_instance c)" by auto
qed

lemma run_instance:
  assumes "client_run net b read_json path ls c c'" and "client_ok net c" and "dcm_instance c \<noteq> None"
  shows "dcm_instance c' \<noteq> None \<and> (Initialised \<notin> set ls \<longrightarrow>
    map_option vehicle_discovery_conversation (dcm_instance c') = map_option vehicle_discovery_conversation (dcm_instance c))"
  using assms
proof (induction rule: client_run.induct)
  case (further l c c1 ls c2)
  note s = step_instance [OF further(1,4,5)]
  show ?case using further.IH [OF client_step_ok [OF further(1,4)] s(1)] s(2) by auto
qed simp

lemma dead_object_crashes:
  "dcm_instance c \<noteq> None \<Longrightarrow> \<not> live c a \<Longrightarrow> on_conversation a f c = Crashes Use_After_Free"
  by (auto simp: live_def on_conversation_def split: option.splits)

lemmas conversation_calls = DiagClientConversation_Startup_def DiagClientConversation_Shutdown_def
  DiagClientConversation_ConnectToDiagServer_def DiagClientConversation_DisconnectFromDiagServer_def
  DiagClientConversation_SendDiagnosticRequest_def

text \<open>After the name of a handle was asked for again, the handle is dead.\<close>

lemma asked_again_dead:
  assumes ok: "client_ok net c" and g: "DiagClient_GetDiagnosticClientConversation net name c = Returns (a, c1)"
    and run: "client_run net b read_json path ls c1 c2" and "Got name \<in> set ls"
  shows "\<not> live c2 a" and "dcm_instance c2 \<noteq> None"
proof -
  note f = got_facts [OF g ok]
  have ok2: "client_ok net c2" by (rule client_run_ok [OF run f(1)])
  have "\<not> belongs c2 name' a" for name'
    using handle_run [OF run f(1), of a name'] f(2,3,4) belongs_next [OF ok, of name' a] assms(4) by auto
  then show "\<not> live c2 a" by (simp add: live_iff_belongs [OF ok2])
  have "dcm_instance c1 \<noteq> None" using f(4) [of name a] by (auto simp: belongs_def split: option.splits)
  then show "dcm_instance c2 \<noteq> None" using run_instance [OF run f(1)] by blast
qed

text \<open>After the reserved name was asked for, the client's own reference is dead.\<close>

lemma discovery_dead:
  assumes ok: "client_ok net c" and g: "DiagClient_GetDiagnosticClientConversation net kVdConversationName c = Returns (a, c1)"
    and run: "client_run net b read_json path ls c1 c2" and "Initialised \<notin> set ls"
  obtains d where "dcm_instance c2 = Some d" and "\<not> live c2 (vehicle_discovery_conversation d)"
    and "dcm_ok net d"
proof -
  note f = got_facts [OF g ok]
  have ok2: "client_ok net c2" by (rule client_run_ok [OF run f(1)])
  from g obtain d0 where d0: "dcm_instance c = Some d0"
    by (auto simp: DiagClient_GetDiagnosticClientConversation_def split: option.splits)
  with ok have d0_ok: "dcm_ok net d0" by (rule client_okD)
  have i: "client_step net b read_json path (Got kVdConversationName) c c1" by (rule client_step.got [OF g])
  note s = step_instance [OF i ok]
  note r = run_instance [OF run f(1) s(1)]
  from r s assms(4) d0 obtain d where d: "dcm_instance c2 = Some d"
      "vehicle_discovery_conversation d = vehicle_discovery_conversation d0"
    by (auto simp: option.map_sel)
  have less: "vehicle_discovery_conversation d0 < next_handle c"
    using d0_ok d0 by (simp add: dcm_ok_def next_handle_def)
  have o: "belongs c name (vehicle_discovery_conversation d0) \<Longrightarrow> name = kVdConversationName" for name
    using d0_ok d0 by (simp add: belongs_def dcm_ok_def)
  have "\<not> belongs c1 name (vehicle_discovery_conversation d0)" for name
    using o [of name] less f(2) f(4) [of name "vehicle_discovery_conversation d0"] by (auto split: if_splits)
  moreover have "vehicle_discovery_conversation d0 < next_handle c1" using less f(3) by simp
  ultimately have "\<not> belongs c2 name (vehicle_discovery_conversation d0)" for name
    using handle_run [OF run f(1)] by blast
  then have "\<not> live c2 (vehicle_discovery_conversation d)" by (simp add: live_iff_belongs [OF ok2] d(2))
  with that d client_okD [OF ok2] show thesis by blast
qed

lemma DeInitialize_eq:
  assumes d: "dcm_instance c = Some d" and ok: "dcm_ok net d" and t: "dcm_thread c = Some Main_Waiting"
  shows "DiagClient_DeInitialize net c =
    (if \<not> live c (vehicle_discovery_conversation d) then Inl Use_After_Free
     else if all_stop net (conversation_mgr d) then
       Inr (FromValue (), c\<lparr>dcm_instance := Some (d\<lparr>conversation_mgr := stop_at UNIV (conversation_mgr d)\<rparr>),
         dcm_thread := None, exit_requested := True\<rparr>)
     else Inl Uncaught_Exception)"
  by (simp add: DiagClient_DeInitialize_def SignalShutdown_def Main_step_def d t DCMClient_Shutdown_eq [OF ok] live_def)

lemma DeInitialize_dead:
  assumes d: "dcm_instance c = Some d" and "dcm_ok net d" and "\<not> live c (vehicle_discovery_conversation d)"
    and "dcm_thread c = Some Main_Waiting \<or> dcm_thread c = Some Main_Initializing"
  shows "DiagClient_DeInitialize net c = Inl Use_After_Free"
  using assms(4)
proof
  assume "dcm_thread c = Some Main_Waiting"
  with DeInitialize_eq [OF d assms(2)] assms(3) show ?thesis by simp
next
  assume t: "dcm_thread c = Some Main_Initializing"
  from assms(3) d have "objects (conversation_mgr d) (vehicle_discovery_conversation d) = None" by (simp add: live_def)
  with t d show ?thesis
    by (simp add: DiagClient_DeInitialize_def SignalShutdown_def Main_step_def DCMClient_Initialize_def uds_manager_defs
        on_object_def)
qed

end
