(* ===== verification/Client_Properties.thy ===== *)
theory Client_Properties
  imports Client_Steps Scenario "HOL-Library.Multiset"
begin

text \<open>
  What the client promises its application: which conversations there are, how long a handle on one
  is valid, when asking for one returns, and what the shutdown does. The concrete client at the end of
  the first section instantiates the properties.
\<close>

section \<open>A concrete client\<close>

definition demo_udp :: asio_udp where
  "demo_udp = \<lparr>udp_open = True, udp_options = True, udp_bind = True, udp_local_endpoint = True,
     udp_address = (\<lambda>ip. True), udp_send = (\<lambda>ip port bs. (True, length bs)), udp_close = True\<rparr>"

definition demo_net :: network where
  "demo_net = (\<lambda>a. (io_ok, demo_udp, demo_udp))"

lemma demo_address_ok: "local_address_ok (demo_net a) ty"
  by (simp add: local_address_ok_def demo_net_def demo_udp_def io_ok_def split: conversation_type.split)

definition demo_tree :: "unit boost_tree" where
  "demo_tree =
     \<lparr>get_string = (\<lambda>t p. Inr (if p = ''ConversationName'' then ''DiagTesterOne'' else ''172.16.25.127'')),
      get_u8 = (\<lambda>t p. Inr 1),
      get_u16 = (\<lambda>t p. Inr (if p = ''P2ClientMax'' then 50 else 500)),
      get_bool = (\<lambda>t p. Inr False),
      get_child = (\<lambda>t p. Inr [()])\<rparr>"

definition demo_read :: "string \<Rightarrow> unit option" where
  "demo_read path = (if path = ''diag_client_config.json'' then Some () else None)"

abbreviation demo_config_path :: string where
  "demo_config_path \<equiv> ''diag_client_config.json''"

definition client_after :: "('r \<times> DiagClient) call \<Rightarrow> DiagClient" where
  "client_after r = (case r of Returns (x, c) \<Rightarrow> c | _ \<Rightarrow> new_DiagClient)"

definition demo_client :: DiagClient where
  "demo_client = client_after (DiagClient_Initialize demo_net demo_tree demo_read demo_config_path new_DiagClient)"

definition demo_waiting :: DiagClient where
  "demo_waiting = (case Main_step demo_net demo_client of Inr c \<Rightarrow> c | Inl e \<Rightarrow> new_DiagClient)"

definition demo_tester :: DiagClient where
  "demo_tester = client_after (DiagClient_GetDiagnosticClientConversation demo_net ''DiagTesterOne'' demo_waiting)"

definition demo_tester_again :: DiagClient where
  "demo_tester_again = client_after (DiagClient_GetDiagnosticClientConversation demo_net ''DiagTesterOne'' demo_tester)"

definition demo_discovery_lost :: DiagClient where
  "demo_discovery_lost = client_after (DiagClient_GetDiagnosticClientConversation demo_net ''VdConversation'' demo_tester)"

definition demo_running :: DiagClient where
  "demo_running = client_after (DiagClientConversation_Startup demo_net 1 demo_tester)"

lemma client_afterI:
  assumes "case r of Returns (x, c) \<Rightarrow> x = y | _ \<Rightarrow> False"
  shows "r = Returns (y, client_after r)"
  using assms by (auto simp: client_after_def split: call.splits prod.splits)

lemma demo_initialises:
  "DiagClient_Initialize demo_net demo_tree demo_read demo_config_path new_DiagClient = Returns (FromValue (), demo_client)"
  unfolding demo_client_def by (rule client_afterI) code_simp

lemma demo_main: "Main_step demo_net demo_client = Inr demo_waiting"
proof -
  have "case Main_step demo_net demo_client of Inr c \<Rightarrow> True | Inl e \<Rightarrow> False" by code_simp
  then show ?thesis by (auto simp: demo_waiting_def split: sum.splits)
qed

lemma demo_gets:
  "DiagClient_GetDiagnosticClientConversation demo_net ''DiagTesterOne'' demo_waiting = Returns (1, demo_tester)"
  "DiagClient_GetDiagnosticClientConversation demo_net ''DiagTesterOne'' demo_tester = Returns (2, demo_tester_again)"
  "DiagClient_GetDiagnosticClientConversation demo_net ''VdConversation'' demo_tester = Returns (2, demo_discovery_lost)"
  "DiagClientConversation_Startup demo_net 1 demo_tester = Returns ((), demo_running)"
  unfolding demo_tester_def demo_tester_again_def demo_discovery_lost_def demo_running_def
  by (rule client_afterI, code_simp)+


lemma client_reachable_new: "client_reachable net b read_json path new_DiagClient"
  unfolding client_reachable_def by (rule exI, rule client_run.finished)

lemma client_run_append:
  "client_run net b read_json path ls c c1 \<Longrightarrow> client_run net b read_json path ls' c1 c2 \<Longrightarrow>
   client_run net b read_json path (ls @ ls') c c2"
  by (induction rule: client_run.induct) (auto intro: client_run.further)

lemma client_run_one: "client_step net b read_json path l c c' \<Longrightarrow> client_run net b read_json path [l] c c'"
  by (rule client_run.further [OF _ client_run.finished])

lemma client_reachable_step:
  "client_reachable net b read_json path c \<Longrightarrow> client_step net b read_json path l c c' \<Longrightarrow>
   client_reachable net b read_json path c'"
  unfolding client_reachable_def by (auto intro: client_run_append client_run_one)

abbreviation "demo_client_reachable \<equiv> client_reachable demo_net demo_tree demo_read demo_config_path"

lemma demo_clients:
  "demo_client_reachable demo_client" "demo_client_reachable demo_waiting" "demo_client_reachable demo_tester"
  "demo_client_reachable demo_tester_again" "demo_client_reachable demo_discovery_lost" "demo_client_reachable demo_running"
proof -
  show c: "demo_client_reachable demo_client"
    by (rule client_reachable_step [OF client_reachable_new client_step.initialised [OF demo_initialises]])
  show w: "demo_client_reachable demo_waiting"
    by (rule client_reachable_step [OF c client_step.main_thread [OF demo_main]])
  show t: "demo_client_reachable demo_tester"
    by (rule client_reachable_step [OF w client_step.got [OF demo_gets(1)]])
  show "demo_client_reachable demo_tester_again"
    by (rule client_reachable_step [OF t client_step.got [OF demo_gets(2)]])
  show "demo_client_reachable demo_discovery_lost"
    by (rule client_reachable_step [OF t client_step.got [OF demo_gets(3)]])
  show "demo_client_reachable demo_running"
    by (rule client_reachable_step [OF t client_step.started [OF demo_gets(4)]])
qed

definition demo_map :: "(string \<times> ConversationStorage) list" where
  "demo_map = [(''VdConversation'', \<lparr>conversation_type = VD_Type
        \<lparr>conf_udp_address = ''172.16.25.127'', conf_udp_broadcast_address = ''172.16.25.127'', conf_udp_port_num = 0,
          conf_udp_handler_id = 0\<rparr>, conversation = Some 0\<rparr>),
       (''DiagTesterOne'', \<lparr>conversation_type = DM_Type
        \<lparr>conf_p2_client_max = 50, conf_p2_star_client_max = 500, conf_source_address = 500, conf_rx_buffer_size = 500,
          conf_tcp_address = ''172.16.25.127'', conf_port_num = 0, conf_handler_id = 0\<rparr>, conversation = Some 1\<rparr>)]"

lemma demo_instances:
  "\<exists>d. dcm_instance demo_tester = Some d \<and> (\<exists>w. objects (conversation_mgr d) 1 = Some (DM_Conversation w))"
  "\<exists>d. dcm_instance demo_running = Some d \<and>
     (\<exists>w. objects (conversation_mgr d) 1 = Some (DM_Conversation w) \<and> reader_started w) \<and>
     conversation_map (conversation_mgr d) = demo_map"
proof -
  have "case dcm_instance demo_tester of None \<Rightarrow> False
    | Some d \<Rightarrow> (case objects (conversation_mgr d) 1 of Some (DM_Conversation w) \<Rightarrow> True | _ \<Rightarrow> False)"
    by code_simp
  then show "\<exists>d. dcm_instance demo_tester = Some d \<and> (\<exists>w. objects (conversation_mgr d) 1 = Some (DM_Conversation w))"
    by (auto split: option.splits conversation.splits)
  have r: "case dcm_instance demo_running of None \<Rightarrow> False
    | Some d \<Rightarrow> (case objects (conversation_mgr d) 1 of Some (DM_Conversation w) \<Rightarrow> reader_started w | _ \<Rightarrow> False) \<and>
     conversation_map (conversation_mgr d) = demo_map"
    by code_simp
  then obtain d where d: "dcm_instance demo_running = Some d" by (cases "dcm_instance demo_running") simp_all
  note r' = r [unfolded d option.case]
  from conjunct1 [OF r'] obtain w where "objects (conversation_mgr d) 1 = Some (DM_Conversation w)" "reader_started w"
    by (auto split: option.splits conversation.splits)
  with d conjunct2 [OF r'] show "\<exists>d. dcm_instance demo_running = Some d \<and>
     (\<exists>w. objects (conversation_mgr d) 1 = Some (DM_Conversation w) \<and> reader_started w) \<and>
     conversation_map (conversation_mgr d) = demo_map" by blast
qed

section \<open>Properties\<close>

text \<open>C33: In every state a client can reach, each conversation that exists belongs to exactly one name,
  has the type the configuration gives that name (the reserved name the discovery conversation, every
  other name a diagnostic one), and is in a state that its own step relation reaches; so what is proved
  of the reachable states of a single conversation holds of all conversations of a client, however
  their operations are interleaved.\<close>

theorem client_conversations_are_typed:
  assumes "client_reachable net b read_json path c" and "dcm_instance c = Some d"
    and "objects (conversation_mgr d) a = Some v"
  shows "\<exists>name ty. type_of (conversation_mgr d) name = Some ty \<and>
    (\<forall>name'. owns (conversation_mgr d) name' a \<longleftrightarrow> name' = name) \<and>
    (case v of
       DM_Conversation w \<Rightarrow> name \<noteq> kVdConversationName \<and>
         (\<exists>conf. ty = DM_Type conf \<and> app_reachable (fst (net a)) conf w)
     | VD_Conversation w \<Rightarrow> name = kVdConversationName \<and> (\<exists>conf. ty = VD_Type conf) \<and> vd_reachable w)"
proof -
  have ok: "dcm_ok net d" using client_reachable_ok [OF assms(1)] assms(2) by (rule client_okD)
  note mgr = dcm_okD [OF ok]
  from object_owned [OF mgr(2) assms(3)] obtain name where o: "owns (conversation_mgr d) name a" by blast
  from owned_type [OF mgr(1) o assms(3)] obtain ty
    where ty: "type_of (conversation_mgr d) name = Some ty" "conv_typed net a ty v" by blast
  from ok ty(1) have "name = kVdConversationName \<longleftrightarrow> (\<exists>conf. ty = VD_Type conf)" by (simp add: dcm_ok_def)
  with ty(2) have "case v of
       DM_Conversation w \<Rightarrow> name \<noteq> kVdConversationName \<and>
         (\<exists>conf. ty = DM_Type conf \<and> app_reachable (fst (net a)) conf w)
     | VD_Conversation w \<Rightarrow> name = kVdConversationName \<and> (\<exists>conf. ty = VD_Type conf) \<and> vd_reachable w"
    by (cases v) (auto simp: conv_typed_DM conv_typed_VD)
  moreover have "\<forall>name'. owns (conversation_mgr d) name' a \<longleftrightarrow> name' = name" using o owner_unique [OF mgr(2) o] by blast
  ultimately show ?thesis using ty(1) by blast
qed

theorem client_conversations_are_typed_witness:
  "\<exists>d w name. dcm_instance demo_tester = Some d \<and> objects (conversation_mgr d) 1 = Some (DM_Conversation w) \<and>
     owns (conversation_mgr d) name 1 \<and> name \<noteq> kVdConversationName"
  using client_conversations_are_typed [OF demo_clients(3)] demo_instances(1) by fastforce

text \<open>C34: A handle on a conversation is valid until the same name is asked for again or the client is
  initialised again, and never after that, whatever else the client does.\<close>

theorem handle_lifetime:
  assumes "client_reachable net b read_json path c"
    and "DiagClient_GetDiagnosticClientConversation net name c = Returns (a, c1)"
    and "client_run net b read_json path ls c1 c2"
  shows "live c2 a \<longleftrightarrow> Initialised \<notin> set ls \<and> Got name \<notin> set ls"
proof -
  have ok: "client_ok net c" by (rule client_reachable_ok [OF assms(1)])
  note g = got_facts [OF assms(2) ok]
  have ok2: "client_ok net c2" by (rule client_run_ok [OF assms(3) g(1)])
  have "belongs c2 name' a \<longleftrightarrow> name' = name \<and> Initialised \<notin> set ls \<and> Got name \<notin> set ls" for name'
    using handle_run [OF assms(3) g(1), of a name'] g(2,3,4) belongs_next [OF ok, of name' a] by auto
  then show ?thesis by (simp add: live_iff_belongs [OF ok2])
qed

theorem handle_lifetime_witness:
  "live demo_tester 1 \<and> \<not> live demo_tester_again 1 \<and> live demo_discovery_lost 1"
proof (intro conjI)
  show "live demo_tester 1"
    using handle_lifetime [OF demo_clients(2) demo_gets(1) client_run.finished] by simp
  show "\<not> live demo_tester_again 1"
    using handle_lifetime [OF demo_clients(2) demo_gets(1) client_run_one [OF client_step.got [OF demo_gets(2)]]] by simp
  show "live demo_discovery_lost 1"
    using handle_lifetime [OF demo_clients(2) demo_gets(1) client_run_one [OF client_step.got [OF demo_gets(3)]]] by simp
qed


text \<open>Once the name of a handle has been asked for again, every operation through the old handle
  uses an object that no longer exists: starting up, shutting down, connecting, disconnecting and
  sending a request all end the process, whatever happens in between.\<close>

theorem stale_handle_crashes:
  assumes "client_reachable net b read_json path c"
    and "DiagClient_GetDiagnosticClientConversation net name c = Returns (a, c1)"
    and "client_run net b read_json path ls c1 c2" and "Got name \<in> set ls"
  shows "DiagClientConversation_Startup net a c2 = Crashes Use_After_Free \<and>
    DiagClientConversation_Shutdown net a c2 = Crashes Use_After_Free \<and>
    DiagClientConversation_ConnectToDiagServer net a now win1 win2 evs target ip c2 = Crashes Use_After_Free \<and>
    DiagClientConversation_DisconnectFromDiagServer net a c2 = Crashes Use_After_Free \<and>
    DiagClientConversation_SendDiagnosticRequest net a now win1 win2 evs message c2 = Crashes Use_After_Free"
  using asked_again_dead [OF client_reachable_ok [OF assms(1)] assms(2-4)]
  by (simp add: dead_object_crashes conversation_calls)

theorem stale_handle_crashes_witness:
  "DiagClientConversation_Startup demo_net 1 demo_tester_again = Crashes Use_After_Free"
  using stale_handle_crashes [OF demo_clients(2) demo_gets(1) client_run_one [OF client_step.got [OF demo_gets(2)]]]
  by simp

text \<open>An application that asks for the conversation of the reserved name replaces the object the
  client itself uses for vehicle discovery: from then on, as long as the client is not initialised again,
  every vehicle identification request ends the process, and so does the shutdown of the client.\<close>

theorem asking_for_discovery_breaks_it:
  assumes "client_reachable net b read_json path c"
    and "DiagClient_GetDiagnosticClientConversation net ''VdConversation'' c = Returns (a, c1)"
    and "client_run net b read_json path ls c1 c2" and "Initialised \<notin> set ls"
  shows "DiagClient_SendVehicleIdentificationRequest net now win1 win2 evs request c2 = Crashes Use_After_Free \<and>
    (dcm_thread c2 \<in> {Some Main_Initializing, Some Main_Waiting} \<longrightarrow> DiagClient_DeInitialize net c2 = Inl Use_After_Free)"
proof -
  obtain d where d: "dcm_instance c2 = Some d" "\<not> live c2 (vehicle_discovery_conversation d)" "dcm_ok net d"
    using discovery_dead [OF client_reachable_ok [OF assms(1)] assms(2) [folded kVdConversationName_def] assms(3,4)]
    by blast
  from dead_object_crashes [of c2, OF _ d(2)] d(1)
  have "DiagClient_SendVehicleIdentificationRequest net now win1 win2 evs request c2 = Crashes Use_After_Free"
    by (simp add: DiagClient_SendVehicleIdentificationRequest_def Let_def)
  with DeInitialize_dead [OF d(1,3,2)] show ?thesis by blast
qed

theorem asking_for_discovery_breaks_it_witness:
  "(\<forall>request. DiagClient_SendVehicleIdentificationRequest demo_net 0 [] [] [] request demo_discovery_lost = Crashes Use_After_Free) \<and>
    DiagClient_DeInitialize demo_net demo_discovery_lost = Inl Use_After_Free"
proof -
  have "dcm_thread demo_discovery_lost = Some Main_Waiting" by code_simp
  then show ?thesis
    using asking_for_discovery_breaks_it [OF demo_clients(3) demo_gets(3) client_run.finished] by simp
qed




text \<open>C36: The shutdown of the manager goes through its hash map in an order nobody knows. In every
  reachable state the outcome is the same for all orders: if every conversation that is still active can
  be shut down, all of them are, as if it were done at once; otherwise the process ends.\<close>

theorem shutdown_in_any_order:
  assumes "client_reachable net b read_json path c" and "dcm_instance c = Some d"
    and "mset order = mset (conversation_map (conversation_mgr d))"
  shows "shutdown_all net order (conversation_mgr d) = ConversationManager_Shutdown net (conversation_mgr d) \<and>
    ConversationManager_Shutdown net (conversation_mgr d) =
      (if \<forall>a v. objects (conversation_mgr d) a = Some v \<longrightarrow> stops (net a) v
       then Inr ((conversation_mgr d)\<lparr>objects := (\<lambda>a. map_option stop_conversation (objects (conversation_mgr d) a))\<rparr>)
       else Inl Uncaught_Exception)"
proof -
  have ok: "objects_owned (conversation_mgr d)"
    using dcm_okD(2) [OF client_okD [OF client_reachable_ok [OF assms(1)] assms(2)]] .
  have "set order = set (conversation_map (conversation_mgr d))" using assms(3) by (rule mset_eq_setD)
  from shutdown_all_owned [OF ok this] shutdown_all_owned [OF ok refl] show ?thesis
    by (simp add: ConversationManager_Shutdown_def all_stop_def stop_at_def)
qed

theorem shutdown_in_any_order_witness:
  "\<exists>d. dcm_instance demo_running = Some d \<and>
     shutdown_all demo_net (rev demo_map) (conversation_mgr d) = ConversationManager_Shutdown demo_net (conversation_mgr d)"
proof -
  from demo_instances(2) obtain d where d: "dcm_instance demo_running = Some d" "conversation_map (conversation_mgr d) = demo_map"
    by blast
  from shutdown_in_any_order [OF demo_clients(6) d(1), of "rev demo_map"] d show ?thesis by simp
qed

text \<open>C37: The shutdown of a client whose main thread waits comes to an end: the main thread sees the
  request, shuts down vehicle discovery and every conversation the application left active, and is joined;
  afterwards no conversation is active. The only ways in which it does not return are that the process ends
  because the discovery conversation was replaced or because one of the conversations cannot be shut down.\<close>

theorem deinitialisation_ends:
  assumes "client_reachable net b read_json path c" and "dcm_instance c = Some d"
    and "dcm_thread c = Some Main_Waiting"
  shows "case DiagClient_DeInitialize net c of
      Inr (r, c') \<Rightarrow> r = FromValue () \<and> dcm_thread c' = None \<and> exit_requested c' \<and>
        (\<exists>d'. dcm_instance c' = Some d' \<and> conversation_map (conversation_mgr d') = conversation_map (conversation_mgr d) \<and>
           (\<forall>a. objects (conversation_mgr d') a = map_option stop_conversation (objects (conversation_mgr d) a)) \<and>
           (\<forall>a v. objects (conversation_mgr d') a = Some v \<longrightarrow> GetActivityStatus v = kInactive))
    | Inl Use_After_Free \<Rightarrow> objects (conversation_mgr d) (vehicle_discovery_conversation d) = None
    | Inl Uncaught_Exception \<Rightarrow> \<exists>a v. objects (conversation_mgr d) a = Some v \<and> \<not> stops (net a) v
    | Inl e \<Rightarrow> False"
proof -
  have ok: "dcm_ok net d" using client_reachable_ok [OF assms(1)] assms(2) by (rule client_okD)
  show ?thesis
    using DeInitialize_eq [OF assms(2) ok assms(3)]
    by (auto simp: live_def assms(2) stop_at_def all_stop_def)
qed

theorem deinitialisation_ends_witness:
  "\<exists>c'. DiagClient_DeInitialize demo_net demo_running = Inr (FromValue (), c') \<and> dcm_thread c' = None"
proof -
  from demo_instances(2) obtain d where d: "dcm_instance demo_running = Some d" by blast
  have "dcm_thread demo_running = Some Main_Waiting" by code_simp
  moreover have "case DiagClient_DeInitialize demo_net demo_running of Inl e \<Rightarrow> False | Inr rc \<Rightarrow> True" by code_simp
  ultimately show ?thesis
    using deinitialisation_ends [OF demo_clients(6) d] by (auto split: sum.splits prod.splits)
qed

text \<open>C38: The configuration: the reserved name stands for vehicle discovery with the addresses of the
  configuration, every other name for the first of the counted conversations that has it, with its timing,
  buffer and addresses; a count beyond the list is an access out of bounds. Whether a conversation asks for
  TLS makes no difference.\<close>

theorem configuration_of_conversations:
  "case new_ConversationManager base config of
      Inl e \<Rightarrow> e = Vector_Out_Of_Bounds \<and> length (conversations config) < unat (num_of_conversation config)
    | Inr m \<Rightarrow> unat (num_of_conversation config) \<le> length (conversations config) \<and>
        (\<forall>name. type_of m name =
          (if name = kVdConversationName then
             Some (VD_Type \<lparr>conf_udp_address = udp_ip_address config,
               conf_udp_broadcast_address = udp_broadcast_address config,
               conf_udp_port_num = 0, conf_udp_handler_id = 0\<rparr>)
           else map_option (\<lambda>cv. DM_Type \<lparr>conf_p2_client_max = ct_p2_client_max cv,
               conf_p2_star_client_max = ct_p2_star_client_max cv, conf_source_address = ct_source_address cv,
               conf_rx_buffer_size = ucast (ct_rx_buffer_size cv), conf_tcp_address = tcp_ip_address (network cv),
               conf_port_num = 0, conf_handler_id = 0\<rparr>)
             (find (\<lambda>cv. conversation_name cv = name) (take (unat (num_of_conversation config)) (conversations config))))) \<and>
        (\<forall>a. objects m a = None)"
proof (cases "new_ConversationManager base config")
  case (Inl e)
  then show ?thesis by (simp add: new_ConversationManager_def StoreConversationConfig_eq split: if_splits)
next
  case (Inr m)
  note n = new_ConversationManager_ok [OF Inr]
  have len: "unat (num_of_conversation config) \<le> length (conversations config)" and none: "objects m = (\<lambda>a. None)"
    using Inr by (auto simp: new_ConversationManager_def StoreConversationConfig_eq split: if_splits)
  have "map_of (map (\<lambda>c. (conversation_name c, dm_storage c)) cs) name =
      map_option dm_storage (find (\<lambda>cv. conversation_name cv = name) cs)" for cs name
    by (induction cs) simp_all
  then have "type_of m name = (if name = kVdConversationName then Some (conversation_type (vd_storage config))
      else map_option (conversation_type \<circ> dm_storage)
        (find (\<lambda>cv. conversation_name cv = name) (take (unat (num_of_conversation config)) (conversations config))))" for name
    by (simp add: type_of_def n(4) configured_def option.map_comp)
  then show ?thesis
    by (simp add: Inr len none comp_def) (simp add: vd_storage_def dm_storage_def kRandomPortNumber_def)
qed

end
