(* ===== verification/Transport_Properties.thy ===== *)
theory Transport_Properties
  imports Tls_Transport Scenario
begin

text \<open>
  Properties of the TLS transport and of the servers: what a TLS read delivers, which cipher suites a
  TLS context ends up with, and how the servers of an acceptor are named.
\<close>

section \<open>Lists of cipher suites\<close>

fun split_colon :: "string \<Rightarrow> string list" where
  "split_colon [] = [[]]"
| "split_colon (c # s) =
     (if c = CHR '':'' then [] # split_colon s
      else case split_colon s of [] \<Rightarrow> [[c]] | x # xs \<Rightarrow> (c # x) # xs)"

lemma split_colon_append: "CHR '':'' \<notin> set a \<Longrightarrow> split_colon (a @ CHR '':'' # b) = a # split_colon b"
  by (induction a) auto

lemma split_colon_plain: "CHR '':'' \<notin> set a \<Longrightarrow> split_colon a = [a]"
  by (induction a) auto

lemma ConvertCipherListToString_from:
  assumes "\<And>c. f c \<noteq> []" and "acc \<noteq> []"
  shows "foldl (\<lambda>result cipher. if result = [] then f cipher else result @ '':'' @ f cipher) acc cs =
    acc @ concat (map (\<lambda>c. '':'' @ f c) cs)"
  using assms(2) by (induction cs arbitrary: acc) simp_all

lemma split_joined:
  assumes "\<And>c. CHR '':'' \<notin> set (f c)" and "CHR '':'' \<notin> set a"
  shows "split_colon (a @ concat (map (\<lambda>c. '':'' @ f c) cs)) = a # map f cs"
  using assms(2)
proof (induction cs arbitrary: a)
  case (Cons c cs)
  then show ?case using Cons.IH [OF assms(1) [of c]] by (simp add: split_colon_append)
qed (simp add: split_colon_plain)

lemma split_cipher_list:
  assumes "\<And>c. f c \<noteq> []" and "\<And>c. CHR '':'' \<notin> set (f c)" and "cs \<noteq> []"
  shows "split_colon (ConvertCipherListToString f cs) = map f cs"
proof -
  obtain c cs' where cs: "cs = c # cs'" using assms(3) by (cases cs) auto
  have "ConvertCipherListToString f cs = f c @ concat (map (\<lambda>c. '':'' @ f c) cs')"
    using ConvertCipherListToString_from [of f "f c" cs'] assms(1) by (simp add: cs ConvertCipherListToString_def)
  with split_joined [of f "f c" cs'] assms(2) show ?thesis by (simp add: cs)
qed

lemma suite_names:
  "ToOpenSslString12 c \<noteq> []" "CHR '':'' \<notin> set (ToOpenSslString12 c)"
  "ToOpenSslString13 d \<noteq> []" "CHR '':'' \<notin> set (ToOpenSslString13 d)"
  by (cases c; simp)+ (cases d; simp)+

lemma suites_differ: "ToOpenSslString12 c \<noteq> ToOpenSslString13 d"
  by (cases c; cases d) simp_all

text \<open>
  What the OpenSSL manual says of \<open>SSL_CTX_set_ciphersuites\<close>: it takes a list of names of TLS 1.3 suites
  separated by colons, and refuses a list with any other name.
\<close>

definition documented_ciphersuites :: "openssl \<Rightarrow> bool" where
  "documented_ciphersuites ssl \<longleftrightarrow>
     (\<forall>s. s \<noteq> [] \<longrightarrow> SSL_CTX_set_ciphersuites ssl s = (set (split_colon s) \<subseteq> range ToOpenSslString13))"

definition demo_ssl :: openssl where
  "demo_ssl = \<lparr>load_verify_file = (\<lambda>p. True), use_certificate_chain_file = (\<lambda>p. True), use_private_key_file = (\<lambda>p. True),
     SSL_CTX_set_cipher_list = (\<lambda>s. True),
     SSL_CTX_set_ciphersuites = (\<lambda>s. set (split_colon s) \<subseteq> range ToOpenSslString13)\<rparr>"

text \<open>The cipher suites of a TLS context. A context for TLS 1.3, client or server, gets exactly the suites
  asked for. A context for a TLS 1.2 server never gets any of them, because the list is given to the setter
  of the TLS 1.3 suites, whose refusal is ignored: the server runs with the defaults of OpenSSL. Only the TLS
  1.2 client gives its list to the setter meant for it.\<close>

theorem cipher_suites_of_contexts:
  assumes "documented_ciphersuites ssl" and "suites12 \<noteq> []" and "suites13 \<noteq> []"
    and "load_verify_file ssl ca" and "use_certificate_chain_file ssl cert" and "use_private_key_file ssl key"
  shows "TlsContext_Tls12Server ssl suites12 cert key = Inr \<lparr>ctx_cipher_list = None, ctx_ciphersuites = None\<rparr> \<and>
    (\<exists>s. split_colon s = map ToOpenSslString13 suites13 \<and>
       TlsContext_Tls13Server ssl suites13 cert key = Inr \<lparr>ctx_cipher_list = None, ctx_ciphersuites = Some s\<rparr> \<and>
       TlsContext_Tls13Client ssl suites13 ca = Inr \<lparr>ctx_cipher_list = None, ctx_ciphersuites = Some s\<rparr>) \<and>
    (\<exists>s. split_colon s = map ToOpenSslString12 suites12 \<and>
       TlsContext_Tls12Client ssl suites12 ca =
         Inr \<lparr>ctx_cipher_list = (if SSL_CTX_set_cipher_list ssl s then Some s else None), ctx_ciphersuites = None\<rparr>)"
proof -
  let ?s12 = "ConvertCipherListToString ToOpenSslString12 suites12"
  let ?s13 = "ConvertCipherListToString ToOpenSslString13 suites13"
  have sp12: "split_colon ?s12 = map ToOpenSslString12 suites12"
    by (rule split_cipher_list) (use suite_names assms(2) in auto)
  have sp13: "split_colon ?s13 = map ToOpenSslString13 suites13"
    by (rule split_cipher_list) (use suite_names assms(3) in auto)
  have "hd (split_colon ?s12) \<noteq> []" "hd (split_colon ?s13) \<noteq> []"
    using assms(2,3) suite_names(1,3) by (simp_all add: sp12 sp13 hd_map)
  then have ne: "?s12 \<noteq> []" "?s13 \<noteq> []" by auto
  have "\<not> set (map ToOpenSslString12 suites12) \<subseteq> range ToOpenSslString13"
    using assms(2) suites_differ by (cases suites12) auto
  with assms(1) ne(1) sp12 have "\<not> SSL_CTX_set_ciphersuites ssl ?s12" by (simp add: documented_ciphersuites_def)
  moreover from assms(1) ne(2) sp13 have "SSL_CTX_set_ciphersuites ssl ?s13"
    by (auto simp: documented_ciphersuites_def)
  ultimately show ?thesis
    using sp12 sp13 assms(4-6)
    by (auto simp: TlsContext_Tls12Server_def TlsContext_Tls13Server_def TlsContext_Tls13Client_def TlsContext_Tls12Client_def
        set_ciphersuites_def set_cipher_list_def fresh_context_def)
qed

theorem cipher_suites_of_contexts_witness:
  "TlsContext_Tls12Server demo_ssl [TLS_ECDHE_ECDSA_WITH_AES_256_GCM_SHA384] ''cert.pem'' ''key.pem'' =
     Inr \<lparr>ctx_cipher_list = None, ctx_ciphersuites = None\<rparr>"
proof -
  have "documented_ciphersuites demo_ssl" by (simp add: documented_ciphersuites_def demo_ssl_def)
  from cipher_suites_of_contexts [OF this, of "[TLS_ECDHE_ECDSA_WITH_AES_256_GCM_SHA384]" "[TLS_AES_256_GCM_SHA384]"
      "''ca.pem''" "''cert.pem''" "''key.pem''"]
  show ?thesis by (simp add: demo_ssl_def)
qed

section \<open>Reading from a TLS stream\<close>

text \<open>C39: The TLS read never delivers the body of a message. For every complete frame with a non-zero length
  it either ends the process (\<open>operator[]\<close> is used past the end of the buffer) or, where that is tolerated,
  hands on the eight header bytes alone and leaves the body in the stream, where the next read takes it for
  a header.\<close>

theorem tls_read_leaves_the_body:
  assumes "asio_reads rd unread" and "unread s = f @ rest" and "well_framed f"
    and "\<And>s'. peer s' = Some (ip, port)"
  shows "TlsSocket_Read False rd peer s = Inl Vector_Out_Of_Bounds \<and>
    (\<exists>s'. TlsSocket_Read True rd peer s = Inr (FromValue (ip, port, take 8 f), s') \<and> unread s' = drop 8 f @ rest)"
proof -
  have f: "length f = 8 + unat (read_next_bytes f)" "read_next_bytes f \<noteq> 0"
    using assms(3) by (simp_all add: well_framed_def)
  have u: "8 \<le> length (unread s)" using assms(2) f(1) by simp
  obtain s1 where r1: "rd 8 s = (ec_success, take 8 f, s1)" and u1: "unread s1 = drop 8 f @ rest"
    using asio_readsD [OF assms(1) u] assms(2) f(1) by auto
  obtain s2 where r2: "rd 0 s1 = (ec_success, [], s2)" and u2: "unread s2 = unread s1"
    using asio_readsD [OF assms(1), of 0 s1] by auto
  have hdr: "read_into 0 (take 8 f) (vector_resize 8 []) = take 8 f" "vector_resize 8 (take 8 f) = take 8 f"
    "read_into 8 [] (take 8 f) = take 8 f"
    using f(1) by (simp_all add: read_into_def vector_resize_def)
  have len: "length (take 8 f) = 8" "read_next_bytes (take 8 f) \<noteq> 0" using f by (simp_all add: take_8_header)
  have "TlsSocket_Read False rd peer s = Inl Vector_Out_Of_Bounds"
    using len(2) by (simp add: TlsSocket_Read_def doip_consts Let_def r1 hdr assms(4))
  moreover have "TlsSocket_Read True rd peer s = Inr (FromValue (ip, port, take 8 f), s2)"
    using len by (simp add: TlsSocket_Read_def doip_consts Let_def r1 r2 hdr assms(4) EmplaceValue_def)
  ultimately show ?thesis using u1 u2 by auto
qed

theorem tls_read_leaves_the_body_witness:
  "TlsSocket_Read False list_read (\<lambda>s. Some (''172.16.25.128'', 13400)) (response_frame @ ack_frame) = Inl Vector_Out_Of_Bounds \<and>
   TlsSocket_Read True list_read (\<lambda>s. Some (''172.16.25.128'', 13400)) (response_frame @ ack_frame) =
     Inr (FromValue (''172.16.25.128'', 13400, [0x03, 0xFC, 0x80, 0x01, 0, 0, 0, 7]), drop 8 response_frame @ ack_frame)"
proof -
  have "well_framed response_frame" "take 8 response_frame = [0x03, 0xFC, 0x80, 0x01, 0, 0, 0, 7]"
    unfolding well_framed_def by code_simp+
  with tls_read_leaves_the_body [OF asio_reads_list_read refl, of response_frame
      "\<lambda>s. Some (''172.16.25.128'', 13400)" "''172.16.25.128''" 13400 ack_frame]
  show ?thesis by auto
qed

section \<open>Names of servers\<close>

text \<open>The servers an acceptor hands out for a sequence of accepts, in order.\<close>

fun servers :: "bool list \<Rightarrow> acceptor \<Rightarrow> tcp_server list" where
  "servers [] a = []"
| "servers (ok # accepts) a =
     (case GetTcpServer True ok a of
        Inr (Some s, a') \<Rightarrow> s # servers accepts a'
      | Inr (None, a') \<Rightarrow> servers accepts a'
      | Inl e \<Rightarrow> [])"

lemma servers_nth:
  "i < length (servers accepts a) \<Longrightarrow>
   server_name (servers accepts a ! i) = acceptor_name a @ to_string (unat (server_count a + word_of_nat i))"
proof (induction accepts arbitrary: a i)
  case (Cons ok accepts)
  show ?case
  proof (cases ok)
    case True
    with Cons show ?thesis
      by (cases i) (simp_all add: GetTcpServer_def new_TcpServer_def CreateServerName_def ac_simps)
  qed (use Cons in \<open>simp add: GetTcpServer_def\<close>)
qed simp

text \<open>The count in the names of the servers of an acceptor has sixteen bits: two of the servers it hands
  out have the same name exactly if the numbers of servers handed out before them agree modulo 65536.
  Failed accepts do not count.\<close>

theorem server_names_repeat:
  assumes "new_acceptor True True name = Inr a"
    and "i < length (servers accepts a)" and "j < length (servers accepts a)"
  shows "server_name (servers accepts a ! i) = server_name (servers accepts a ! j) \<longleftrightarrow> i mod 65536 = j mod 65536"
proof -
  have a: "acceptor_name a = name" "server_count a = 0" using assms(1) by (auto simp: new_acceptor_def)
  have "unat (word_of_nat k :: u16) = k mod 65536" for k by (simp add: unat_of_nat)
  then show ?thesis using assms(2,3) by (simp add: servers_nth a to_string_inj)
qed

theorem server_names_repeat_witness:
  "\<exists>a. new_acceptor True True ''TcpAcceptor'' = Inr a \<and>
     server_name (servers [True, False, True] a ! 0) \<noteq> server_name (servers [True, False, True] a ! 1)"
proof -
  obtain a where a: "new_acceptor True True ''TcpAcceptor'' = Inr a" by (simp add: new_acceptor_def)
  have "length (servers [True, False, True] a) = 2" by (simp add: GetTcpServer_def)
  with server_names_repeat [OF a, of 0 "[True, False, True]" 1] a show ?thesis by (auto simp del: servers.simps)
qed

end
