(* ===== verification/Thread_Loops.thy ===== *)
theory Thread_Loops
  imports Prelude
begin

text \<open>
  The threads of the library, step by step: the thread that reads messages
  (\<open>connection/tcp/tcp_connection.h\<close>), the thread of the I/O context (\<open>socket/io_context.cpp\<close>), both the
  same loop over two flags and a condition variable, and the executor (\<open>utility/executor.h\<close>). Each step is
  one look at the flags or one change of what the threads share.
\<close>

section \<open>The loop over two flags\<close>

text \<open>Where the thread is. It holds the mutex at the first four points.\<close>

datatype loop_pc =
    Loop_Head      \<comment> \<open>before the condition of the loop\<close>
  | Predicate      \<comment> \<open>in the wait, before its predicate\<close>
  | Blocking       \<comment> \<open>the predicate was false, the thread has not gone to sleep yet\<close>
  | After_Wait     \<comment> \<open>before the flags are tested again\<close>
  | Blocked
  | Woken
  | Working        \<comment> \<open>in \<open>ReadMessage\<close>, in \<open>run\<close>\<close>
  | Worked bool    \<comment> \<open>it returned this\<close>
  | Relocking
  | Finished

definition holds_mutex :: "loop_pc \<Rightarrow> bool" where
  "holds_mutex p \<longleftrightarrow> p \<in> {Loop_Head, Predicate, Blocking, After_Wait}"

text \<open>How far the owner is with taking the thread down; after the last phase it joins the thread.\<close>

datatype owner_phase = Owner_Active | Exit_Set | Flags_Set | Notified

record loop_thread =
  lp_exit :: bool
  lp_running :: bool
  lp_pc :: loop_pc
  lp_owner :: owner_phase

text \<open>The steps of the thread; \<open>stores\<close> tells whether what the work returns is stored in \<open>running_\<close>.\<close>

inductive loop_step :: "bool \<Rightarrow> loop_thread \<Rightarrow> loop_thread \<Rightarrow> bool" for stores where
  leave: "lp_pc w = Loop_Head \<Longrightarrow> lp_exit w \<Longrightarrow> loop_step stores w (w\<lparr>lp_pc := Finished\<rparr>)"
| no_wait: "lp_pc w = Loop_Head \<Longrightarrow> \<not> lp_exit w \<Longrightarrow> lp_running w \<Longrightarrow> loop_step stores w (w\<lparr>lp_pc := After_Wait\<rparr>)"
| wait: "lp_pc w = Loop_Head \<Longrightarrow> \<not> lp_exit w \<Longrightarrow> \<not> lp_running w \<Longrightarrow> loop_step stores w (w\<lparr>lp_pc := Predicate\<rparr>)"
| holds: "lp_pc w = Predicate \<Longrightarrow> lp_exit w \<or> lp_running w \<Longrightarrow> loop_step stores w (w\<lparr>lp_pc := After_Wait\<rparr>)"
| fails: "lp_pc w = Predicate \<Longrightarrow> \<not> lp_exit w \<Longrightarrow> \<not> lp_running w \<Longrightarrow> loop_step stores w (w\<lparr>lp_pc := Blocking\<rparr>)"
| block: "lp_pc w = Blocking \<Longrightarrow> loop_step stores w (w\<lparr>lp_pc := Blocked\<rparr>)"
| wake: "lp_pc w = Woken \<Longrightarrow> loop_step stores w (w\<lparr>lp_pc := Predicate\<rparr>)"
| begin_work: "lp_pc w = After_Wait \<Longrightarrow> \<not> lp_exit w \<Longrightarrow> lp_running w \<Longrightarrow> loop_step stores w (w\<lparr>lp_pc := Working\<rparr>)"
| no_work: "lp_pc w = After_Wait \<Longrightarrow> lp_exit w \<or> \<not> lp_running w \<Longrightarrow> loop_step stores w (w\<lparr>lp_pc := Loop_Head\<rparr>)"
| end_work: "lp_pc w = Working \<Longrightarrow> loop_step stores w (w\<lparr>lp_pc := Worked ok\<rparr>)"
| store: "lp_pc w = Worked ok \<Longrightarrow>
    loop_step stores w (w\<lparr>lp_running := (if stores then ok else lp_running w), lp_pc := Relocking\<rparr>)"
| relock: "lp_pc w = Relocking \<Longrightarrow> loop_step stores w (w\<lparr>lp_pc := Loop_Head\<rparr>)"

inductive_cases loop_stepE: "loop_step stores w w'"

definition loop_notify_all :: "loop_thread \<Rightarrow> loop_thread" where
  "loop_notify_all w = (if lp_pc w = Blocked then w\<lparr>lp_pc := Woken\<rparr> else w)"

definition new_loop :: loop_thread where
  "new_loop = \<lparr>lp_exit = False, lp_running = False, lp_pc = Loop_Head, lp_owner = Owner_Active\<rparr>"

lemma notify_fields [simp]:
  "lp_exit (loop_notify_all w) = lp_exit w" "lp_running (loop_notify_all w) = lp_running w"
  "lp_owner (loop_notify_all w) = lp_owner w" "lp_pc (loop_notify_all w) = (if lp_pc w = Blocked then Woken else lp_pc w)"
  by (simp_all add: loop_notify_all_def)

section \<open>The reader thread of a TCP connection\<close>

definition on_connected :: "loop_thread \<Rightarrow> loop_thread" where
  "on_connected w = loop_notify_all (w\<lparr>lp_running := True\<rparr>)"

text \<open>The owner changes the flags under the mutex; it notifies the thread of the exit without it.\<close>

inductive reader_run_step :: "loop_thread \<Rightarrow> loop_thread \<Rightarrow> bool" where
  thread: "loop_step True w w' \<Longrightarrow> reader_run_step w w'"
| connect: "lp_owner w = Owner_Active \<Longrightarrow> \<not> holds_mutex (lp_pc w) \<Longrightarrow> reader_run_step w (on_connected w)"
| disconnect: "lp_owner w = Owner_Active \<Longrightarrow> \<not> holds_mutex (lp_pc w) \<Longrightarrow>
    reader_run_step w (w\<lparr>lp_running := False\<rparr>)"
| deinit: "lp_owner w = Owner_Active \<Longrightarrow> \<not> holds_mutex (lp_pc w) \<Longrightarrow>
    reader_run_step w (w\<lparr>lp_exit := True, lp_running := False, lp_owner := Flags_Set\<rparr>)"
| notify: "lp_owner w = Flags_Set \<Longrightarrow> reader_run_step w ((loop_notify_all w)\<lparr>lp_owner := Notified\<rparr>)"

definition reader_reachable :: "loop_thread \<Rightarrow> bool" where
  "reader_reachable w \<longleftrightarrow> reader_run_step\<^sup>*\<^sup>* new_loop w"

text \<open>
  Once the flags are set no thread is about to sleep on an old look at them, and once it is notified none
  sleeps; a thread ends only when asked to.
\<close>

definition reader_loop_inv :: "loop_thread \<Rightarrow> bool" where
  "reader_loop_inv w \<longleftrightarrow> (lp_exit w \<longleftrightarrow> lp_owner w \<noteq> Owner_Active) \<and> (lp_pc w = Finished \<longrightarrow> lp_exit w) \<and>
     (lp_owner w \<noteq> Owner_Active \<longrightarrow> lp_pc w \<noteq> Blocking) \<and> (lp_owner w = Notified \<longrightarrow> lp_pc w \<noteq> Blocked)"

lemma reader_loop_inv_step: "reader_run_step w w' \<Longrightarrow> reader_loop_inv w \<Longrightarrow> reader_loop_inv w'"
  by (induction rule: reader_run_step.induct)
     (auto simp: reader_loop_inv_def holds_mutex_def on_connected_def elim!: loop_stepE)

lemma reader_reachable_inv: "reader_reachable w \<Longrightarrow> reader_loop_inv w"
  unfolding reader_reachable_def
proof (induction rule: rtranclp_induct)
  case base
  show ?case by (simp add: reader_loop_inv_def new_loop_def)
qed (use reader_loop_inv_step in blast)

text \<open>How many steps of its own the thread is from its end, once it is asked to exit.\<close>

fun steps_to_exit :: "loop_pc \<Rightarrow> nat" where
  "steps_to_exit Finished = 0"
| "steps_to_exit Loop_Head = 1"
| "steps_to_exit After_Wait = 2"
| "steps_to_exit Relocking = 2"
| "steps_to_exit Predicate = 3"
| "steps_to_exit (Worked ok) = 3"
| "steps_to_exit Woken = 4"
| "steps_to_exit Working = 4"
| "steps_to_exit Blocking = 5"
| "steps_to_exit Blocked = 5"

lemma exit_step:
  assumes "loop_step stores w w'" and "lp_exit w" and "lp_pc w \<notin> {Blocking, Blocked}"
  shows "Suc (steps_to_exit (lp_pc w')) = steps_to_exit (lp_pc w) \<and> lp_exit w' \<and> lp_pc w' \<notin> {Blocking, Blocked}"
  using assms by (auto elim!: loop_stepE)

lemma thread_not_stuck: "lp_pc w \<notin> {Blocked, Finished} \<Longrightarrow> \<exists>w'. loop_step stores w w'"
  by (cases "lp_pc w"; cases "lp_exit w"; cases "lp_running w") (fastforce intro: loop_step.intros)+

lemma exit_steps:
  "(loop_step stores ^^ n) w w' \<Longrightarrow> lp_exit w \<Longrightarrow> lp_pc w \<notin> {Blocking, Blocked} \<Longrightarrow>
   n + steps_to_exit (lp_pc w') = steps_to_exit (lp_pc w) \<and> lp_exit w' \<and> lp_pc w' \<notin> {Blocking, Blocked}"
proof (induction n arbitrary: w')
  case (Suc n)
  then obtain v where v: "(loop_step stores ^^ n) w v" "loop_step stores v w'" by auto
  with exit_step [OF v(2)] Suc.IH [OF v(1) Suc.prems(2,3)] show ?case by auto
qed simp

lemma at_most_four: "p \<notin> {Blocking, Blocked} \<Longrightarrow> steps_to_exit p \<le> 4"
  by (cases p) auto

text \<open>C18: Taking down the reader thread of a TCP connection cannot hang. Once the owner has set the flags
  and notified the thread, in any interleaving, the thread ends after at most four steps of its own, of
  which the only one it does not take by itself is the return from a read that was going on.\<close>

theorem reader_thread_ends:
  assumes "reader_reachable w" and "lp_owner w = Notified" and "(loop_step True ^^ n) w w'"
  shows "n \<le> 4 \<and> (lp_pc w' = Finished \<or> (\<exists>v. loop_step True w' v))"
proof -
  have "lp_exit w" "lp_pc w \<notin> {Blocking, Blocked}"
    using reader_reachable_inv [OF assms(1)] assms(2) by (auto simp: reader_loop_inv_def)
  with exit_steps [OF assms(3)] at_most_four [of "lp_pc w"] thread_not_stuck [of w' True] show ?thesis by fastforce
qed

text \<open>A run: the thread falls asleep, is connected, reads, and is taken down while it reads.\<close>

definition asleep :: loop_thread where
  "asleep = new_loop\<lparr>lp_pc := Blocked\<rparr>"

definition reading :: loop_thread where
  "reading = new_loop\<lparr>lp_running := True, lp_pc := Working\<rparr>"

lemma thread_path:
  "loop_step stores w v \<Longrightarrow> (loop_step stores)\<^sup>*\<^sup>* v u \<Longrightarrow> (loop_step stores)\<^sup>*\<^sup>* w u"
  by (rule converse_rtranclp_into_rtranclp)

lemma thread_runs: "(loop_step True)\<^sup>*\<^sup>* w w' \<Longrightarrow> reader_run_step\<^sup>*\<^sup>* w w'"
  by (rule rtranclp_mono [THEN predicate2D]) (auto intro: reader_run_step.thread)

lemma falls_asleep: "(loop_step stores)\<^sup>*\<^sup>* new_loop asleep"
proof -
  have "loop_step stores new_loop (new_loop\<lparr>lp_pc := Predicate\<rparr>)"
    by (rule loop_step.wait) (simp_all add: new_loop_def)
  moreover have "loop_step stores (new_loop\<lparr>lp_pc := Predicate\<rparr>) (new_loop\<lparr>lp_pc := Blocking\<rparr>)"
    using loop_step.fails [of "new_loop\<lparr>lp_pc := Predicate\<rparr>" stores] by (simp add: new_loop_def)
  moreover have "loop_step stores (new_loop\<lparr>lp_pc := Blocking\<rparr>) asleep"
    using loop_step.block [of "new_loop\<lparr>lp_pc := Blocking\<rparr>" stores] by (simp add: asleep_def)
  ultimately show ?thesis by (meson thread_path rtranclp.rtrancl_refl)
qed

lemma gets_to_work:
  assumes "lp_running w" and "\<not> lp_exit w" and "lp_pc w \<in> {Woken, Predicate, After_Wait, Loop_Head, Relocking, Worked True, Working}"
  shows "(loop_step True)\<^sup>*\<^sup>* w (w\<lparr>lp_pc := Working\<rparr>)"
proof -
  have after: "(loop_step True)\<^sup>*\<^sup>* (w\<lparr>lp_pc := After_Wait\<rparr>) (w\<lparr>lp_pc := Working\<rparr>)"
    using loop_step.begin_work [of "w\<lparr>lp_pc := After_Wait\<rparr>" True] assms(1,2) by auto
  have pred: "(loop_step True)\<^sup>*\<^sup>* (w\<lparr>lp_pc := Predicate\<rparr>) (w\<lparr>lp_pc := Working\<rparr>)"
    using loop_step.holds [of "w\<lparr>lp_pc := Predicate\<rparr>" True] assms(1,2) by (intro thread_path [OF _ after]) auto
  have head: "(loop_step True)\<^sup>*\<^sup>* (w\<lparr>lp_pc := Loop_Head\<rparr>) (w\<lparr>lp_pc := Working\<rparr>)"
    using loop_step.no_wait [of "w\<lparr>lp_pc := Loop_Head\<rparr>" True] assms(1,2) by (intro thread_path [OF _ after]) auto
  have relock: "(loop_step True)\<^sup>*\<^sup>* (w\<lparr>lp_pc := Relocking\<rparr>) (w\<lparr>lp_pc := Working\<rparr>)"
    using loop_step.relock [of "w\<lparr>lp_pc := Relocking\<rparr>" True] by (intro thread_path [OF _ head]) auto
  have w: "w = w\<lparr>lp_pc := lp_pc w\<rparr>" by simp
  from assms(3) consider "lp_pc w = Woken" | "lp_pc w = Worked True" | "lp_pc w \<in> {Predicate, After_Wait, Loop_Head, Relocking, Working}"
    by auto
  then show ?thesis
  proof cases
    case 1
    show ?thesis by (rule thread_path [OF loop_step.wake [OF 1] pred])
  next
    case 2
    have "w\<lparr>lp_running := True\<rparr> = w" using assms(1) by simp
    then show ?thesis using loop_step.store [OF 2, of True] by (intro thread_path [OF _ relock]) simp
  next
    case 3
    with pred after head relock w show ?thesis by (metis insertE rtranclp.rtrancl_refl singletonD)
  qed
qed

text \<open>A thread whose read has failed stores that, whatever was set meanwhile, and falls asleep.\<close>

definition going_to_sleep :: "loop_thread \<Rightarrow> bool" where
  "going_to_sleep w \<longleftrightarrow> \<not> lp_exit w \<and>
     (lp_pc w = Worked False \<or> (lp_pc w \<in> {Relocking, Loop_Head, Predicate, Blocking, Blocked} \<and> \<not> lp_running w))"

lemma going_to_sleep_step: "loop_step True w v \<Longrightarrow> going_to_sleep w \<Longrightarrow> going_to_sleep v"
  by (erule loop_stepE) (auto simp: going_to_sleep_def)

lemma going_to_sleep_run: "(loop_step True)\<^sup>*\<^sup>* w v \<Longrightarrow> going_to_sleep w \<Longrightarrow> going_to_sleep v"
  by (induction rule: rtranclp_induct) (use going_to_sleep_step in blast)+

lemma falls_asleep_from:
  assumes "lp_pc w = Worked False" and "\<not> lp_exit w"
  shows "(loop_step True)\<^sup>*\<^sup>* w (w\<lparr>lp_running := False, lp_pc := Blocked\<rparr>)"
proof -
  let ?v = "\<lambda>p. w\<lparr>lp_running := False, lp_pc := p\<rparr>"
  have "loop_step True w (?v Relocking)" using loop_step.store [OF assms(1), of True] by simp
  moreover have "loop_step True (?v Relocking) (?v Loop_Head)" using loop_step.relock [of "?v Relocking" True] by simp
  moreover have "loop_step True (?v Loop_Head) (?v Predicate)" using loop_step.wait [of "?v Loop_Head" True] assms(2) by simp
  moreover have "loop_step True (?v Predicate) (?v Blocking)" using loop_step.fails [of "?v Predicate" True] assms(2) by simp
  moreover have "loop_step True (?v Blocking) (?v Blocked)" using loop_step.block [of "?v Blocking" True] by simp
  ultimately show ?thesis by (meson thread_path rtranclp.rtrancl_refl)
qed


lemma reading_reachable: "reader_reachable asleep" "reader_reachable reading"
proof -
  have a: "reader_run_step\<^sup>*\<^sup>* new_loop asleep" by (rule thread_runs [OF falls_asleep])
  have "reader_run_step asleep (on_connected asleep)"
    by (rule reader_run_step.connect) (simp_all add: asleep_def new_loop_def holds_mutex_def)
  moreover have "(loop_step True)\<^sup>*\<^sup>* (on_connected asleep) reading"
    using gets_to_work [of "on_connected asleep"]
    by (simp add: on_connected_def asleep_def reading_def new_loop_def loop_notify_all_def)
  ultimately have "reader_run_step\<^sup>*\<^sup>* new_loop reading"
    using a thread_runs by (meson rtranclp.rtrancl_into_rtrancl rtranclp_trans)
  with a show "reader_reachable asleep" "reader_reachable reading" by (simp_all add: reader_reachable_def)
qed

theorem reader_thread_ends_witness:
  "\<exists>w. reader_reachable w \<and> lp_pc w = Working \<and> lp_owner w = Notified \<and> \<not> (\<exists>v. (loop_step True ^^ 5) w v)"
proof -
  let ?w = "reading\<lparr>lp_exit := True, lp_running := False, lp_owner := Notified\<rparr>"
  have "reader_run_step reading (reading\<lparr>lp_exit := True, lp_running := False, lp_owner := Flags_Set\<rparr>)"
    by (rule reader_run_step.deinit) (simp_all add: reading_def new_loop_def holds_mutex_def)
  moreover have "reader_run_step (reading\<lparr>lp_exit := True, lp_running := False, lp_owner := Flags_Set\<rparr>) ?w"
    using reader_run_step.notify [of "reading\<lparr>lp_exit := True, lp_running := False, lp_owner := Flags_Set\<rparr>"]
    by (simp add: reading_def new_loop_def loop_notify_all_def)
  ultimately have r: "reader_reachable ?w"
    using reading_reachable(2) unfolding reader_reachable_def by (meson rtranclp.rtrancl_into_rtrancl)
  have p: "lp_pc ?w = Working" "lp_owner ?w = Notified" by (simp_all add: reading_def)
  have "\<not> (loop_step True ^^ 5) ?w v" for v using reader_thread_ends [OF r p(2), of 5 v] by linarith
  with r p show ?thesis by blast
qed


section \<open>The thread of the I/O context\<close>

text \<open>
  The same loop, with \<open>run\<close> as its work and nothing stored. \<open>Initialize\<close> and \<open>DeInitialize\<close> change the flag
  under the mutex; the destructor changes both flags without it, one after the other, and then notifies.
\<close>

definition io_Initialize :: "loop_thread \<Rightarrow> loop_thread" where
  "io_Initialize w = loop_notify_all (w\<lparr>lp_running := True\<rparr>)"

definition io_DeInitialize :: "loop_thread \<Rightarrow> loop_thread" where
  "io_DeInitialize w = loop_notify_all (w\<lparr>lp_running := False\<rparr>)"

inductive io_context_step :: "loop_thread \<Rightarrow> loop_thread \<Rightarrow> bool" where
  thread: "loop_step False w w' \<Longrightarrow> io_context_step w w'"
| initialize: "lp_owner w = Owner_Active \<Longrightarrow> \<not> holds_mutex (lp_pc w) \<Longrightarrow> io_context_step w (io_Initialize w)"
| deinitialize: "lp_owner w = Owner_Active \<Longrightarrow> \<not> holds_mutex (lp_pc w) \<Longrightarrow> io_context_step w (io_DeInitialize w)"
| destroy_exit: "lp_owner w = Owner_Active \<Longrightarrow> io_context_step w (w\<lparr>lp_exit := True, lp_owner := Exit_Set\<rparr>)"
| destroy_running: "lp_owner w = Exit_Set \<Longrightarrow> io_context_step w (w\<lparr>lp_running := False, lp_owner := Flags_Set\<rparr>)"
| destroy_notify: "lp_owner w = Flags_Set \<Longrightarrow> io_context_step w ((loop_notify_all w)\<lparr>lp_owner := Notified\<rparr>)"

definition io_reachable :: "loop_thread \<Rightarrow> bool" where
  "io_reachable w \<longleftrightarrow> io_context_step\<^sup>*\<^sup>* new_loop w"

text \<open>
  The notification can fall between the thread's look at the flags and its going to sleep: then the
  destructor joins a thread that nothing will ever wake. The reader thread of a TCP connection, whose
  flags change under the mutex, has no such run (\<open>reader_loop_inv\<close>).
\<close>

lemma io_context_join_can_hang:
  "\<exists>w. io_reachable w \<and> lp_owner w = Notified \<and> lp_pc w = Blocked \<and> (\<forall>u. \<not> io_context_step w u)"
proof -
  let ?w = "new_loop\<lparr>lp_pc := Blocking\<rparr>"
  let ?e = "?w\<lparr>lp_exit := True, lp_owner := Exit_Set\<rparr>"
  let ?f = "?e\<lparr>lp_running := False, lp_owner := Flags_Set\<rparr>"
  let ?n = "?f\<lparr>lp_owner := Notified\<rparr>"
  have "io_context_step new_loop (new_loop\<lparr>lp_pc := Predicate\<rparr>)"
    by (intro io_context_step.thread loop_step.wait) (simp_all add: new_loop_def)
  moreover have "io_context_step (new_loop\<lparr>lp_pc := Predicate\<rparr>) ?w"
    using loop_step.fails [of "new_loop\<lparr>lp_pc := Predicate\<rparr>" False] by (intro io_context_step.thread) (simp add: new_loop_def)
  moreover have "io_context_step ?w ?e" by (rule io_context_step.destroy_exit) (simp add: new_loop_def)
  moreover have "io_context_step ?e ?f" by (rule io_context_step.destroy_running) simp
  moreover have "io_context_step ?f ?n"
    using io_context_step.destroy_notify [of ?f] by (simp add: loop_notify_all_def)
  moreover have "io_context_step ?n (?n\<lparr>lp_pc := Blocked\<rparr>)" by (intro io_context_step.thread loop_step.block) simp
  ultimately have "io_reachable (?n\<lparr>lp_pc := Blocked\<rparr>)"
    unfolding io_reachable_def by (meson converse_rtranclp_into_rtranclp rtranclp.rtrancl_refl)
  moreover have "\<not> io_context_step (?n\<lparr>lp_pc := Blocked\<rparr>) u" for u
    by (auto elim!: io_context_step.cases loop_stepE)
  ultimately show ?thesis by (intro exI [of _ "?n\<lparr>lp_pc := Blocked\<rparr>"]) simp
qed

end
