(* ===== verification/Executor.thy ===== *)
theory Executor
  imports Prelude "HOL-Library.Sublist"
begin

text \<open>
  The executor (\<open>lib/utility-support/utility/executor.h\<close>): a queue of jobs, a thread that runs them, and
  two flags. Each step is one access to what the thread and the owner share. \<open>started\<close> and \<open>added\<close> are
  traces.
\<close>

section \<open>The thread and its owner\<close>

text \<open>Where the thread is. It holds the mutex of the queue at \<open>X_Queue\<close> and \<open>X_Pop\<close>.\<close>

datatype 'job exec_pc =
    X_Head          \<comment> \<open>the condition of the outer loop\<close>
  | X_Test          \<comment> \<open>the first look at \<open>running_\<close>\<close>
  | X_Blocking      \<comment> \<open>it was clear, the thread has not gone to sleep yet\<close>
  | X_Blocked
  | X_Woken
  | X_Run           \<comment> \<open>the second look at \<open>running_\<close>\<close>
  | X_Queue         \<comment> \<open>the condition of the inner loop\<close>
  | X_Func 'job     \<comment> \<open>the job runs, the mutex is free\<close>
  | X_Pop
  | X_Finished

record 'job executor =
  queue :: "'job list"
  x_exit :: bool
  x_running :: bool
  x_pc :: "'job exec_pc"
  started :: "'job list"
  added :: "'job list"

definition new_Executor :: "'job executor" where
  "new_Executor = \<lparr>queue = [], x_exit = False, x_running = False, x_pc = X_Head, started = [], added = []\<rparr>"

definition queue_free :: "'job executor \<Rightarrow> bool" where
  "queue_free x \<longleftrightarrow> (case x_pc x of X_Queue \<Rightarrow> False | X_Pop \<Rightarrow> False | _ \<Rightarrow> True)"

inductive exec_step :: "'job executor \<Rightarrow> 'job executor \<Rightarrow> bool" where
  leave: "x_pc x = X_Head \<Longrightarrow> x_exit x \<Longrightarrow> exec_step x (x\<lparr>x_pc := X_Finished\<rparr>)"
| enter: "x_pc x = X_Head \<Longrightarrow> \<not> x_exit x \<Longrightarrow> exec_step x (x\<lparr>x_pc := X_Test\<rparr>)"
| no_wait: "x_pc x = X_Test \<Longrightarrow> x_running x \<Longrightarrow> exec_step x (x\<lparr>x_pc := X_Run\<rparr>)"
| wait: "x_pc x = X_Test \<Longrightarrow> \<not> x_running x \<Longrightarrow> exec_step x (x\<lparr>x_pc := X_Blocking\<rparr>)"
| block: "x_pc x = X_Blocking \<Longrightarrow> exec_step x (x\<lparr>x_pc := X_Blocked\<rparr>)"
| wake: "x_pc x = X_Woken \<Longrightarrow> exec_step x (x\<lparr>x_pc := X_Run\<rparr>)"
| run: "x_pc x = X_Run \<Longrightarrow> x_running x \<Longrightarrow> exec_step x (x\<lparr>x_pc := X_Queue\<rparr>)"
| no_run: "x_pc x = X_Run \<Longrightarrow> \<not> x_running x \<Longrightarrow> exec_step x (x\<lparr>x_pc := X_Head\<rparr>)"
| front: "x_pc x = X_Queue \<Longrightarrow> queue x = f # fs \<Longrightarrow> exec_step x (x\<lparr>x_pc := X_Func f, started := started x @ [f]\<rparr>)"
| func: "x_pc x = X_Func f \<Longrightarrow> exec_step x (x\<lparr>x_pc := X_Pop\<rparr>)"
| pop: "x_pc x = X_Pop \<Longrightarrow> exec_step x (x\<lparr>queue := tl (queue x), x_pc := X_Queue\<rparr>)"
| empty: "x_pc x = X_Queue \<Longrightarrow> queue x = [] \<Longrightarrow> exec_step x (x\<lparr>x_running := False, x_pc := X_Head\<rparr>)"

inductive_cases exec_stepE: "exec_step x y"

definition notify_one :: "'job executor \<Rightarrow> 'job executor" where
  "notify_one x = (case x_pc x of X_Blocked \<Rightarrow> x\<lparr>x_pc := X_Woken\<rparr> | _ \<Rightarrow> x)"

definition AddExecute :: "'job \<Rightarrow> 'job executor \<Rightarrow> 'job executor" where
  "AddExecute f x = notify_one (x\<lparr>queue := queue x @ [f], x_running := True, added := added x @ [f]\<rparr>)"

text \<open>The destructor's two stores are separate steps, as is the notification.\<close>

inductive executor_run :: "'job executor \<Rightarrow> 'job executor \<Rightarrow> bool" where
  thread: "exec_step x y \<Longrightarrow> executor_run x y"
| spurious: "x_pc x = X_Blocked \<Longrightarrow> executor_run x (x\<lparr>x_pc := X_Run\<rparr>)"
| add: "queue_free x \<Longrightarrow> executor_run x (AddExecute f x)"
| destroy_exit: "executor_run x (x\<lparr>x_exit := True\<rparr>)"
| destroy_running: "x_exit x \<Longrightarrow> executor_run x (x\<lparr>x_running := False\<rparr>)"
| destroy_notify: "x_exit x \<Longrightarrow> executor_run x (notify_one x)"

section \<open>Jobs run once and in order\<close>

text \<open>The job that runs stays in front of the queue until it has returned.\<close>

definition pending :: "'job executor \<Rightarrow> 'job list" where
  "pending x = (case x_pc x of X_Func f \<Rightarrow> tl (queue x) | X_Pop \<Rightarrow> tl (queue x) | _ \<Rightarrow> queue x)"

definition executor_inv :: "'job executor \<Rightarrow> bool" where
  "executor_inv x \<longleftrightarrow> added x = started x @ pending x \<and>
     (case x_pc x of X_Func f \<Rightarrow> queue x \<noteq> [] \<and> hd (queue x) = f \<and> last (started x) = f
                   | X_Pop \<Rightarrow> queue x \<noteq> [] | _ \<Rightarrow> True)"

lemma pending_notify [simp]: "pending (notify_one x) = pending x" "added (notify_one x) = added x"
  "started (notify_one x) = started x" "queue (notify_one x) = queue x"
  by (simp_all add: notify_one_def pending_def split: exec_pc.splits)

lemma executor_inv_notify [simp]: "executor_inv (notify_one x) = executor_inv x"
  by (cases "x_pc x") (simp_all add: executor_inv_def notify_one_def pending_def)

lemma executor_inv_step: "exec_step x y \<Longrightarrow> executor_inv x \<Longrightarrow> executor_inv y"
  by (erule exec_stepE) (auto simp: executor_inv_def pending_def)

lemma executor_inv_run:
  assumes "executor_run x y" and "executor_inv x"
  shows "executor_inv y"
  using assms(1)
proof cases
  case thread
  with assms(2) executor_inv_step show ?thesis by blast
next
  case (add f)
  with assms(2) show ?thesis
    by (cases "x_pc x") (auto simp: executor_inv_def pending_def AddExecute_def queue_free_def notify_one_def)
next
  case destroy_notify
  with assms(2) show ?thesis by simp
qed (use assms(2) in \<open>auto simp: executor_inv_def pending_def split: exec_pc.splits\<close>)

lemma executor_reachable_inv: "executor_run\<^sup>*\<^sup>* new_Executor x \<Longrightarrow> executor_inv x"
proof (induction rule: rtranclp_induct)
  case base
  show ?case by (simp add: executor_inv_def new_Executor_def pending_def)
qed (use executor_inv_run in blast)

text \<open>In every interleaving the jobs started are the first of those added, in their order, each once.\<close>

lemma jobs_start_in_order: "executor_run\<^sup>*\<^sup>* new_Executor x \<Longrightarrow> prefix (started x) (added x)"
  using executor_reachable_inv [of x] by (auto simp: executor_inv_def)

text \<open>
  The owner does not hold the mutex the thread waits with: a job added between the thread's look at
  \<open>running_\<close> and its going to sleep is not noticed until the next one is added.
\<close>

lemma added_job_can_be_missed:
  fixes f :: 'job
  shows "\<exists>x. executor_run\<^sup>*\<^sup>* new_Executor x \<and> queue x = [f] \<and> x_running x \<and> x_pc x = X_Blocked \<and> (\<forall>y. \<not> exec_step x y)"
proof -
  let ?n = "new_Executor :: 'job executor"
  let ?b = "?n\<lparr>x_pc := X_Blocking\<rparr>"
  let ?x = "AddExecute f ?b\<lparr>x_pc := X_Blocked\<rparr>"
  have "executor_run ?n (?n\<lparr>x_pc := X_Test\<rparr>)"
    by (intro executor_run.thread exec_step.enter) (simp_all add: new_Executor_def)
  moreover have "executor_run (?n\<lparr>x_pc := X_Test\<rparr>) ?b"
    using exec_step.wait [of "?n\<lparr>x_pc := X_Test\<rparr>"] by (intro executor_run.thread) (simp add: new_Executor_def)
  moreover have "executor_run ?b (AddExecute f ?b)" by (rule executor_run.add) (simp add: queue_free_def)
  moreover have "executor_run (AddExecute f ?b) ?x"
    by (intro executor_run.thread exec_step.block) (simp add: AddExecute_def notify_one_def)
  ultimately have "executor_run\<^sup>*\<^sup>* ?n ?x" by (meson converse_rtranclp_into_rtranclp rtranclp.rtrancl_refl)
  moreover have "\<not> exec_step ?x y" for y by (auto elim!: exec_stepE)
  ultimately show ?thesis
    by (intro exI [of _ ?x]) (simp add: AddExecute_def notify_one_def new_Executor_def)
qed

end
