(* ===== verification/Former_Tls.thy ===== *)
theory Former_Tls
  imports Tls_Transport
begin

text \<open>
  The earlier TLS client and server (\<open>socket/tcp/tls_client_.cpp\<close>, \<open>socket/tcp/tls_server_.cpp\<close>), which
  only a test case of the repository includes. None of their functions is \<open>noexcept\<close>: \<open>Uncaught_Exception\<close>
  is an exception that leaves the call, which ends the process in the thread that reads.
\<close>

section \<open>Client\<close>

datatype TlsErrorCode =
  former_kOpenFailed | former_kBindingFailed | former_kConnectFailed | former_kTlsHandshakeFailed | former_kGenericError

record former_client =
  fc_exit_request :: bool
  fc_running :: bool
  fc_sent :: "bytes list"

text \<open>The verification callback accepts every certificate; a file of authorities that cannot be read throws.\<close>

definition verify_callback :: "bool \<Rightarrow> bool" where
  "verify_callback pre_verified = True"

definition new_TlsClientSocket :: "openssl \<Rightarrow> string \<Rightarrow> former_client run" where
  "new_TlsClientSocket ssl ca_certification_path =
     bind_run (no_throw (load_verify_file ssl ca_certification_path)) (\<lambda>_.
       Inr \<lparr>fc_exit_request = False, fc_running = False, fc_sent = []\<rparr>)"

definition delete_TlsClientSocket :: "former_client \<Rightarrow> former_client" where
  "delete_TlsClientSocket w = w\<lparr>fc_exit_request := True, fc_running := False\<rparr>"

definition TlsClientSocket_Open :: "asio_tls \<Rightarrow> string \<Rightarrow> (unit, TlsErrorCode) Result run" where
  "TlsClientSocket_Open tls local_ip =
     (let io = lowest_layer tls; result = FromError former_kGenericError in
      if asio_open io then
        bind_run (no_throw (asio_options io)) (\<lambda>_. bind_run (no_throw (asio_address io local_ip)) (\<lambda>_.
          if asio_bind io then
            bind_run (no_throw (asio_local_endpoint io)) (\<lambda>_. Inr (EmplaceValue () result))
          else Inr (EmplaceError former_kBindingFailed result)))
      else Inr (EmplaceError former_kOpenFailed result))"

definition TlsClientSocket_ConnectToHost ::
    "asio_tls \<Rightarrow> string \<Rightarrow> u16 \<Rightarrow> former_client \<Rightarrow> ((unit, TlsErrorCode) Result \<times> former_client) run" where
  "TlsClientSocket_ConnectToHost tls host_ip port w =
     (let io = lowest_layer tls; result = FromError former_kGenericError in
      bind_run (no_throw (asio_address io host_ip)) (\<lambda>_.
        if asio_connect io host_ip port then
          bind_run (no_throw (asio_endpoint_connected io)) (\<lambda>_.
            Inr (if ssl_handshake tls then (EmplaceValue () result, w\<lparr>fc_running := True\<rparr>)
                 else (EmplaceError former_kTlsHandshakeFailed result, w)))
        else Inr (EmplaceError former_kConnectFailed result, w)))"

text \<open>The error of the shutdown of the stream is overwritten by that of the socket.\<close>

definition TlsClientSocket_DisconnectFromHost ::
    "asio_tls \<Rightarrow> former_client \<Rightarrow> (unit, TlsErrorCode) Result \<times> former_client" where
  "TlsClientSocket_DisconnectFromHost tls w =
     (let result = FromError former_kGenericError; ec = ssl_shutdown tls; ec = asio_shutdown (lowest_layer tls) in
      if ec then (EmplaceValue () result, w\<lparr>fc_running := False\<rparr>) else (result, w))"

definition TlsClientSocket_Transmit ::
    "asio_tls \<Rightarrow> bytes \<Rightarrow> former_client \<Rightarrow> ((unit, TlsErrorCode) Result \<times> former_client) run" where
  "TlsClientSocket_Transmit tls tcp_message w =
     (let result = FromError former_kGenericError in
      if ssl_write tls tcp_message then
        bind_run (no_throw (asio_endpoint_written (lowest_layer tls) tcp_message)) (\<lambda>_.
          Inr (EmplaceValue () result, w\<lparr>fc_sent := fc_sent w @ [tcp_message]\<rparr>))
      else Inr (result, w))"

definition TlsClientSocket_Destroy :: "asio_tls \<Rightarrow> (unit, TlsErrorCode) Result run" where
  "TlsClientSocket_Destroy tls =
     bind_run (no_throw (asio_close (lowest_layer tls))) (\<lambda>_. Inr (EmplaceValue () (FromError former_kGenericError)))"

text \<open>Only a failed read of the header stops the thread; the error of the second read is not looked at.\<close>

definition TlsClientSocket_HandleMessage ::
    "'s asio_read \<Rightarrow> 's asio_peer \<Rightarrow> (tcp_message \<Rightarrow> 'w \<Rightarrow> 'w run) \<Rightarrow> 's \<Rightarrow> 'w \<Rightarrow> former_client \<Rightarrow>
     ('s \<times> 'w \<times> former_client) run" where
  "TlsClientSocket_HandleMessage rd peer tcp_handler_read s u w =
     (let rx_buffer = vector_resize kDoipheadrSize [];
          (ec, hdr, s1) = rd kDoipheadrSize s;
          rx_buffer = read_into 0 hdr rx_buffer
      in if ec = ec_success then
           (let n = read_next_bytes rx_buffer in
            if n \<noteq> 0 then
              (let rx_buffer = vector_resize (kDoipheadrSize + unat n) rx_buffer;
                   (ec2, body, s2) = rd (unat n) s1;
                   rx_buffer = read_into kDoipheadrSize body rx_buffer
               in (case peer s2 of
                     None \<Rightarrow> Inl Uncaught_Exception
                   | Some (ip, port) \<Rightarrow>
                       bind_run (tcp_handler_read (ip, port, rx_buffer) u) (\<lambda>u'. Inr (s2, u', w))))
            else Inr (s1, u, w))
         else Inr (s1, u, w\<lparr>fc_running := False\<rparr>))"

fun former_thread ::
    "nat \<Rightarrow> 's asio_read \<Rightarrow> 's asio_peer \<Rightarrow> (tcp_message \<Rightarrow> 'w \<Rightarrow> 'w run) \<Rightarrow> 's \<Rightarrow> 'w \<Rightarrow> former_client \<Rightarrow>
     ('s \<times> 'w \<times> former_client) run" where
  "former_thread 0 rd peer h s u w = Inr (s, u, w)"
| "former_thread (Suc n) rd peer h s u w =
     (if \<not> fc_exit_request w \<and> fc_running w then
        bind_run (TlsClientSocket_HandleMessage rd peer h s u w) (\<lambda>(s', u', w').
          former_thread n rd peer h s' u' w')
      else Inr (s, u, w))"

section \<open>Server\<close>

datatype TcpErrorCode = former_srv_kOpenFailed | former_srv_kBindingFailed | former_srv_kGenericError

text \<open>The names of the certificate files and the suites are constants; setting the suites cannot throw.\<close>

definition new_TlsServerSocket :: "openssl \<Rightarrow> bool \<Rightarrow> tls_context run" where
  "new_TlsServerSocket ssl bind_ok =
     bind_run (no_throw bind_ok) (\<lambda>_.
     bind_run (no_throw (use_certificate_chain_file ssl ''../../../openssl/DiagClientLib.crt'')) (\<lambda>_.
     bind_run (no_throw (use_private_key_file ssl ''../../../openssl/DiagClientLib.key'')) (\<lambda>_.
       Inr (set_ciphersuites ssl ''TLS_AES_256_GCM_SHA384:TLS_CHACHA20_POLY1305_SHA256'' fresh_context))))"

text \<open>An accepted connection; the handshake is left to the first reception.\<close>

definition GetTcpServerConnection :: "bool \<Rightarrow> 'h \<Rightarrow> 'h option" where
  "GetTcpServerConnection accepted tcp_handler_read = (if accepted then Some tcp_handler_read else None)"

definition TcpServerConnection_Transmit :: "asio_tls \<Rightarrow> bytes \<Rightarrow> (unit, TcpErrorCode) Result run" where
  "TcpServerConnection_Transmit tls tcp_tx_message =
     (let result = FromError former_srv_kGenericError in
      if ssl_write tls tcp_tx_message then
        bind_run (no_throw (asio_endpoint_written (lowest_layer tls) tcp_tx_message)) (\<lambda>_. Inr (EmplaceValue () result))
      else Inr result)"

text \<open>
  One reception: a handshake, each time, so in the middle of the stream from the second on, then a message. A length of zero is not set apart, so the
  address of the body is past the end of the buffer then (see \<open>TlsSocket_Read\<close>). The result is whether the
  connection is closed.
\<close>

definition TryReceivingMessage ::
    "bool \<Rightarrow> ('s \<Rightarrow> bool \<times> 's) \<Rightarrow> 's asio_read \<Rightarrow> 's asio_peer \<Rightarrow> (tcp_message \<Rightarrow> 'w \<Rightarrow> 'w run) \<Rightarrow> 's \<Rightarrow> 'w \<Rightarrow>
     (bool \<times> 's \<times> 'w) run" where
  "TryReceivingMessage past_end_ok handshake rd peer tcp_handler_read s u =
     (case handshake s of (ok, s0) \<Rightarrow>
      if ok then
        (let rx_buffer = vector_resize kDoipheadrSize [];
             (ec, hdr, s1) = rd kDoipheadrSize s0;
             rx_buffer = read_into 0 hdr rx_buffer
         in if ec = ec_success then
              (let n = read_next_bytes rx_buffer;
                   rx_buffer = vector_resize (kDoipheadrSize + unat n) rx_buffer
               in if past_end_ok \<or> kDoipheadrSize < length rx_buffer then
                    (let (ec2, body, s2) = rd (unat n) s1;
                         rx_buffer = read_into kDoipheadrSize body rx_buffer
                     in (case peer s2 of
                           None \<Rightarrow> Inl Uncaught_Exception
                         | Some (ip, port) \<Rightarrow>
                             bind_run (tcp_handler_read (ip, port, rx_buffer) u) (\<lambda>u'. Inr (False, s2, u'))))
                  else Inl Vector_Out_Of_Bounds)
            else Inr (True, s1, u))
      else Inr (True, s0, u))"

definition TcpServerConnection_Shutdown :: "bool \<Rightarrow> asio_tls \<Rightarrow> (unit, TcpErrorCode) Result run" where
  "TcpServerConnection_Shutdown is_open tls =
     (let result = FromError former_srv_kGenericError in
      if is_open then
        (let ec = ssl_shutdown tls; ec = asio_shutdown (lowest_layer tls);
             result = if ec then EmplaceValue () result else result
         in bind_run (no_throw (asio_close (lowest_layer tls))) (\<lambda>_. Inr result))
      else Inr result)"

section \<open>What the client's thread delivers\<close>

text \<open>
  A complete frame, perhaps with length zero. The thread hands on the messages with data one by one, in
  order and unchanged, and skips those without: unlike the current client it goes on reading after one.
\<close>

definition complete_frame :: "bytes \<Rightarrow> bool" where
  "complete_frame f \<longleftrightarrow> length f = 8 + unat (read_next_bytes f)"

lemma HandleMessage_complete:
  assumes "asio_reads rd unread" and "unread s = f @ rest" and "complete_frame f"
    and "\<And>s'. peer s' = Some (ip, port)"
  obtains s' where "unread s' = rest"
    "TlsClientSocket_HandleMessage rd peer h s u w =
       (if read_next_bytes f \<noteq> 0 then bind_run (h (ip, port, f) u) (\<lambda>u'. Inr (s', u', w)) else Inr (s', u, w))"
proof -
  note f = assms(3) [unfolded complete_frame_def]
  have u: "8 \<le> length (unread s)" using assms(2) f by simp
  obtain s1 where r1: "rd 8 s = (ec_success, take 8 f, s1)" and u1: "unread s1 = drop 8 f @ rest"
    using asio_readsD [OF assms(1) u] assms(2) f by auto
  have n: "unat (read_next_bytes f) \<le> length (unread s1)" using u1 f by simp
  have dr: "length (drop 8 f) = unat (read_next_bytes f)" using f by simp
  obtain s2 where r2: "rd (unat (read_next_bytes f)) s1 = (ec_success, drop 8 f, s2)" and u2: "unread s2 = rest"
    using asio_readsD [OF assms(1) n] u1 dr by auto
  have hdr: "read_into 0 (take 8 f) (vector_resize 8 []) = take 8 f"
    "read_into 8 (drop 8 f) (vector_resize (8 + unat (read_next_bytes f)) (take 8 f)) = f"
    "read_next_bytes (take 8 f) = read_next_bytes f"
    using f dr by (simp_all add: read_into_def vector_resize_def take_8_header)
  show thesis
  proof (cases "read_next_bytes f = 0")
    case True
    with u1 dr have "unread s1 = rest" by simp
    with True r1 hdr(1,3) that [of s1] show thesis by (simp add: TlsClientSocket_HandleMessage_def doip_consts Let_def)
  next
    case False
    with r1 r2 u2 hdr assms(4) that [of s2] show thesis
      by (simp add: TlsClientSocket_HandleMessage_def doip_consts Let_def)
  qed
qed

lemma former_thread_delivers:
  assumes "asio_reads rd unread" and "\<And>s'. peer s' = Some (ip, port)" and "fc_running w" and "\<not> fc_exit_request w"
  shows "unread s = concat fs @ rest \<Longrightarrow> list_all complete_frame fs \<Longrightarrow>
    \<exists>s'. unread s' = rest \<and> former_thread (length fs) rd peer h s u w =
      bind_run (deliver_all (\<lambda>f. h (ip, port, f)) (filter (\<lambda>f. read_next_bytes f \<noteq> 0) fs) u) (\<lambda>u'. Inr (s', u', w))"
proof (induction fs arbitrary: s u)
  case (Cons f fs)
  have us: "unread s = f @ concat fs @ rest" and fr: "complete_frame f" using Cons.prems by simp_all
  obtain s1 where s1: "unread s1 = concat fs @ rest" "TlsClientSocket_HandleMessage rd peer h s u w =
      (if read_next_bytes f \<noteq> 0 then bind_run (h (ip, port, f) u) (\<lambda>u'. Inr (s1, u', w)) else Inr (s1, u, w))"
    by (rule HandleMessage_complete [where h = h and u = u and w = w, OF assms(1) us fr assms(2)])
  have IH: "\<exists>s'. unread s' = rest \<and> former_thread (length fs) rd peer h s1 v w =
      bind_run (deliver_all (\<lambda>f. h (ip, port, f)) (filter (\<lambda>f. read_next_bytes f \<noteq> 0) fs) v) (\<lambda>u'. Inr (s', u', w))" for v
    using Cons.IH [OF s1(1)] Cons.prems(2) by simp
  show ?case
  proof (cases "read_next_bytes f = 0")
    case True
    with IH [of u] s1(2) assms(3,4) show ?thesis by simp
  next
    case False
    show ?thesis
    proof (cases "h (ip, port, f) u")
      case (Inl e)
      obtain s2 where "unread s2 = rest" using IH [of u] by blast
      with Inl False s1 assms(3,4) show ?thesis by auto
    next
      case (Inr v)
      with False s1 assms(3,4) IH [of v] show ?thesis by simp
    qed
  qed
qed simp

end
