(* ===== verification/Spec2Isabelle.thy ===== *)
theory Spec2Isabelle
  imports End_To_End Reception Restart Answered_Request Request_Timing Request_Properties Vd_Properties Client_Properties Transport_Properties Thread_Loops Executor Former_Tls
begin

text \<open>
  Verification of the diagnostic client library: a client for diagnostics over IP (DoIP, ISO 13400) that
  connects to a vehicle, has routing activated, sends UDS requests and returns the responses, and finds
  vehicles by broadcast. Paths below are under \<open>src/diag-client-lib\<close>, those that begin with \<open>test\<close> under \<open>src\<close>.

  \<^bold>\<open>Parts and interaction.\<close> An application creates a client (\<open>appl/src/diag-client\<close>) from a configuration
  file. The client owns a conversation manager, which hands out one diagnostic conversation per configured
  name and owns one conversation for vehicle discovery; a main thread waits for the shutdown. A
  conversation is connected to a connection of \<open>lib/doip-client\<close>, which owns a channel (TCP for requests,
  UDP for discovery). The channel's handlers compose and parse DoIP messages, keep their protocol state in
  a state context and wait for answers with a synchronous timer (\<open>lib/utility-support\<close>). Below is the
  transport (\<open>lib/boost-support\<close>): sockets, connections with a thread that reads, clients, servers and
  acceptors. A message that arrives goes up through the channel to the conversation through callbacks
  (\<open>lib/uds-transport-layer-api\<close>) in the reader's thread, while the application's call waits.

  \<^bold>\<open>How the code is modelled.\<close>
    \<^item> An object is a record, and each layer's record extends the one below (\<open>tcp_client\<close>, the channel, the
      conversation), so one value holds the objects a connection owns. Operations have the code's names, with
      the class in front where several classes have them. Integers are words of the code's width.
    \<^item> What ends the process is the value \<open>Inl\<close> of the type \<open>run\<close>: a failed \<open>CheckIfExpectedOrAbort\<close>, an
      exception that leaves a \<open>noexcept\<close> function, an access outside a vector, an indeterminate value, a
      destroyed object. Errors the code returns are values of its \<open>Result\<close>.
    \<^item> Log messages are left out of the operations, except where the callback that builds the text can throw:
      after a connect and after a write it asks the socket for the peer's address, which fails if the peer is
      gone (\<open>asio_endpoint_connected\<close>, \<open>asio_endpoint_written\<close>). With the logger as it is (\<open>Utility_Logger\<close>) the
      callback runs in every build to standard output, and in a DLT build for the levels that are enabled; for
      a disabled level these two parameters are constantly true.
    \<^item> The reader's thread is interleaved with the calling thread by a schedule: a list of times with the
      events that arrive there. Waiting (\<open>WaitForTimeout\<close>) consumes the schedule as the predicate of the
      condition variable is evaluated; the end of the schedule is a call that is still waiting, the value
      \<open>Blocks\<close>. Between two waits there are windows of events, so a response may come before the wait for it.
    \<^item> Loops of the code are recursive functions over a list or over the schedule. Each round of the
      request's loop (\<open>response_loop\<close>) takes a batch of the schedule and the recursion is on what is left;
      when nothing is left the value is \<open>Blocks\<close>, so a theorem that a call returns excludes it. The
      functions with fuel are \<open>reader_thread\<close> and \<open>server_thread\<close>, whose first argument bounds the messages
      looked at; as many as there are frames in the stream are enough (\<open>reader_thread_delivers_frames\<close>).
    \<^item> Where the accesses of two threads to the same flags matter, the loops of the threads are modelled
      again as step relations, one look at the flags or one change per step (\<open>Thread_Loops\<close>, \<open>Executor\<close>).

  \<^bold>\<open>Theories.\<close>
    \<^item> \<open>Prelude\<close>: words, byte buffers, the type \<open>run\<close> and the hints the other theories share.
    \<^item> \<open>Core_Result\<close>: \<open>lib/platform-core\<close>, \<open>Result\<close>, \<open>Span\<close> as a list, error codes and domains. \<open>Span_Views\<close>:
      \<open>Span\<close> as a pointer and a size, which refines it.
      \<open>Std_Map\<close>: \<open>std::map\<close> and \<open>std::unordered_map\<close> with the locale \<open>first_wins_map\<close>, interpreted on both.
    \<^item> \<open>Utility_Logger\<close>: \<open>logger.h\<close>, \<open>file_path.h\<close>. \<open>Utility_State\<close>: \<open>StateContext\<close> with the locale \<open>protocol_context\<close>, \<open>SyncTimer\<close> with \<open>timed_wait\<close>.
      \<open>Uds_Transport\<close>: the transport interface and the locale \<open>conversion_handler\<close>, the contract between
      a channel and the conversation above it. \<open>Thread_Loops\<close>: the threads of connections and of the I/O
      context, their mutex and condition variable. \<open>Executor\<close>: the task queue and its thread.
    \<^item> \<open>Doip_Message\<close>: constants and parser (\<open>common\<close>). \<open>Tcp_Transport\<close>: socket, connection and
      client (\<open>socket/tcp\<close>, \<open>connection/tcp\<close>, \<open>client/tcp\<close>). \<open>Tls_Transport\<close>: the same for TLS, TLS settings,
      servers and acceptors. \<open>Former_Tls\<close>: the earlier TLS client and server, used by a test case only.
      \<open>Udp_Transport\<close>: the UDP socket with its shared buffer.
    \<^item> \<open>Routing_Activation\<close>, \<open>Diagnostic_Message\<close>, \<open>Tcp_Channel\<close> (\<open>channel/tcp_channel\<close>) and
      \<open>Doip_Tcp_Connection\<close> (\<open>connection/connection_manager.cpp\<close>); \<open>Vehicle_Identification\<close>, \<open>Udp_Channel\<close>
      (\<open>channel/udp_channel\<close>) and \<open>Doip_Udp_Connection\<close>. \<open>Protocol_Handler\<close>: the transport protocol handler
      and the creation of connections down to the sockets. The socket handlers (\<open>sockets/socket_handler.h\<close>) are in
      \<open>Tcp_Transport\<close> and \<open>Udp_Transport\<close>. The channels prove their lemmas once, in the locales
      \<open>tcp_conversation\<close> and \<open>udp_conversation\<close>, for every conversation that keeps the contract.
    \<^item> \<open>Dm_Conversation\<close>: \<open>DmConversation\<close>; it interprets \<open>tcp_conversation\<close>. \<open>Vd_Conversation\<close>:
      \<open>VdConversation\<close>; \<open>Vd_Correct\<close> interprets \<open>udp_conversation\<close> on it.
    \<^item> \<open>Conversation_Manager\<close>, \<open>Dcm_Client\<close>: \<open>ConversationManager\<close>, the configuration, \<open>DCMClient\<close>,
      \<open>DiagnosticManager\<close>, \<open>DiagClient\<close> and the handles on conversations. Conversations live in a store and
      a reference is an address, so that a reference to a destroyed object is visible.
    \<^item> \<open>Channel_Refinement\<close>: the abstract machine of link, activation and request, and the simulation.
      \<open>Conversation_Correct\<close>, \<open>Application\<close>: the invariant of a conversation and of all sequences of calls.
      \<open>Vd_Request\<close>: the same for discovery. \<open>Client_Correct\<close>, \<open>Client_Steps\<close>: the invariants and the
      step relation of the whole client. \<open>Scenario\<close>: the concrete run the witnesses evaluate.
    \<^item> Properties: \<open>Restart\<close> (after a shutdown), \<open>Request_Properties\<close>, \<open>Answered_Request\<close> and \<open>Liveness\<close> (connecting, requests and
      their termination), \<open>Request_Timing\<close> (answers that come early, when a call ends the process, what becomes of
      a response), \<open>Reception\<close> (framing, parser, header checks, what a frame can do),
      \<open>Vd_Properties\<close> (discovery), \<open>Client_Properties\<close> (lifetime, shutdown, configuration),
      \<open>Transport_Properties\<close> (TLS, servers).
    \<^item> \<open>Simulated_Vehicle\<close>: the vehicle the component tests run the client against (\<open>test/component/common\<close>): its
      own parser, its TCP and UDP handlers and the messages it composes, over \<open>Span_Views\<close>. \<open>Vehicle_Correct\<close>:
      what it makes of the client's frames, and its frames as the client's layout of them. \<open>End_To_End\<close>: both sides
      together, each reading what the other wrote.

  \<^bold>\<open>What the lemmas show.\<close> A returned response is data the server sent in this call on an activated
  connection, and each error is returned exactly in its situation; a server that keeps to the timing
  gets every request answered, and one that answers too early none; every call returns once the network is
  silent, and with traffic that can be parsed the process ends only if a peer is gone at the wrong moment or an
  address cannot be read. The state machines stay
  consistent in every reachable state and refine a machine of a few transitions. Frames are delivered
  complete and in order; which bytes end the process is characterised exactly. What is encoded is decoded
  again; and the client and the simulated vehicle, which share no code for messages, understand each other in a
  whole session and in a whole discovery. The reader thread of a connection can always be taken down; what a shutdown and a quick
  reconnection do to it is shown exactly. For the client: which conversation a name stands for, how long a handle lives, and that the
  shutdown has one outcome for every order of the hash map.

  \<^bold>\<open>Parameters and hypotheses.\<close> Boost.Asio, OpenSSL and Boost's property tree are not part of the
  repository. \<open>asio_io\<close>, \<open>asio_read\<close>, \<open>asio_udp\<close> and \<open>asio_tls\<close> say what their calls return; the
  definitions are for every such value. Where a property relies on documented behaviour it is a hypothesis,
  such as \<open>asio_reads\<close> (a read yields the next bytes of the stream if there are enough). Properties of
  sequences of calls assume that one thread of the application calls a conversation (\<open>reader_only\<close>: what is
  interleaved is the reader).

  \<^bold>\<open>Not modelled.\<close> Real time: a call takes no time but for its waits. Races
  on the handlers' state, which the threads share under no common mutex: whole events are interleaved
  there, single accesses only in \<open>Thread_Loops\<close> and \<open>Executor\<close>. The texts of the individual log messages. Spans
  of static extent beyond their construction, which the code does not use. Examples, and of the tests everything but
  their simulated vehicle.
\<close>

end
